(* ===== verification/Prelude.thy ===== *)
theory Prelude
  imports Main "HOL-Library.State_Monad" "HOL-Library.AList" "HOL-Library.Sublist"
begin

text \<open>
  Shared vocabulary of the development: the two state-monad idioms every
  component uses (a read of the state, and the early return of a Go
  function or a Lua script on an error), the part of the Go standard library
  the source uses on strings, numbers and durations, and the collections of
  facts the component theories fill.

  Strings are lists of characters, one character per code point up to 255.
  Durations are Go's int64 nanoseconds, kept as \<open>int\<close>: no operation
  of the program adds or multiplies durations, so none can overflow.
\<close>

named_theorems run_simps \<open>running the model's operations\<close>
named_theorems stays_intros \<open>operations that stay within the atomic steps of the service\<close>

section \<open>Results and the error idiom\<close>

text \<open>
  A Go function that returns \<open>(value, err)\<close> returns a sum here: \<open>Inl\<close> the
  error, \<open>Inr\<close> the value. \<open>attempt m f\<close> is
  \<^verbatim>\<open>v, err := m; if err != nil { return err }; f(v)\<close>, which is also how a
  \<^verbatim>\<open>redis.call\<close> that raises aborts a Lua script.
\<close>

definition ok :: "'a \<Rightarrow> ('s, 'e + 'a) state" where
  "ok x = State_Monad.return (Inr x)"

definition fail :: "'e \<Rightarrow> ('s, 'e + 'a) state" where
  "fail e = State_Monad.return (Inl e)"

definition attempt :: "('s, 'e + 'a) state \<Rightarrow> ('a \<Rightarrow> ('s, 'e + 'b) state) \<Rightarrow> ('s, 'e + 'b) state" where
  "attempt m f = do {
     r \<leftarrow> m;
     (case r of Inl e \<Rightarrow> fail e | Inr x \<Rightarrow> f x)
   }"

definition rd :: "('s \<Rightarrow> 'a) \<Rightarrow> ('s, 'a) state" where
  "rd f = State (\<lambda>s. (f s, s))"

lemma run_ok [simp, run_simps]: "run_state (ok x) s = (Inr x, s)"
  by (simp add: ok_def)

lemma run_fail [simp, run_simps]: "run_state (fail e) s = (Inl e, s)"
  by (simp add: fail_def)

lemma run_rd [simp, run_simps]: "run_state (rd f) s = (f s, s)"
  by (simp add: rd_def)

lemma run_bind_split [run_simps]:
  "run_state (State_Monad.bind m f) s = run_state (f (fst (run_state m s))) (snd (run_state m s))"
  by (simp add: case_prod_beta)

declare run_state_bind [simp del]

lemma run_attempt [run_simps]:
  "run_state (attempt m f) s =
     (case fst (run_state m s) of
        Inl e \<Rightarrow> (Inl e, snd (run_state m s))
      | Inr x \<Rightarrow> run_state (f x) (snd (run_state m s)))"
  by (simp add: attempt_def run_bind_split split: sum.split)

lemma run_attempt_rd:
  "run_state (attempt (rd g) f) s = (case g s of Inl e \<Rightarrow> (Inl e, s) | Inr x \<Rightarrow> run_state (f x) s)"
  by (simp add: run_attempt split: sum.split)

lemma attempt_ok [simp]: "attempt (ok x) f = f x"
  by (rule state_ext) (simp add: run_attempt)

lemma attempt_fail [simp]: "attempt (fail e) f = fail e"
  by (rule state_ext) (simp add: run_attempt)

lemma attempt_assoc: "attempt (attempt m f) g = attempt m (\<lambda>x. attempt (f x) g)"
  by (rule state_ext) (simp add: run_attempt split: sum.split)

definition map_err :: "('e \<Rightarrow> 'f) \<Rightarrow> 'e + 'a \<Rightarrow> 'f + 'a" where
  "map_err g r = (case r of Inl e \<Rightarrow> Inl (g e) | Inr x \<Rightarrow> Inr x)"

lemma map_err_simps [simp]:
  "map_err g (Inl e) = Inl (g e)"
  "map_err g (Inr x) = Inr x"
  by (simp_all add: map_err_def)

lemma map_err_eq_Inr [simp]: "map_err g r = Inr x \<longleftrightarrow> r = Inr x"
  by (cases r) auto

section \<open>Strings\<close>

definition is_space :: "char \<Rightarrow> bool" where
  "is_space c \<longleftrightarrow> c \<in> set [CHR 0x09, CHR 0x0A, CHR 0x0B, CHR 0x0C, CHR 0x0D, CHR '' '', CHR 0x85, CHR 0xA0]"

text \<open>\<^verbatim>\<open>strings.TrimSpace\<close>: white space off both ends.\<close>

definition TrimSpace :: "string \<Rightarrow> string" where
  "TrimSpace s = rev (dropWhile is_space (rev (dropWhile is_space s)))"

definition blank :: "string \<Rightarrow> bool" where
  "blank s \<longleftrightarrow> TrimSpace s = []"

lemma blank_iff: "blank s \<longleftrightarrow> (\<forall>c \<in> set s. is_space c)"
proof -
  have "blank s \<longleftrightarrow> (\<forall>c \<in> set (dropWhile is_space s). is_space c)"
    by (simp add: blank_def TrimSpace_def dropWhile_eq_Nil_conv)
  also have "\<dots> \<longleftrightarrow> (\<forall>c \<in> set s. is_space c)"
    by (metis dropWhile_eq_Nil_conv hd_dropWhile hd_in_set set_dropWhileD)
  finally show ?thesis .
qed

lemma dropWhile_rev_end:
  "xs \<noteq> [] \<Longrightarrow> \<not> P (hd xs) \<Longrightarrow> dropWhile P (rev (dropWhile P (rev xs))) = rev (dropWhile P (rev xs))"
proof (induction xs)
  case Nil
  then show ?case by simp
next
  case (Cons x xs)
  then show ?case by (simp add: dropWhile_append) 
qed

lemma TrimSpace_idem [simp]: "TrimSpace (TrimSpace s) = TrimSpace s"
proof (cases "dropWhile is_space s = []")
  case True
  then show ?thesis unfolding TrimSpace_def by (simp only: rev.simps dropWhile.simps)
next
  case False
  let ?t = "dropWhile is_space s"
  from False have "\<not> is_space (hd ?t)" by (rule hd_dropWhile)
  with False have "dropWhile is_space (rev (dropWhile is_space (rev ?t))) = rev (dropWhile is_space (rev ?t))"
    by (rule dropWhile_rev_end)
  then show ?thesis by (simp add: TrimSpace_def dropWhile_idem)
qed

text \<open>\<^verbatim>\<open>fmt.Sprintf("%s:%s", prefix, id)\<close>, the shape of every Redis key.\<close>

definition sprintf_key :: "string \<Rightarrow> string \<Rightarrow> string" where
  "sprintf_key pre ident = pre @ '':'' @ ident"

lemma sprintf_key_inj [simp]: "sprintf_key p x = sprintf_key p y \<longleftrightarrow> x = y"
  by (simp add: sprintf_key_def)

text \<open>Two key prefixes name disjoint sets of keys when neither extends the other.\<close>

definition apart :: "string \<Rightarrow> string \<Rightarrow> bool" where
  "apart p q \<longleftrightarrow> \<not> prefix p q \<and> \<not> prefix q p"

lemma apart_append: "apart p q \<Longrightarrow> p @ x \<noteq> q @ y"
  by (metis apart_def prefixI prefix_same_cases)

lemma apart_sprintf:
  "apart (p @ '':'') (q @ '':'') \<Longrightarrow> sprintf_key p x \<noteq> sprintf_key q y"
  using apart_append [of "p @ '':''" "q @ '':''" x y] by (simp add: sprintf_key_def)

lemma apart_sprintf_const: "apart (p @ '':'') k \<Longrightarrow> sprintf_key p x \<noteq> k"
  using apart_append [of "p @ '':''" k x "[]"] by (simp add: sprintf_key_def)

section \<open>Durations\<close>

text \<open>Go's integer division truncates towards zero.\<close>

definition go_div :: "int \<Rightarrow> int \<Rightarrow> int" where
  "go_div a b = sgn a * sgn b * (\<bar>a\<bar> div \<bar>b\<bar>)"

abbreviation Second :: int where
  "Second \<equiv> 1000000000"

text \<open>A time-to-live the service can hand to Redis unchanged: a positive whole number of seconds.\<close>

definition whole_seconds :: "int \<Rightarrow> bool" where
  "whole_seconds d \<longleftrightarrow> 0 < d \<and> d mod Second = 0 \<and> d div Second \<le> 10 ^ 12"

lemma go_div_pos: "0 \<le> a \<Longrightarrow> 0 < b \<Longrightarrow> go_div a b = a div b"
  by (cases "a = 0") (auto simp: go_div_def)

lemma whole_seconds_div:
  assumes "whole_seconds d"
  shows "go_div d Second = d div Second" "0 < d div Second" "d div Second \<le> 10 ^ 12"
    "d = d div Second * Second"
proof -
  from assms have d: "0 < d" "d mod Second = 0" "d div Second \<le> 10 ^ 12"
    by (auto simp: whole_seconds_def)
  show "go_div d Second = d div Second" using d by (simp add: go_div_pos)
  show m: "d = d div Second * Second" using d(2) by (metis add_0_right div_mult_mod_eq)
  show "0 < d div Second" using d(1) m by linarith
  show "d div Second \<le> 10 ^ 12" by (rule d(3))
qed

end
