(* ===== verification/Floats.thy ===== *)
theory Floats
  imports Prelude Complex_Main
begin

text \<open>
  Go's \<^verbatim>\<open>float64\<close> as the source uses it: a finite value (a rational:
  every finite double is one), the two infinities and NaN, with the IEEE
  comparisons, under which NaN is unordered, as an instance of \<open>ord\<close>. The rounding of float
  arithmetic is not modelled; the only arithmetic of the program on floats
  is the great-circle distance of the dispatcher, which is stated over the
  reals there.
\<close>

datatype float64 = Fin rat | PosInf | NegInf | NaN

fun f_eq :: "float64 \<Rightarrow> float64 \<Rightarrow> bool" where
  "f_eq NaN _ \<longleftrightarrow> False"
| "f_eq x y \<longleftrightarrow> x = y"

instantiation float64 :: ord
begin

fun less_float64 :: "float64 \<Rightarrow> float64 \<Rightarrow> bool" where
  "less_float64 (Fin a) (Fin b) \<longleftrightarrow> a < b"
| "less_float64 NaN _ \<longleftrightarrow> False"
| "less_float64 _ NaN \<longleftrightarrow> False"
| "less_float64 NegInf y \<longleftrightarrow> y \<noteq> NegInf"
| "less_float64 _ PosInf \<longleftrightarrow> True"
| "less_float64 _ _ \<longleftrightarrow> False"

definition less_eq_float64 :: "float64 \<Rightarrow> float64 \<Rightarrow> bool" where
  "less_eq_float64 x y \<longleftrightarrow> x < y \<or> f_eq x y"

instance ..

end

definition IsNaN :: "float64 \<Rightarrow> bool" where
  "IsNaN x \<longleftrightarrow> x = NaN"

definition IsInf :: "float64 \<Rightarrow> bool" where
  "IsInf x \<longleftrightarrow> x = PosInf \<or> x = NegInf"

fun fin :: "float64 \<Rightarrow> rat" where
  "fin (Fin q) = q"
| "fin _ = 0"

lemma finite_cases: "\<not> IsNaN x \<Longrightarrow> \<not> IsInf x \<Longrightarrow> x = Fin (fin x)"
  by (cases x) (auto simp: IsNaN_def IsInf_def)

lemma le_Fin [simp]: "Fin a \<le> Fin b \<longleftrightarrow> a \<le> b"
  by (auto simp: less_eq_float64_def)

end
