(* ===== verification/Redis.thy ===== *)
theory Redis
  imports Floats
begin

text \<open>
  What the service relies on of code outside the repository: the Redis
  server and the go-redis client, and the two float conversions of
  \<^verbatim>\<open>strconv\<close>. They are a parameter of the model, the record \<open>'db ext\<close>
  over an unspecified database type, passed to every operation that uses
  them. The locale \<open>redis\<close> states the documented behaviour of each
  command the source calls as an assumption about what it does to the
  visible keyspace. Nothing here is a definition of Redis: theory
  \<open>Redis_Reference\<close> gives one store that satisfies the laws.

  The second half is the connection between a Go call and the server: one
  round trip, before which other clients and the clock may have changed the
  database, and whose request or reply the network may lose.
\<close>

section \<open>The keyspace\<close>

datatype rval =
    RStr string
  | RHash "string \<rightharpoonup> string"
  | RGeo "string \<rightharpoonup> rat \<times> rat"

datatype rerr = WrongType | InvalidGeo | OtherError string | NetError

datatype expiry = NoExpiry | ExSec int | ExMs int

text \<open>Expiry arguments the laws speak about: positive, and at most $10^{12}$ seconds.\<close>

fun expiry_ok :: "expiry \<Rightarrow> bool" where
  "expiry_ok NoExpiry \<longleftrightarrow> True"
| "expiry_ok (ExSec s) \<longleftrightarrow> 0 < s \<and> s \<le> 10 ^ 12"
| "expiry_ok (ExMs ms) \<longleftrightarrow> 0 < ms \<and> ms \<le> 10 ^ 15"

fun deadline :: "int \<Rightarrow> expiry \<Rightarrow> int option" where
  "deadline now NoExpiry = None"
| "deadline now (ExSec s) = Some (now + 1000 * s)"
| "deadline now (ExMs ms) = Some (now + ms)"

text \<open>Longitudes and latitudes a Redis GEO index accepts.\<close>

definition geo_range :: "rat \<Rightarrow> rat \<Rightarrow> bool" where
  "geo_range lon lat \<longleftrightarrow> -180 \<le> lon \<and> lon \<le> 180 \<and>
     -(8505112878 / 100000000) \<le> lat \<and> lat \<le> 8505112878 / 100000000"

text \<open>Characters a SCAN pattern treats specially.\<close>

definition glob_free :: "string \<Rightarrow> bool" where
  "glob_free p \<longleftrightarrow> (\<forall>c \<in> set p. c \<notin> set [CHR ''*'', CHR ''?'', CHR ''['', CHR '']'', CHR 0x5C])"

section \<open>The external code as a parameter\<close>

record 'db ext =
  clock :: "'db \<Rightarrow> int"
  view :: "'db \<Rightarrow> string \<Rightarrow> (rval \<times> int option) option"
  dur_expiry :: "int \<Rightarrow> expiry"
  dur_secs :: "int \<Rightarrow> int"
  geo_cell :: "rat \<times> rat \<Rightarrow> rat \<times> rat"
  geo_km :: "rat \<times> rat \<Rightarrow> rat \<times> rat \<Rightarrow> rat"
  geo_round :: "rat \<Rightarrow> rat"
  FormatFloat :: "float64 \<Rightarrow> string"
  ParseFloat :: "string \<Rightarrow> float64 option"
  r_get :: "string \<Rightarrow> 'db \<Rightarrow> rerr + string option"
  r_mget :: "string list \<Rightarrow> 'db \<Rightarrow> rerr + string option list"
  r_exists :: "string \<Rightarrow> 'db \<Rightarrow> rerr + int"
  r_hget :: "string \<Rightarrow> string \<Rightarrow> 'db \<Rightarrow> rerr + string option"
  r_hgetall :: "string \<Rightarrow> 'db \<Rightarrow> rerr + (string \<times> string) list"
  r_geopos :: "string \<Rightarrow> string \<Rightarrow> 'db \<Rightarrow> rerr + (rat \<times> rat) option"
  r_georadius :: "string \<Rightarrow> float64 \<Rightarrow> float64 \<Rightarrow> float64 \<Rightarrow> 'db
                  \<Rightarrow> rerr + (string \<times> (rat \<times> rat) \<times> rat) list"
  r_geodist :: "string \<Rightarrow> string \<Rightarrow> string \<Rightarrow> 'db \<Rightarrow> rerr + rat option"
  r_scan :: "int \<Rightarrow> string \<Rightarrow> int \<Rightarrow> 'db \<Rightarrow> rerr + (string list \<times> int)"
  r_set :: "string \<Rightarrow> string \<Rightarrow> expiry \<Rightarrow> ('db, rerr + unit) state"
  r_setnx :: "string \<Rightarrow> string \<Rightarrow> expiry \<Rightarrow> ('db, rerr + bool) state"
  r_del :: "string \<Rightarrow> ('db, rerr + int) state"
  r_expire :: "string \<Rightarrow> int \<Rightarrow> ('db, rerr + int) state"
  r_hset :: "string \<Rightarrow> (string \<times> string) list \<Rightarrow> ('db, rerr + unit) state"
  r_geoadd :: "string \<Rightarrow> string \<Rightarrow> float64 \<Rightarrow> float64 \<Rightarrow> ('db, rerr + unit) state"
  r_zrem :: "string \<Rightarrow> string \<Rightarrow> ('db, rerr + int) state"

text \<open>
  A full SCAN of an unchanging database: the pages from one cursor until the
  server answers cursor 0, at most \<open>n\<close> of them.
\<close>

fun scan_iter :: "'db ext \<Rightarrow> 'db \<Rightarrow> string \<Rightarrow> int \<Rightarrow> nat \<Rightarrow> int \<Rightarrow> string list list option" where
  "scan_iter X db pat count 0 c = None"
| "scan_iter X db pat count (Suc n) c =
     (case r_scan X c pat count db of
        Inl _ \<Rightarrow> None
      | Inr (ks, c') \<Rightarrow>
          if c' = 0 then Some [ks]
          else map_option (Cons ks) (scan_iter X db pat count n c'))"

section \<open>What the keyspace holds under a key\<close>

definition str_at :: "'db ext \<Rightarrow> 'db \<Rightarrow> string \<Rightarrow> string option" where
  "str_at X db k = (case view X db k of Some (RStr s, _) \<Rightarrow> Some s | _ \<Rightarrow> None)"

definition hash_at :: "'db ext \<Rightarrow> 'db \<Rightarrow> string \<Rightarrow> (string \<rightharpoonup> string) option" where
  "hash_at X db k = (case view X db k of Some (RHash h, _) \<Rightarrow> Some h | _ \<Rightarrow> None)"

definition geo_at :: "'db ext \<Rightarrow> 'db \<Rightarrow> string \<Rightarrow> (string \<rightharpoonup> rat \<times> rat)" where
  "geo_at X db k = (case view X db k of Some (RGeo g, _) \<Rightarrow> g | _ \<Rightarrow> Map.empty)"

text \<open>What kind of value, if any, an entry of the keyspace is.\<close>

definition holds_string :: "(rval \<times> int option) option \<Rightarrow> bool" where
  "holds_string e \<longleftrightarrow> (case e of None \<Rightarrow> True | Some (RStr _, _) \<Rightarrow> True | _ \<Rightarrow> False)"

definition holds_hash :: "(rval \<times> int option) option \<Rightarrow> bool" where
  "holds_hash e \<longleftrightarrow> (case e of None \<Rightarrow> True | Some (RHash _, _) \<Rightarrow> True | _ \<Rightarrow> False)"

lemma holds_simps [simp]:
  "holds_string None" "holds_string (Some (RStr s, dl))" "\<not> holds_string (Some (RHash h, dl))"
  "\<not> holds_string (Some (RGeo g, dl))"
  "holds_hash None" "holds_hash (Some (RHash h, dl))" "\<not> holds_hash (Some (RStr s, dl))"
  "\<not> holds_hash (Some (RGeo g, dl))"
  by (simp_all add: holds_string_def holds_hash_def)

lemma holds_stringE:
  assumes "holds_string e"
  obtains "e = None" | s dl where "e = Some (RStr s, dl)"
  using assms by (auto simp: holds_string_def split: option.splits prod.splits rval.splits)

lemma holds_hashE:
  assumes "holds_hash e"
  obtains "e = None" | h dl where "e = Some (RHash h, dl)"
  using assms by (auto simp: holds_hash_def split: option.splits prod.splits rval.splits)

lemma str_at_None: "holds_string (view X db k) \<Longrightarrow> view X db k = None \<longleftrightarrow> str_at X db k = None"
  by (auto simp: str_at_def elim!: holds_stringE)

lemma hash_at_None: "holds_hash (view X db k) \<Longrightarrow> view X db k = None \<longleftrightarrow> hash_at X db k = None"
  by (auto simp: hash_at_def elim!: holds_hashE)

lemma str_at_Some: "str_at X db k = Some s \<longleftrightarrow> (\<exists>dl. view X db k = Some (RStr s, dl))"
  by (auto simp: str_at_def split: option.splits prod.splits rval.splits)

lemma hash_at_Some: "hash_at X db k = Some h \<longleftrightarrow> (\<exists>dl. view X db k = Some (RHash h, dl))"
  by (auto simp: hash_at_def split: option.splits prod.splits rval.splits)

text \<open>
  \<open>yields X m db r V\<close>: run on \<open>db\<close>, the script \<open>m\<close> answers \<open>r\<close> and leaves the
  keyspace \<open>V\<close>, in no time. Every script of the service is specified by one
  such equation.
\<close>

definition yields :: "'db ext \<Rightarrow> ('db, 'r) state \<Rightarrow> 'db \<Rightarrow> 'r
    \<Rightarrow> (string \<Rightarrow> (rval \<times> int option) option) \<Rightarrow> bool" where
  "yields X m db r V \<longleftrightarrow> fst (run_state m db) = r \<and> view X (snd (run_state m db)) = V \<and>
     clock X (snd (run_state m db)) = clock X db"

lemma yieldsD:
  assumes "yields X m db r V"
  shows "fst (run_state m db) = r" "view X (snd (run_state m db)) = V"
    "clock X (snd (run_state m db)) = clock X db"
  using assms by (simp_all add: yields_def)

lemma yields_runE:
  assumes "yields X m db r V"
  obtains db' where "run_state m db = (r, db')" "view X db' = V" "clock X db' = clock X db"
  using assms that by (cases "run_state m db") (auto simp: yields_def)

section \<open>Documented behaviour\<close>

locale redis =
  fixes X :: "'db ext"
  assumes live: "view X db k = Some (rv, Some t) \<Longrightarrow> clock X db < t"
    and dur_expiry_secs: "0 < n \<Longrightarrow> n \<le> 10 ^ 12 \<Longrightarrow> dur_expiry X (n * Second) = ExSec n"
    and dur_expiry_zero: "dur_expiry X 0 = NoExpiry"
    and dur_secs_secs: "0 < n \<Longrightarrow> n \<le> 10 ^ 12 \<Longrightarrow> dur_secs X (n * Second) = n"
    and parse_format: "ParseFloat X (FormatFloat X (Fin q)) = Some (Fin q)"
    and geo_round_mono: "x \<le> y \<Longrightarrow> geo_round X x \<le> geo_round X y"
    and get_eq: "r_get X k db = (case view X db k of None \<Rightarrow> Inr None
        | Some (RStr s, _) \<Rightarrow> Inr (Some s) | Some _ \<Rightarrow> Inl WrongType)"
    and mget_eq: "r_mget X ks db = Inr (map (\<lambda>k. case view X db k of
        Some (RStr s, _) \<Rightarrow> Some s | _ \<Rightarrow> None) ks)"
    and exists_eq: "r_exists X k db = Inr (if view X db k = None then 0 else 1)"
    and hget_eq: "r_hget X k f db = (case view X db k of None \<Rightarrow> Inr None
        | Some (RHash h, _) \<Rightarrow> Inr (h f) | Some _ \<Rightarrow> Inl WrongType)"
    and hgetall_none: "view X db k = None \<Longrightarrow> r_hgetall X k db = Inr []"
    and hgetall_hash: "view X db k = Some (RHash h, dl)
        \<Longrightarrow> \<exists>fvs. r_hgetall X k db = Inr fvs \<and> map_of fvs = h"
    and geopos_eq: "r_geopos X k m db = (case view X db k of None \<Rightarrow> Inr None
        | Some (RGeo g, _) \<Rightarrow> Inr (g m) | Some _ \<Rightarrow> Inl WrongType)"
    and georadius_none: "geo_range lon lat \<Longrightarrow> 0 < rad \<Longrightarrow> view X db k = None
        \<Longrightarrow> r_georadius X k (Fin lon) (Fin lat) (Fin rad) db = Inr []"
    and georadius_geo: "geo_range lon lat \<Longrightarrow> 0 < rad \<Longrightarrow> view X db k = Some (RGeo g, dl)
        \<Longrightarrow> \<exists>xs. r_georadius X k (Fin lon) (Fin lat) (Fin rad) db = Inr xs \<and>
              set xs = {(m, p, geo_round X (geo_km X (lon, lat) p)) | m p.
                          g m = Some p \<and> geo_km X (lon, lat) p \<le> rad} \<and>
              distinct (map fst xs) \<and>
              sorted (map (\<lambda>(m, p, d). geo_km X (lon, lat) p) xs)"
    and georadius_range: "\<not> geo_range lon lat
        \<Longrightarrow> r_georadius X k (Fin lon) (Fin lat) (Fin rad) db = Inl InvalidGeo"
    and geodist_eq: "r_geodist X k a b db = (case view X db k of None \<Rightarrow> Inr None
        | Some (RGeo g, _) \<Rightarrow> Inr (case (g a, g b) of
              (Some p, Some q) \<Rightarrow> Some (geo_round X (geo_km X p q)) | _ \<Rightarrow> None)
        | Some _ \<Rightarrow> Inl WrongType)"
    and scan_all: "glob_free p \<Longrightarrow> \<exists>n pages. scan_iter X db (p @ ''*'') 100 n 0 = Some pages \<and>
        set (concat pages) = {k. prefix p k \<and> view X db k \<noteq> None}"
    and set_res: "expiry_ok e \<Longrightarrow> fst (run_state (r_set X k v e) db) = Inr ()"
    and set_view: "expiry_ok e \<Longrightarrow> view X (snd (run_state (r_set X k v e) db))
        = (view X db)(k \<mapsto> (RStr v, deadline (clock X db) e))"
    and set_clock: "expiry_ok e \<Longrightarrow> clock X (snd (run_state (r_set X k v e) db)) = clock X db"
    and setnx_res: "expiry_ok e \<Longrightarrow> fst (run_state (r_setnx X k v e) db) = Inr (view X db k = None)"
    and setnx_view: "expiry_ok e \<Longrightarrow> view X (snd (run_state (r_setnx X k v e) db))
        = (if view X db k = None then (view X db)(k \<mapsto> (RStr v, deadline (clock X db) e)) else view X db)"
    and setnx_clock: "expiry_ok e \<Longrightarrow> clock X (snd (run_state (r_setnx X k v e) db)) = clock X db"
    and del_res: "fst (run_state (r_del X k) db) = Inr (if view X db k = None then 0 else 1)"
    and del_view: "view X (snd (run_state (r_del X k) db)) = (view X db)(k := None)"
    and del_clock: "clock X (snd (run_state (r_del X k) db)) = clock X db"
    and expire_res: "expiry_ok (ExSec s)
        \<Longrightarrow> fst (run_state (r_expire X k s) db) = Inr (if view X db k = None then 0 else 1)"
    and expire_view: "expiry_ok (ExSec s) \<Longrightarrow> view X (snd (run_state (r_expire X k s) db))
        = (case view X db k of None \<Rightarrow> view X db
           | Some (v, _) \<Rightarrow> (view X db)(k \<mapsto> (v, deadline (clock X db) (ExSec s))))"
    and expire_clock: "expiry_ok (ExSec s) \<Longrightarrow> clock X (snd (run_state (r_expire X k s) db)) = clock X db"
    and hset_res: "fst (run_state (r_hset X k fvs) db) = (case view X db k of
        None \<Rightarrow> Inr () | Some (RHash _, _) \<Rightarrow> Inr () | Some _ \<Rightarrow> Inl WrongType)"
    and hset_view: "view X (snd (run_state (r_hset X k fvs) db)) = (case view X db k of
        None \<Rightarrow> (view X db)(k \<mapsto> (RHash (map_of (rev fvs)), None))
      | Some (RHash h, dl) \<Rightarrow> (view X db)(k \<mapsto> (RHash (h ++ map_of (rev fvs)), dl))
      | Some _ \<Rightarrow> view X db)"
    and hset_clock: "clock X (snd (run_state (r_hset X k fvs) db)) = clock X db"
    and geoadd_res: "fst (run_state (r_geoadd X k m (Fin lon) (Fin lat)) db) =
        (if \<not> geo_range lon lat then Inl InvalidGeo
         else case view X db k of None \<Rightarrow> Inr () | Some (RGeo _, _) \<Rightarrow> Inr () | Some _ \<Rightarrow> Inl WrongType)"
    and geoadd_view: "view X (snd (run_state (r_geoadd X k m (Fin lon) (Fin lat)) db)) =
        (if \<not> geo_range lon lat then view X db
         else case view X db k of
             None \<Rightarrow> (view X db)(k \<mapsto> (RGeo [m \<mapsto> geo_cell X (lon, lat)], None))
           | Some (RGeo g, dl) \<Rightarrow> (view X db)(k \<mapsto> (RGeo (g(m \<mapsto> geo_cell X (lon, lat))), dl))
           | Some _ \<Rightarrow> view X db)"
    and geoadd_clock: "clock X (snd (run_state (r_geoadd X k m (Fin lon) (Fin lat)) db)) = clock X db"
    and zrem_res: "fst (run_state (r_zrem X k m) db) = (case view X db k of None \<Rightarrow> Inr 0
        | Some (RGeo g, _) \<Rightarrow> Inr (if g m = None then 0 else 1) | Some _ \<Rightarrow> Inl WrongType)"
    and zrem_view: "k' \<noteq> k \<Longrightarrow> view X (snd (run_state (r_zrem X k m) db)) k' = view X db k'"
    and zrem_geo: "view X db k = None \<or> (\<exists>g dl. view X db k = Some (RGeo g, dl))
        \<Longrightarrow> geo_at X (snd (run_state (r_zrem X k m) db)) k = (geo_at X db k)(m := None) \<and>
            (view X (snd (run_state (r_zrem X k m) db)) k = None \<or>
             (\<exists>g dl. view X (snd (run_state (r_zrem X k m) db)) k = Some (RGeo g, dl)))"
    and zrem_clock: "clock X (snd (run_state (r_zrem X k m) db)) = clock X db"
begin

lemmas read_laws = get_eq mget_eq exists_eq hget_eq geopos_eq

lemmas write_laws =
  set_res set_view set_clock setnx_res setnx_view setnx_clock del_res del_view del_clock
  expire_res expire_view expire_clock hset_res hset_view hset_clock
  geoadd_res geoadd_view geoadd_clock

lemma get_typed: "holds_string (view X db k) \<Longrightarrow> r_get X k db = Inr (str_at X db k)"
  by (auto simp: get_eq str_at_def elim!: holds_stringE)

lemma hget_typed:
  "holds_hash (view X db k) \<Longrightarrow> r_hget X k f db = Inr (case hash_at X db k of None \<Rightarrow> None | Some h \<Rightarrow> h f)"
  by (auto simp: hget_eq hash_at_def elim!: holds_hashE)

lemma exists_hash_typed:
  "holds_hash (view X db k) \<Longrightarrow> r_exists X k db = Inr (if hash_at X db k = None then 0 else 1)"
  by (simp add: exists_eq hash_at_None)

lemma yields_ok: "V = view X db \<Longrightarrow> r = Inr x \<Longrightarrow> yields X (ok x) db r V"
  by (simp add: yields_def)

lemma yields_get:
  assumes "holds_string (view X db k)" "yields X (f (str_at X db k)) db r V"
  shows "yields X (attempt (rd (r_get X k)) f) db r V"
  using assms by (simp add: yields_def run_attempt_rd get_typed)

lemma yields_hget:
  assumes "holds_hash (view X db k)"
    "yields X (f (case hash_at X db k of None \<Rightarrow> None | Some h \<Rightarrow> h g)) db r V"
  shows "yields X (attempt (rd (r_hget X k g)) f) db r V"
  using assms by (simp add: yields_def run_attempt_rd hget_typed)

lemma yields_exists:
  assumes "holds_hash (view X db k)" "yields X (f (if hash_at X db k = None then 0 else 1)) db r V"
  shows "yields X (attempt (rd (r_exists X k)) f) db r V"
  using assms by (simp add: yields_def run_attempt_rd exists_hash_typed)

lemma yields_set:
  assumes "expiry_ok e"
    and "\<And>db'. view X db' = (view X db)(k \<mapsto> (RStr v, deadline (clock X db) e)) \<Longrightarrow>
           clock X db' = clock X db \<Longrightarrow> yields X (f ()) db' r V"
  shows "yields X (attempt (r_set X k v e) f) db r V"
  using assms(2) [OF set_view set_clock] assms(1) by (simp add: yields_def run_attempt set_res set_clock)

lemma yields_expire:
  assumes "expiry_ok (ExSec s)" "view X db k = Some (v, dl)"
    and "\<And>db' x. view X db' = (view X db)(k \<mapsto> (v, deadline (clock X db) (ExSec s))) \<Longrightarrow>
           clock X db' = clock X db \<Longrightarrow> yields X (f x) db' r V"
  shows "yields X (attempt (r_expire X k s) f) db r V"
  using assms(3) [of "snd (run_state (r_expire X k s) db)" 1] assms(1,2)
  by (simp add: yields_def run_attempt expire_res expire_view expire_clock)

lemma yields_hset:
  assumes "view X db k = Some (RHash h, dl)"
    and "\<And>db'. view X db' = (view X db)(k \<mapsto> (RHash (h ++ map_of (rev fvs)), dl)) \<Longrightarrow>
           clock X db' = clock X db \<Longrightarrow> yields X (f ()) db' r V"
  shows "yields X (attempt (r_hset X k fvs) f) db r V"
  using assms(2) [of "snd (run_state (r_hset X k fvs) db)"] assms(1)
  by (simp add: yields_def run_attempt hset_res hset_view hset_clock)

lemma yields_del:
  assumes "\<And>db' x. view X db' = (view X db)(k := None) \<Longrightarrow> clock X db' = clock X db \<Longrightarrow> yields X (f x) db' r V"
  shows "yields X (attempt (r_del X k) f) db r V"
  using assms [of "snd (run_state (r_del X k) db)"]
  by (simp add: yields_def run_attempt del_res del_view del_clock)

lemma yields_set_if:
  assumes "expiry_ok e"
    and "\<And>db'. view X db' = (if b then (view X db)(k \<mapsto> (RStr v, deadline (clock X db) e)) else view X db) \<Longrightarrow>
           clock X db' = clock X db \<Longrightarrow> yields X (f ()) db' r V"
  shows "yields X (attempt (if b then r_set X k v e else ok ()) f) db r V"
  using assms by (cases b) (auto intro: yields_set)

lemma yields_del_if:
  assumes "\<And>db' x. view X db' = (if b then (view X db)(k := None) else view X db) \<Longrightarrow>
           clock X db' = clock X db \<Longrightarrow> yields X (f x) db' r V"
  shows "yields X (attempt (if b then r_del X k else ok 0) f) db r V"
  using assms by (cases b) (auto intro: yields_del)

lemma yields_rset: "expiry_ok e \<Longrightarrow>
  yields X (r_set X k v e) db (Inr ()) ((view X db)(k \<mapsto> (RStr v, deadline (clock X db) e)))"
  by (simp add: yields_def set_res set_view set_clock)

lemma yields_rdel:
  "yields X (r_del X k) db (Inr (if view X db k = None then 0 else 1)) ((view X db)(k := None))"
  by (simp add: yields_def del_res del_view del_clock)

lemma dur_expiry_whole:
  assumes "whole_seconds d"
  shows "dur_expiry X d = ExSec (d div Second)"
  using assms by (metis dur_expiry_secs whole_seconds_div(2-4))

lemma dur_secs_whole:
  assumes "whole_seconds d"
  shows "dur_secs X d = d div Second"
  using assms by (metis dur_secs_secs whole_seconds_div(2-4))

end

section \<open>Time\<close>

text \<open>
  Time passes: the clock moves forward and exactly the keys whose deadline
  it reaches disappear.
\<close>

definition elapses :: "'db ext \<Rightarrow> 'db \<Rightarrow> 'db \<Rightarrow> bool" where
  "elapses X db db' \<longleftrightarrow> clock X db \<le> clock X db' \<and>
     (\<forall>k. view X db' k = (case view X db k of
        Some (v, Some t) \<Rightarrow> (if clock X db' < t then Some (v, Some t) else None)
      | r \<Rightarrow> r))"

section \<open>Round trips\<close>

text \<open>
  One call of the Go program to Redis. \<open>sched\<close> is the environment of the
  calls to come: before each, a change of the database by everybody else
  (other requests, other processes, the clock), and what the network does
  to the call. A lost reply means the command ran and the caller does not
  know. An exhausted schedule is a quiet, reliable connection.
\<close>

datatype fault = Delivered | RequestLost | ReplyLost

record 'db world =
  wdb :: 'db
  sched :: "(('db \<Rightarrow> 'db) \<times> fault) list"

definition rtt :: "('db, rerr + 'a) state \<Rightarrow> ('db world, rerr + 'a) state" where
  "rtt c = State (\<lambda>w. case sched w of
       [] \<Rightarrow> (case run_state c (wdb w) of (r, d) \<Rightarrow> (r, w\<lparr>wdb := d\<rparr>))
     | (env, flt) # rest \<Rightarrow>
         (case flt of
            Delivered \<Rightarrow> (case run_state c (env (wdb w)) of (r, d) \<Rightarrow> (r, \<lparr>wdb = d, sched = rest\<rparr>))
          | RequestLost \<Rightarrow> (Inl NetError, \<lparr>wdb = env (wdb w), sched = rest\<rparr>)
          | ReplyLost \<Rightarrow> (Inl NetError, \<lparr>wdb = snd (run_state c (env (wdb w))), sched = rest\<rparr>)))"

text \<open>The quiet world: nobody else acts and no message is lost.\<close>

definition quiet :: "'db \<Rightarrow> 'db world" where
  "quiet db = \<lparr>wdb = db, sched = []\<rparr>"

lemma quiet_simps [simp]: "wdb (quiet db) = db" "sched (quiet db) = []"
  by (simp_all add: quiet_def)

lemma fst_rtt_quiet [run_simps]: "fst (run_state (rtt c) (quiet db)) = fst (run_state c db)"
  by (simp add: rtt_def case_prod_beta)

lemma snd_rtt_quiet [run_simps]: "snd (run_state (rtt c) (quiet db)) = quiet (snd (run_state c db))"
  by (simp add: rtt_def case_prod_beta quiet_def)

section \<open>Staying within a set of atomic steps\<close>

text \<open>
  \<open>stays P m\<close>: whatever the network does, and as long as everybody else
  changes the database by \<open>P\<close>-steps only, running \<open>m\<close> changes it by
  \<open>P\<close>-steps only. With \<open>P\<close> the atomic steps of the service this says that
  any interleaving of requests is a sequence of those steps.
\<close>

definition env_stays :: "('db \<Rightarrow> 'db \<Rightarrow> bool) \<Rightarrow> 'db world \<Rightarrow> bool" where
  "env_stays P w \<longleftrightarrow> (\<forall>(env, flt) \<in> set (sched w). \<forall>db. P\<^sup>*\<^sup>* db (env db))"

definition stays :: "('db \<Rightarrow> 'db \<Rightarrow> bool) \<Rightarrow> ('db world, 'a) state \<Rightarrow> bool" where
  "stays P m \<longleftrightarrow> (\<forall>w. env_stays P w \<longrightarrow>
     P\<^sup>*\<^sup>* (wdb w) (wdb (snd (run_state m w))) \<and> env_stays P (snd (run_state m w)))"

lemma staysD:
  "stays P m \<Longrightarrow> env_stays P w \<Longrightarrow> P\<^sup>*\<^sup>* (wdb w) (wdb (snd (run_state m w)))"
  "stays P m \<Longrightarrow> env_stays P w \<Longrightarrow> env_stays P (snd (run_state m w))"
  by (auto simp: stays_def)

lemma stays_rtt:
  assumes "\<And>db. P\<^sup>*\<^sup>* db (snd (run_state c db))"
  shows "stays P (rtt c)"
  unfolding stays_def
proof (intro allI impI)
  fix w
  assume env: "env_stays P w"
  show "P\<^sup>*\<^sup>* (wdb w) (wdb (snd (run_state (rtt c) w))) \<and> env_stays P (snd (run_state (rtt c) w))"
  proof (cases "sched w")
    case Nil
    then show ?thesis
      using assms env by (simp add: rtt_def case_prod_beta env_stays_def)
  next
    case (Cons ef rest)
    obtain e flt where ef: "ef = (e, flt)" by fastforce
    from env Cons ef have step: "P\<^sup>*\<^sup>* db (e db)" for db by (simp add: env_stays_def)
    from env Cons have "env_stays P \<lparr>wdb = d, sched = rest\<rparr>" for d by (simp add: env_stays_def)
    moreover have "P\<^sup>*\<^sup>* (wdb w) (snd (run_state c (e (wdb w))))"
      by (rule rtranclp_trans [OF step assms])
    ultimately show ?thesis
      using Cons ef step by (cases flt) (simp_all add: rtt_def case_prod_beta)
  qed
qed

lemma stays_return [stays_intros]: "stays P (State_Monad.return x)"
  by (simp add: stays_def)

lemma stays_ok [stays_intros]: "stays P (ok x)"
  by (simp add: stays_def)

lemma stays_fail [stays_intros]: "stays P (fail e)"
  by (simp add: stays_def)

lemma stays_bind [stays_intros]:
  assumes "stays P m" "\<And>x. stays P (f x)"
  shows "stays P (State_Monad.bind m f)"
  unfolding stays_def
proof (intro allI impI)
  fix w
  assume env: "env_stays P w"
  let ?w = "snd (run_state m w)" and ?x = "fst (run_state m w)"
  from staysD [OF assms(1) env]
  have m: "P\<^sup>*\<^sup>* (wdb w) (wdb ?w)" "env_stays P ?w" .
  from staysD [OF assms(2) m(2), of ?x] m(1)
  show "P\<^sup>*\<^sup>* (wdb w) (wdb (snd (run_state (State_Monad.bind m f) w))) \<and>
        env_stays P (snd (run_state (State_Monad.bind m f) w))"
    by (simp add: run_bind_split)
qed

lemma stays_attempt [stays_intros]:
  "stays P m \<Longrightarrow> (\<And>x. stays P (f x)) \<Longrightarrow> stays P (attempt m f)"
  unfolding attempt_def by (intro stays_bind) (auto split: sum.split intro: stays_fail)

lemma stays_read [stays_intros]: "stays P (rtt (rd f))"
  by (rule stays_rtt) simp

lemma stays_if [stays_intros]:
  "(b \<Longrightarrow> stays P m) \<Longrightarrow> (\<not> b \<Longrightarrow> stays P m') \<Longrightarrow> stays P (if b then m else m')"
  by simp

lemma stays_case_sum [stays_intros]:
  "(\<And>e. r = Inl e \<Longrightarrow> stays P (f e)) \<Longrightarrow> (\<And>x. r = Inr x \<Longrightarrow> stays P (g x)) \<Longrightarrow>
   stays P (case r of Inl e \<Rightarrow> f e | Inr x \<Rightarrow> g x)"
  by (cases r) auto

lemma stays_case_option [stays_intros]:
  "(r = None \<Longrightarrow> stays P m) \<Longrightarrow> (\<And>x. r = Some x \<Longrightarrow> stays P (g x)) \<Longrightarrow>
   stays P (case r of None \<Rightarrow> m | Some x \<Rightarrow> g x)"
  by (cases r) auto

lemma stays_case_prod [stays_intros]:
  "(\<And>x y. p = (x, y) \<Longrightarrow> stays P (f x y)) \<Longrightarrow> stays P (case p of (x, y) \<Rightarrow> f x y)"
  by (cases p) auto

end
