(* ===== verification/Errors.thy ===== *)
theory Errors
  imports Redis
begin

text \<open>
  The error values of the program, one datatype per package in the order of
  its \<^verbatim>\<open>var\<close> block, and the sum \<open>err\<close> that a Go \<^verbatim>\<open>error\<close> is: a sentinel
  of one of the packages, an error of the Redis client, or an ad-hoc
  \<^verbatim>\<open>errors.New\<close> or \<^verbatim>\<open>fmt.Errorf\<close> value with its text. \<^verbatim>\<open>errors.Is\<close> on a
  sentinel is equality here, since the source wraps no sentinel.
\<close>

datatype geo_err =
  ErrInvalidCoordinates | ErrInvalidLocationID | ErrInvalidRadius | ErrLocationNotFound

datatype driver_err =
  ErrDriverNotFound | ErrInvalidStatus | ErrStatusConflict | ErrDriverOffline

datatype lock_err =
  ErrNoDriversAvailable | ErrLockFailed | ErrLockNotHeld | ErrLockExpired

datatype lifecycle_err =
  ErrActiveAssignment | ErrAssignmentNotFound | ErrAssignmentStateConflict
| ErrRequestAlreadyExists | ErrDriverOwnershipConflict | ErrDriverTooFar

datatype rate_err = ErrInsufficientBudget | ErrInvalidAmount | ErrInvalidKey

datatype err =
    Geo geo_err | Drv driver_err | Lck lock_err | Lif lifecycle_err | Rate rate_err
  | Rdb rerr | Plain string

text \<open>\<^verbatim>\<open>err.Error()\<close>\<close>

fun geo_text :: "geo_err \<Rightarrow> string" where
  "geo_text ErrInvalidCoordinates = ''invalid coordinates''"
| "geo_text ErrInvalidLocationID = ''invalid location id''"
| "geo_text ErrInvalidRadius = ''invalid radius''"
| "geo_text ErrLocationNotFound = ''location not found''"

fun driver_text :: "driver_err \<Rightarrow> string" where
  "driver_text ErrDriverNotFound = ''driver not found''"
| "driver_text ErrInvalidStatus = ''invalid status''"
| "driver_text ErrStatusConflict = ''status conflict''"
| "driver_text ErrDriverOffline = ''driver is offline''"

fun lock_text :: "lock_err \<Rightarrow> string" where
  "lock_text ErrNoDriversAvailable = ''no drivers available''"
| "lock_text ErrLockFailed = ''failed to acquire lock''"
| "lock_text ErrLockNotHeld = ''lock not held''"
| "lock_text ErrLockExpired = ''lock expired''"

fun lifecycle_text :: "lifecycle_err \<Rightarrow> string" where
  "lifecycle_text ErrActiveAssignment = ''rider already has an active assignment''"
| "lifecycle_text ErrAssignmentNotFound = ''assignment not found''"
| "lifecycle_text ErrAssignmentStateConflict = ''assignment state conflict''"
| "lifecycle_text ErrRequestAlreadyExists = ''request already exists''"
| "lifecycle_text ErrDriverOwnershipConflict = ''driver is owned by another request''"
| "lifecycle_text ErrDriverTooFar = ''driver is too far from pickup''"

fun rate_text :: "rate_err \<Rightarrow> string" where
  "rate_text ErrInsufficientBudget = ''insufficient budget''"
| "rate_text ErrInvalidAmount = ''invalid amount''"
| "rate_text ErrInvalidKey = ''invalid key''"

text \<open>The text of a server or network error is the client library's; it is tagged here.\<close>

fun redis_text :: "rerr \<Rightarrow> string" where
  "redis_text WrongType = ''redis: wrong type''"
| "redis_text InvalidGeo = ''redis: invalid longitude,latitude pair''"
| "redis_text (OtherError s) = ''redis: '' @ s"
| "redis_text NetError = ''redis: connection error''"

fun Error :: "err \<Rightarrow> string" where
  "Error (Geo e) = geo_text e"
| "Error (Drv e) = driver_text e"
| "Error (Lck e) = lock_text e"
| "Error (Lif e) = lifecycle_text e"
| "Error (Rate e) = rate_text e"
| "Error (Rdb e) = redis_text e"
| "Error (Plain s) = s"

text \<open>A Redis call made by Go code: the reply, or the client's error as the Go error.\<close>

definition call :: "('db, rerr + 'a) state \<Rightarrow> ('db world, err + 'a) state" where
  "call c = do { r \<leftarrow> rtt c; State_Monad.return (map_err Rdb r) }"

lemma run_call_quiet [run_simps]:
  "run_state (call c) (quiet db) = (map_err Rdb (fst (run_state c db)), quiet (snd (run_state c db)))"
  by (simp add: call_def run_simps)

lemma stays_call:
  "(\<And>db. P\<^sup>*\<^sup>* db (snd (run_state c db))) \<Longrightarrow> stays P (call c)"
  unfolding call_def by (intro stays_bind stays_return stays_rtt)

lemma stays_call_read [stays_intros]: "stays P (call (rd f))"
  by (rule stays_call) simp

end
