(* ===== verification/Geospatial.thy ===== *)
theory Geospatial
  imports Errors
begin

text \<open>
  Package \<^verbatim>\<open>internal/geospatial\<close>: the Redis GEO index of driver positions and
  the coordinate checks. The index is the value under the service's key.
\<close>

record Location =
  loc_ID :: string
  loc_Longitude :: float64
  loc_Latitude :: float64
  loc_DistanceKm :: float64

record GeoService =
  gs_key :: string

definition geo_New :: "string \<Rightarrow> GeoService" where
  "geo_New key = \<lparr>gs_key = (if key = [] then ''locations'' else key)\<rparr>"

definition ValidateCoordinates :: "float64 \<Rightarrow> float64 \<Rightarrow> err + unit" where
  "ValidateCoordinates lon lat =
     (if IsNaN lon \<or> IsInf lon \<or> lon < Fin (-180) \<or> Fin 180 < lon
      then Inl (Geo ErrInvalidCoordinates)
      else if IsNaN lat \<or> IsInf lat \<or> lat < Fin (-90) \<or> Fin 90 < lat
      then Inl (Geo ErrInvalidCoordinates)
      else Inr ())"

definition ValidateRadius :: "float64 \<Rightarrow> err + unit" where
  "ValidateRadius radiusKm =
     (if IsNaN radiusKm \<or> IsInf radiusKm \<or> radiusKm \<le> Fin 0
      then Inl (Geo ErrInvalidRadius) else Inr ())"

definition AddLocation :: "'db ext \<Rightarrow> GeoService \<Rightarrow> Location \<Rightarrow> ('db world, err + unit) state" where
  "AddLocation X gs loc =
     (if TrimSpace (loc_ID loc) = [] then fail (Geo ErrInvalidLocationID)
      else case ValidateCoordinates (loc_Longitude loc) (loc_Latitude loc) of
          Inl e \<Rightarrow> fail e
        | Inr _ \<Rightarrow> call (r_geoadd X (gs_key gs) (loc_ID loc) (loc_Longitude loc) (loc_Latitude loc)))"

definition GetLocation :: "'db ext \<Rightarrow> GeoService \<Rightarrow> string \<Rightarrow> ('db world, err + Location) state" where
  "GetLocation X gs ident =
     (if TrimSpace ident = [] then fail (Geo ErrInvalidLocationID)
      else attempt (call (rd (r_geopos X (gs_key gs) ident))) (\<lambda>position.
        case position of
          None \<Rightarrow> fail (Geo ErrLocationNotFound)
        | Some (lon, lat) \<Rightarrow>
            ok \<lparr>loc_ID = ident, loc_Longitude = Fin lon, loc_Latitude = Fin lat, loc_DistanceKm = Fin 0\<rparr>))"

definition RemoveLocation :: "'db ext \<Rightarrow> GeoService \<Rightarrow> string \<Rightarrow> ('db world, err + unit) state" where
  "RemoveLocation X gs ident =
     attempt (call (r_zrem X (gs_key gs) ident)) (\<lambda>result.
       if result = 0 then fail (Geo ErrLocationNotFound) else ok ())"

definition FindNearby :: "'db ext \<Rightarrow> GeoService \<Rightarrow> float64 \<Rightarrow> float64 \<Rightarrow> float64
    \<Rightarrow> ('db world, err + Location list) state" where
  "FindNearby X gs lon lat radiusKm =
     (case ValidateCoordinates lon lat of
        Inl e \<Rightarrow> fail e
      | Inr _ \<Rightarrow>
          (case ValidateRadius radiusKm of
             Inl e \<Rightarrow> fail e
           | Inr _ \<Rightarrow>
               attempt (call (rd (r_georadius X (gs_key gs) lon lat radiusKm))) (\<lambda>results.
                 ok (map (\<lambda>(name, (rlon, rlat), dist).
                       \<lparr>loc_ID = name, loc_Longitude = Fin rlon, loc_Latitude = Fin rlat,
                        loc_DistanceKm = Fin dist\<rparr>) results))))"

definition Distance :: "'db ext \<Rightarrow> GeoService \<Rightarrow> string \<Rightarrow> string \<Rightarrow> ('db world, err + float64) state" where
  "Distance X gs id1 id2 =
     attempt (call (rd (r_geodist X (gs_key gs) id1 id2))) (\<lambda>dist.
       case dist of None \<Rightarrow> fail (Plain ''redis: nil'') | Some d \<Rightarrow> ok (Fin d))"

section \<open>The checks\<close>

lemma ValidateCoordinates_ok_iff:
  "ValidateCoordinates lon lat = Inr () \<longleftrightarrow>
     (\<exists>x y. lon = Fin x \<and> lat = Fin y \<and> -180 \<le> x \<and> x \<le> 180 \<and> -90 \<le> y \<and> y \<le> 90)"
  by (cases lon; cases lat) (auto simp: ValidateCoordinates_def IsNaN_def IsInf_def)

lemma ValidateRadius_ok_iff: "ValidateRadius r = Inr () \<longleftrightarrow> (\<exists>x. r = Fin x \<and> 0 < x)"
  by (cases r) (auto simp: ValidateRadius_def IsNaN_def IsInf_def)

lemma ValidateCoordinates_cases:
  obtains (invalid) "ValidateCoordinates lon lat = Inl (Geo ErrInvalidCoordinates)"
  | (valid) x y where "lon = Fin x" "lat = Fin y" "-180 \<le> x" "x \<le> 180" "-90 \<le> y" "y \<le> 90"
      "ValidateCoordinates lon lat = Inr ()"
proof (cases "ValidateCoordinates lon lat = Inr ()")
  case True
  with that(2) show ?thesis using ValidateCoordinates_ok_iff by blast
next
  case False
  then show ?thesis by (intro that(1)) (auto simp: ValidateCoordinates_def split: if_splits)
qed

lemma geo_range_valid: "geo_range x y \<Longrightarrow> ValidateCoordinates (Fin x) (Fin y) = Inr ()"
  by (auto simp: geo_range_def ValidateCoordinates_ok_iff)

end
