(* ===== verification/Driver.thy ===== *)
theory Driver
  imports Geospatial
begin

text \<open>
  Package \<^verbatim>\<open>internal/driver\<close>: the status key of each driver, with its
  time-to-live. A missing key is an offline driver. A status is a string, as
  in the source, so a foreign value in Redis is a status like any other.
\<close>

type_synonym DriverStatus = string

abbreviation StatusAvailable :: DriverStatus where "StatusAvailable \<equiv> ''available''"
abbreviation StatusBusy :: DriverStatus where "StatusBusy \<equiv> ''busy''"
abbreviation StatusOffline :: DriverStatus where "StatusOffline \<equiv> ''offline''"

record DriverService =
  ds_keyPrefix :: string
  ds_defaultTTL :: int

definition NewDriverService :: "string \<Rightarrow> int \<Rightarrow> DriverService" where
  "NewDriverService keyPrefix ttl =
     \<lparr>ds_keyPrefix = (if keyPrefix = [] then ''driver'' else keyPrefix),
      ds_defaultTTL = (if ttl = 0 then 30 * Second else ttl)\<rparr>"

definition statusKey :: "DriverService \<Rightarrow> string \<Rightarrow> string" where
  "statusKey ds driverID = ds_keyPrefix ds @ '':status:'' @ driverID"

definition setBusyScript :: "'db ext \<Rightarrow> string \<Rightarrow> int \<Rightarrow> ('db, rerr + int) state" where
  "setBusyScript X key1 argv1 =
     attempt (rd (r_get X key1)) (\<lambda>current.
       if current = Some ''available'' then
         attempt (r_set X key1 ''busy'' (ExSec argv1)) (\<lambda>_. ok 1)
       else if current = None then ok (-1)
       else ok 0)"

definition SetStatus :: "'db ext \<Rightarrow> DriverService \<Rightarrow> string \<Rightarrow> DriverStatus \<Rightarrow> ('db world, err + unit) state" where
  "SetStatus X ds driverID status =
     (if TrimSpace driverID = [] then fail (Drv ErrDriverNotFound)
      else if status \<noteq> StatusAvailable \<and> status \<noteq> StatusBusy \<and> status \<noteq> StatusOffline
      then fail (Drv ErrInvalidStatus)
      else if status = StatusOffline then
        attempt (call (r_del X (statusKey ds driverID))) (\<lambda>_. ok ())
      else call (r_set X (statusKey ds driverID) status (dur_expiry X (ds_defaultTTL ds))))"

definition GetStatus :: "'db ext \<Rightarrow> DriverService \<Rightarrow> string \<Rightarrow> ('db world, err + DriverStatus) state" where
  "GetStatus X ds driverID =
     (if TrimSpace driverID = [] then fail (Drv ErrDriverNotFound)
      else attempt (call (rd (r_get X (statusKey ds driverID)))) (\<lambda>status.
        case status of None \<Rightarrow> ok StatusOffline | Some s \<Rightarrow> ok s))"

definition Heartbeat :: "'db ext \<Rightarrow> DriverService \<Rightarrow> string \<Rightarrow> ('db world, err + unit) state" where
  "Heartbeat X ds driverID =
     (if TrimSpace driverID = [] then fail (Drv ErrDriverNotFound)
      else attempt (call (r_expire X (statusKey ds driverID) (dur_secs X (ds_defaultTTL ds)))) (\<lambda>refreshed.
        if refreshed = 1 then ok () else fail (Drv ErrDriverOffline)))"

definition IsAvailable :: "'db ext \<Rightarrow> DriverService \<Rightarrow> string \<Rightarrow> ('db world, err + bool) state" where
  "IsAvailable X ds driverID =
     attempt (GetStatus X ds driverID) (\<lambda>status. ok (status = StatusAvailable))"

definition SetBusy :: "'db ext \<Rightarrow> DriverService \<Rightarrow> string \<Rightarrow> ('db world, err + unit) state" where
  "SetBusy X ds driverID =
     attempt (call (setBusyScript X (statusKey ds driverID) (go_div (ds_defaultTTL ds) Second))) (\<lambda>result.
       if result = 1 then ok ()
       else if result = 0 then fail (Drv ErrStatusConflict)
       else if result = -1 then fail (Drv ErrDriverOffline)
       else fail (Drv ErrStatusConflict))"

definition SetAvailable :: "'db ext \<Rightarrow> DriverService \<Rightarrow> string \<Rightarrow> ('db world, err + unit) state" where
  "SetAvailable X ds driverID = SetStatus X ds driverID StatusAvailable"

text \<open>
  The status map of \<^verbatim>\<open>GetStatuses\<close>: every asked driver offline, then each
  value that MGET found.
\<close>

definition status_map :: "string list \<Rightarrow> string option list \<Rightarrow> (string \<rightharpoonup> DriverStatus)" where
  "status_map driverIDs values =
     foldl (\<lambda>m (d, v). case v of None \<Rightarrow> m | Some s \<Rightarrow> m(d \<mapsto> s))
       (foldl (\<lambda>m d. m(d \<mapsto> StatusOffline)) Map.empty driverIDs)
       (zip driverIDs values)"

definition GetStatuses :: "'db ext \<Rightarrow> DriverService \<Rightarrow> string list
    \<Rightarrow> ('db world, err + (string \<rightharpoonup> DriverStatus)) state" where
  "GetStatuses X ds driverIDs =
     (if driverIDs = [] then ok Map.empty
      else attempt (call (rd (r_mget X (map (statusKey ds) driverIDs)))) (\<lambda>values.
        ok (status_map driverIDs values)))"

text \<open>
  \<^verbatim>\<open>scanStatuses\<close>. The visitor's calls are collected, in order, as the list of
  its arguments; a failing page leaves the calls already made. The loop runs
  until the server answers cursor 0, which the types do not promise, so the
  result is an option.
\<close>

definition scanPattern :: "DriverService \<Rightarrow> string" where
  "scanPattern ds = ds_keyPrefix ds @ '':status:*''"

definition TrimPrefix :: "string \<Rightarrow> string \<Rightarrow> string" where
  "TrimPrefix s p = (if prefix p s then drop (length p) s else s)"

definition visits :: "DriverService \<Rightarrow> string list \<Rightarrow> string option list \<Rightarrow> (string \<times> DriverStatus) list" where
  "visits ds keys values =
     concat (map (\<lambda>(k, v). case v of None \<Rightarrow> [] | Some s \<Rightarrow> [(TrimPrefix k (ds_keyPrefix ds @ '':status:''), s)])
       (zip keys values))"

partial_function (option) scan_loop ::
  "'db ext \<Rightarrow> DriverService \<Rightarrow> int \<Rightarrow> (string \<times> DriverStatus) list \<Rightarrow> 'db world
     \<Rightarrow> ((err option \<times> (string \<times> DriverStatus) list) \<times> 'db world) option" where
  "scan_loop X ds cursor acc w =
     (case run_state (call (rd (r_scan X cursor (scanPattern ds) 100))) w of (r, w1) \<Rightarrow>
      (case r of
         Inl e \<Rightarrow> Some ((Some e, acc), w1)
       | Inr (keys, nextCursor) \<Rightarrow>
           (case (if keys = [] then (Inr [], w1) else run_state (call (rd (r_mget X keys))) w1) of (r2, w2) \<Rightarrow>
            (case r2 of
               Inl e \<Rightarrow> Some ((Some e, acc), w2)
             | Inr values \<Rightarrow>
                 (if nextCursor = 0 then Some ((None, acc @ visits ds keys values), w2)
                  else scan_loop X ds nextCursor (acc @ visits ds keys values) w2)))))"

definition scanStatuses :: "'db ext \<Rightarrow> DriverService \<Rightarrow> 'db world
    \<Rightarrow> ((err option \<times> (string \<times> DriverStatus) list) \<times> 'db world) option" where
  "scanStatuses X ds w = scan_loop X ds 0 [] w"

definition GetAvailableDrivers :: "'db ext \<Rightarrow> DriverService \<Rightarrow> 'db world
    \<Rightarrow> ((err + string list) \<times> 'db world) option" where
  "GetAvailableDrivers X ds w =
     map_option (\<lambda>((e, visited), w').
       (case e of Some e \<Rightarrow> Inl e
        | None \<Rightarrow> Inr (map fst (filter (\<lambda>(d, s). s = StatusAvailable) visited)), w')) (scanStatuses X ds w)"

definition GetDriverStats :: "'db ext \<Rightarrow> DriverService \<Rightarrow> 'db world
    \<Rightarrow> ((nat \<times> nat \<times> err option) \<times> 'db world) option" where
  "GetDriverStats X ds w =
     map_option (\<lambda>((e, visited), w').
       ((length visited, length (filter (\<lambda>(d, s). s = StatusAvailable) visited), e), w')) (scanStatuses X ds w)"

end
