(* ===== verification/Lock.thy ===== *)
theory Lock
  imports Driver
begin

text \<open>
  \<^verbatim>\<open>internal/dispatch/lock.go\<close>: the per-driver lock, a Redis key whose value is
  the request that holds it, released and extended by its holder only.
\<close>

record LockManager =
  lm_keyPrefix :: string
  lm_lockTTL :: int

definition NewLockManager :: "string \<Rightarrow> int \<Rightarrow> LockManager" where
  "NewLockManager keyPrefix lockTTL =
     \<lparr>lm_keyPrefix = (if keyPrefix = [] then ''dispatch:lock'' else keyPrefix),
      lm_lockTTL = (if lockTTL = 0 then 10 * Second else lockTTL)\<rparr>"

definition lockKey :: "LockManager \<Rightarrow> string \<Rightarrow> string" where
  "lockKey lm driverID = sprintf_key (lm_keyPrefix lm) driverID"

definition unlockScript :: "'db ext \<Rightarrow> string \<Rightarrow> string \<Rightarrow> ('db, rerr + int) state" where
  "unlockScript X key1 argv1 =
     attempt (rd (r_get X key1)) (\<lambda>owner.
       if owner = Some argv1 then r_del X key1
       else if owner = None then ok (-1)
       else ok 0)"

definition extendLockScript :: "'db ext \<Rightarrow> string \<Rightarrow> string \<Rightarrow> int \<Rightarrow> ('db, rerr + int) state" where
  "extendLockScript X key1 argv1 argv2 =
     attempt (rd (r_get X key1)) (\<lambda>owner.
       if owner = Some argv1 then r_expire X key1 argv2 else ok 0)"

definition TryLock :: "'db ext \<Rightarrow> LockManager \<Rightarrow> string \<Rightarrow> string \<Rightarrow> ('db world, err + bool) state" where
  "TryLock X lm driverID requestID =
     call (r_setnx X (lockKey lm driverID) requestID (dur_expiry X (lm_lockTTL lm)))"

definition Unlock :: "'db ext \<Rightarrow> LockManager \<Rightarrow> string \<Rightarrow> string \<Rightarrow> ('db world, err + unit) state" where
  "Unlock X lm driverID requestID =
     attempt (call (unlockScript X (lockKey lm driverID) requestID)) (\<lambda>result.
       if result = 1 then ok ()
       else if result = -1 then fail (Lck ErrLockExpired)
       else fail (Lck ErrLockNotHeld))"

definition ExtendLock :: "'db ext \<Rightarrow> LockManager \<Rightarrow> string \<Rightarrow> string \<Rightarrow> ('db world, err + unit) state" where
  "ExtendLock X lm driverID requestID =
     attempt (call (extendLockScript X (lockKey lm driverID) requestID (go_div (lm_lockTTL lm) Second))) (\<lambda>result.
       if result = 0 then fail (Lck ErrLockNotHeld) else ok ())"

definition IsLocked :: "'db ext \<Rightarrow> LockManager \<Rightarrow> string \<Rightarrow> ('db world, err + bool) state" where
  "IsLocked X lm driverID =
     attempt (call (rd (r_exists X (lockKey lm driverID)))) (\<lambda>exists. ok (exists > 0))"

end
