(* ===== verification/Lifecycle.thy ===== *)
theory Lifecycle
  imports Lock
begin

text \<open>
  \<^verbatim>\<open>internal/dispatch/lifecycle.go\<close>: the assignment record of a request, the
  two ownership keys that link a rider and a driver to it, and the Lua
  scripts that change them atomically. Each script is a definition over the
  server's commands with its \<^verbatim>\<open>KEYS\<close> and \<^verbatim>\<open>ARGV\<close> as arguments; each method
  of the manager is the round trips it makes.
\<close>

type_synonym AssignmentStatus = string

abbreviation AssignmentEnRoute :: AssignmentStatus where "AssignmentEnRoute \<equiv> ''en_route''"
abbreviation AssignmentArrived :: AssignmentStatus where "AssignmentArrived \<equiv> ''arrived''"
abbreviation AssignmentCancelled :: AssignmentStatus where "AssignmentCancelled \<equiv> ''cancelled''"

record LifecycleConfig =
  cfg_AssignmentPrefix :: string
  cfg_RiderActivePrefix :: string
  cfg_DriverActivePrefix :: string
  cfg_DriverStatusPrefix :: string
  cfg_AssignmentTTL :: int
  cfg_DriverStatusTTL :: int
  cfg_ArrivalThresholdKm :: float64

definition zeroLifecycleConfig :: LifecycleConfig where
  "zeroLifecycleConfig = \<lparr>cfg_AssignmentPrefix = [], cfg_RiderActivePrefix = [], cfg_DriverActivePrefix = [],
     cfg_DriverStatusPrefix = [], cfg_AssignmentTTL = 0, cfg_DriverStatusTTL = 0,
     cfg_ArrivalThresholdKm = Fin 0\<rparr>"

record Assignment =
  a_RequestID :: string
  a_RiderID :: string
  a_DriverID :: string
  a_PickupLongitude :: float64
  a_PickupLatitude :: float64
  a_Status :: AssignmentStatus

record lifecycleManager =
  lc_lockManager :: LockManager
  lc_assignmentPrefix :: string
  lc_riderActivePrefix :: string
  lc_driverActivePrefix :: string
  lc_driverStatusPrefix :: string
  lc_assignmentTTL :: int
  lc_driverStatusTTL :: int
  lc_arrivalThresholdKm :: float64

definition newLifecycleManager :: "LockManager \<Rightarrow> LifecycleConfig \<Rightarrow> lifecycleManager" where
  "newLifecycleManager lockManager config =
     \<lparr>lc_lockManager = lockManager,
      lc_assignmentPrefix =
        (if cfg_AssignmentPrefix config = [] then ''dispatch:assignment'' else cfg_AssignmentPrefix config),
      lc_riderActivePrefix =
        (if cfg_RiderActivePrefix config = [] then ''dispatch:rider-active'' else cfg_RiderActivePrefix config),
      lc_driverActivePrefix =
        (if cfg_DriverActivePrefix config = [] then ''dispatch:driver-active'' else cfg_DriverActivePrefix config),
      lc_driverStatusPrefix =
        (if cfg_DriverStatusPrefix config = [] then ''driver:status'' else cfg_DriverStatusPrefix config),
      lc_assignmentTTL =
        (if cfg_AssignmentTTL config \<le> 0 then 24 * 3600 * Second else cfg_AssignmentTTL config),
      lc_driverStatusTTL =
        (if cfg_DriverStatusTTL config \<le> 0 then 30 * Second else cfg_DriverStatusTTL config),
      lc_arrivalThresholdKm =
        (if cfg_ArrivalThresholdKm config \<le> Fin 0 then Fin (5 / 100)
         else cfg_ArrivalThresholdKm config)\<rparr>"

definition assignmentKey :: "lifecycleManager \<Rightarrow> string \<Rightarrow> string" where
  "assignmentKey m requestID = sprintf_key (lc_assignmentPrefix m) requestID"

definition activeRiderKey :: "lifecycleManager \<Rightarrow> string \<Rightarrow> string" where
  "activeRiderKey m riderID = sprintf_key (lc_riderActivePrefix m) riderID"

definition driverStatusKey :: "lifecycleManager \<Rightarrow> string \<Rightarrow> string" where
  "driverStatusKey m driverID = sprintf_key (lc_driverStatusPrefix m) driverID"

definition activeDriverKey :: "lifecycleManager \<Rightarrow> string \<Rightarrow> string" where
  "activeDriverKey m driverID = sprintf_key (lc_driverActivePrefix m) driverID"

section \<open>The scripts\<close>

text \<open>The \<^verbatim>\<open>KEYS\<close> and the string \<^verbatim>\<open>ARGV\<close> of a script.\<close>

type_synonym script_key = string
type_synonym script_arg = string

definition createAssignmentScript ::
  "'db ext \<Rightarrow> script_key \<Rightarrow> script_key \<Rightarrow> script_key \<Rightarrow> script_arg \<Rightarrow> script_arg \<Rightarrow> script_arg \<Rightarrow> script_arg \<Rightarrow> script_arg \<Rightarrow> script_arg \<Rightarrow> int
     \<Rightarrow> ('db, rerr + int) state" where
  "createAssignmentScript X key1 key2 key3 argv1 argv2 argv3 argv4 argv5 argv6 argv7 =
     attempt (rd (r_get X key2)) (\<lambda>active_request.
     attempt (case active_request of
                None \<Rightarrow> ok None
              | Some r \<Rightarrow> rd (r_hget X (argv1 @ '':'' @ r) ''status'')) (\<lambda>active_status.
     if active_request \<noteq> None \<and> (active_status = Some ''en_route'' \<or> active_status = Some ''arrived'')
     then ok 0
     else
     attempt (rd (r_exists X key1)) (\<lambda>present.
     if present = 1 then ok (-1)
     else
     attempt (rd (r_get X key3)) (\<lambda>driver_owner.
     if driver_owner \<noteq> None \<and> driver_owner \<noteq> Some argv2 then ok (-2)
     else
     attempt (r_hset X key1
       [(''request_id'', argv2), (''rider_id'', argv3), (''driver_id'', argv4),
        (''pickup_longitude'', argv5), (''pickup_latitude'', argv6), (''status'', ''en_route'')]) (\<lambda>_.
     attempt (r_expire X key1 argv7) (\<lambda>_.
     attempt (r_set X key2 argv2 (ExSec argv7)) (\<lambda>_.
     attempt (r_set X key3 argv2 (ExSec argv7)) (\<lambda>_.
     ok 1))))))))"

definition cancelAssignmentScript ::
  "'db ext \<Rightarrow> script_key \<Rightarrow> script_key \<Rightarrow> script_key \<Rightarrow> script_key \<Rightarrow> script_key \<Rightarrow> script_arg \<Rightarrow> script_arg \<Rightarrow> script_arg \<Rightarrow> int \<Rightarrow> int
     \<Rightarrow> ('db, rerr + int) state" where
  "cancelAssignmentScript X key1 key2 key3 key4 key5 argv1 argv2 argv3 argv4 argv5 =
     attempt (rd (r_exists X key1)) (\<lambda>present.
     if present = 0 then ok (-1)
     else
     attempt (rd (r_hget X key1 ''status'')) (\<lambda>status.
     if status \<noteq> Some ''en_route'' then ok 0
     else
     attempt (rd (r_hget X key1 ''driver_id'')) (\<lambda>driver_id.
     attempt (if driver_id \<noteq> Some argv2 then ok True
              else attempt (rd (r_hget X key1 ''rider_id'')) (\<lambda>rider_id. ok (rider_id \<noteq> Some argv3))) (\<lambda>changed.
     if changed then ok (-2)
     else
     attempt (rd (r_get X key5)) (\<lambda>driver_owner.
     if driver_owner \<noteq> Some argv1 then ok (-3)
     else
     attempt (rd (r_get X key3)) (\<lambda>lock_owner.
     if lock_owner \<noteq> None \<and> lock_owner \<noteq> Some argv1 then ok (-4)
     else
     attempt (rd (r_get X key2)) (\<lambda>driver_status.
     attempt (if driver_status = Some ''busy'' then r_set X key2 ''available'' (ExSec argv4) else ok ()) (\<lambda>_.
     attempt (r_hset X key1 [(''status'', ''cancelled'')]) (\<lambda>_.
     attempt (r_expire X key1 argv5) (\<lambda>_.
     attempt (if lock_owner = Some argv1 then r_del X key3 else ok 0) (\<lambda>_.
     attempt (rd (r_get X key4)) (\<lambda>rider_request.
     attempt (if rider_request = Some argv1 then r_del X key4 else ok 0) (\<lambda>_.
     attempt (r_del X key5) (\<lambda>_.
     ok 1))))))))))))))"

definition arriveAssignmentScript ::
  "'db ext \<Rightarrow> script_key \<Rightarrow> script_key \<Rightarrow> script_key \<Rightarrow> script_key \<Rightarrow> script_arg \<Rightarrow> int \<Rightarrow> int \<Rightarrow> ('db, rerr + int) state" where
  "arriveAssignmentScript X key1 key2 key3 key4 argv1 argv2 argv3 =
     attempt (rd (r_exists X key1)) (\<lambda>present.
     if present = 0 then ok (-1)
     else
     attempt (rd (r_hget X key1 ''status'')) (\<lambda>status.
     if status \<noteq> Some ''en_route'' then ok 0
     else
     attempt (rd (r_get X key2)) (\<lambda>rider_request.
     attempt (if rider_request \<noteq> Some argv1 then ok True
              else attempt (rd (r_get X key3)) (\<lambda>driver_owner.
                   if driver_owner \<noteq> Some argv1 then ok True
                   else attempt (rd (r_get X key4)) (\<lambda>driver_status. ok (driver_status \<noteq> Some ''busy'')))) (\<lambda>conflict.
     if conflict then ok (-2)
     else
     attempt (r_hset X key1 [(''status'', ''arrived'')]) (\<lambda>_.
     attempt (r_expire X key1 argv2) (\<lambda>_.
     attempt (r_expire X key2 argv2) (\<lambda>_.
     attempt (r_expire X key3 argv2) (\<lambda>_.
     attempt (r_expire X key4 argv3) (\<lambda>_.
     ok 1)))))))))"

definition refreshActiveDriverScript ::
  "'db ext \<Rightarrow> script_key \<Rightarrow> script_key \<Rightarrow> script_arg \<Rightarrow> script_arg \<Rightarrow> int \<Rightarrow> ('db, rerr + int) state" where
  "refreshActiveDriverScript X key1 key2 argv1 argv2 argv3 =
     attempt (rd (r_get X key1)) (\<lambda>owner.
     case owner of
       None \<Rightarrow> ok 0
     | Some request_id \<Rightarrow>
         attempt (rd (r_hget X (argv1 @ '':'' @ request_id) ''driver_id'')) (\<lambda>driver_id.
         if driver_id \<noteq> Some argv2 then ok 0
         else
         attempt (rd (r_hget X (argv1 @ '':'' @ request_id) ''status'')) (\<lambda>status.
         if status \<noteq> Some ''en_route'' \<and> status \<noteq> Some ''arrived'' then ok 0
         else attempt (r_set X key2 ''busy'' (ExSec argv3)) (\<lambda>_. ok 1))))"

definition clearActiveAssignmentScript :: "'db ext \<Rightarrow> script_key \<Rightarrow> script_arg \<Rightarrow> ('db, rerr + int) state" where
  "clearActiveAssignmentScript X key1 argv1 =
     attempt (rd (r_get X key1)) (\<lambda>owner. if owner = Some argv1 then r_del X key1 else ok 0)"

definition clearResetAssignmentScript :: "'db ext \<Rightarrow> script_key \<Rightarrow> script_key \<Rightarrow> script_arg \<Rightarrow> ('db, rerr + int) state" where
  "clearResetAssignmentScript X key1 key2 argv1 =
     attempt (rd (r_get X key1)) (\<lambda>rider_request.
     attempt (if rider_request = Some argv1 then r_del X key1 else ok 0) (\<lambda>_.
     attempt (rd (r_get X key2)) (\<lambda>driver_owner.
     attempt (if driver_owner = Some argv1 then r_del X key2 else ok 0) (\<lambda>_.
     ok 1))))"

section \<open>The scripts with the manager's keys and arguments\<close>

definition create_eval :: "'db ext \<Rightarrow> lifecycleManager \<Rightarrow> Assignment \<Rightarrow> ('db, rerr + int) state" where
  "create_eval X m a =
     createAssignmentScript X
       (assignmentKey m (a_RequestID a)) (activeRiderKey m (a_RiderID a)) (activeDriverKey m (a_DriverID a))
       (lc_assignmentPrefix m) (a_RequestID a) (a_RiderID a) (a_DriverID a)
       (FormatFloat X (a_PickupLongitude a)) (FormatFloat X (a_PickupLatitude a))
       (go_div (lc_assignmentTTL m) Second)"

definition cancel_eval :: "'db ext \<Rightarrow> lifecycleManager \<Rightarrow> string \<Rightarrow> Assignment \<Rightarrow> ('db, rerr + int) state" where
  "cancel_eval X m requestID a =
     cancelAssignmentScript X
       (assignmentKey m requestID) (driverStatusKey m (a_DriverID a)) (lockKey (lc_lockManager m) (a_DriverID a))
       (activeRiderKey m (a_RiderID a)) (activeDriverKey m (a_DriverID a))
       requestID (a_DriverID a) (a_RiderID a)
       (go_div (lc_driverStatusTTL m) Second) (go_div (lc_assignmentTTL m) Second)"

definition arrive_eval :: "'db ext \<Rightarrow> lifecycleManager \<Rightarrow> Assignment \<Rightarrow> ('db, rerr + int) state" where
  "arrive_eval X m a =
     arriveAssignmentScript X
       (assignmentKey m (a_RequestID a)) (activeRiderKey m (a_RiderID a)) (activeDriverKey m (a_DriverID a))
       (driverStatusKey m (a_DriverID a))
       (a_RequestID a) (go_div (lc_assignmentTTL m) Second) (go_div (lc_driverStatusTTL m) Second)"

definition refresh_eval :: "'db ext \<Rightarrow> lifecycleManager \<Rightarrow> string \<Rightarrow> ('db, rerr + int) state" where
  "refresh_eval X m driverID =
     refreshActiveDriverScript X (activeDriverKey m driverID) (driverStatusKey m driverID)
       (lc_assignmentPrefix m) driverID (go_div (lc_driverStatusTTL m) Second)"

definition clear_active_eval :: "'db ext \<Rightarrow> lifecycleManager \<Rightarrow> string \<Rightarrow> string \<Rightarrow> ('db, rerr + int) state" where
  "clear_active_eval X m riderID requestID =
     clearActiveAssignmentScript X (activeRiderKey m riderID) requestID"

definition clear_reset_eval :: "'db ext \<Rightarrow> lifecycleManager \<Rightarrow> string \<Rightarrow> string \<Rightarrow> string \<Rightarrow> ('db, rerr + int) state" where
  "clear_reset_eval X m riderID driverID requestID =
     clearResetAssignmentScript X (activeRiderKey m riderID) (activeDriverKey m driverID) requestID"

section \<open>The manager's methods\<close>

definition driverOwner :: "'db ext \<Rightarrow> lifecycleManager \<Rightarrow> string \<Rightarrow> ('db world, err + string) state" where
  "driverOwner X m driverID =
     attempt (call (rd (r_get X (activeDriverKey m driverID)))) (\<lambda>requestID.
       case requestID of None \<Rightarrow> ok [] | Some r \<Rightarrow> ok r)"

definition refreshActiveDriver :: "'db ext \<Rightarrow> lifecycleManager \<Rightarrow> string \<Rightarrow> ('db world, err + bool) state" where
  "refreshActiveDriver X m driverID =
     attempt (call (refresh_eval X m driverID)) (\<lambda>result. ok (result = 1))"

definition lc_create :: "'db ext \<Rightarrow> lifecycleManager \<Rightarrow> Assignment \<Rightarrow> ('db world, err + unit) state" where
  "lc_create X m assignment =
     attempt (call (create_eval X m assignment)) (\<lambda>result.
       if result = 1 then ok ()
       else if result = 0 then fail (Lif ErrActiveAssignment)
       else if result = -1 then fail (Lif ErrRequestAlreadyExists)
       else if result = -2 then fail (Lif ErrDriverOwnershipConflict)
       else fail (Plain ''unexpected assignment create result''))"

text \<open>A missing field of a hash reads as the empty string, as from Go's map.\<close>

definition hash_field :: "(string \<times> string) list \<Rightarrow> string \<Rightarrow> string" where
  "hash_field values f = (case map_of values f of None \<Rightarrow> [] | Some v \<Rightarrow> v)"

definition lc_get :: "'db ext \<Rightarrow> lifecycleManager \<Rightarrow> string \<Rightarrow> ('db world, err + Assignment) state" where
  "lc_get X m requestID =
     attempt (call (rd (r_hgetall X (assignmentKey m requestID)))) (\<lambda>values.
       if values = [] then fail (Lif ErrAssignmentNotFound)
       else case ParseFloat X (hash_field values ''pickup_longitude'') of
           None \<Rightarrow> fail (Plain ''invalid assignment pickup longitude'')
         | Some lon \<Rightarrow>
             (case ParseFloat X (hash_field values ''pickup_latitude'') of
                None \<Rightarrow> fail (Plain ''invalid assignment pickup latitude'')
              | Some lat \<Rightarrow>
                  ok \<lparr>a_RequestID = hash_field values ''request_id'',
                      a_RiderID = hash_field values ''rider_id'',
                      a_DriverID = hash_field values ''driver_id'',
                      a_PickupLongitude = lon, a_PickupLatitude = lat,
                      a_Status = hash_field values ''status''\<rparr>))"

definition lc_active :: "'db ext \<Rightarrow> lifecycleManager \<Rightarrow> string \<Rightarrow> ('db world, err + Assignment option) state" where
  "lc_active X m riderID =
     attempt (call (rd (r_get X (activeRiderKey m riderID)))) (\<lambda>requestID.
       case requestID of
         None \<Rightarrow> ok None
       | Some r \<Rightarrow> do {
           res \<leftarrow> lc_get X m r;
           (case res of
              Inl e \<Rightarrow> if e = Lif ErrAssignmentNotFound then ok None else fail e
            | Inr assignment \<Rightarrow>
                if a_Status assignment \<noteq> AssignmentEnRoute \<and> a_Status assignment \<noteq> AssignmentArrived
                then ok None else ok (Some assignment)) })"

definition lc_cancel :: "'db ext \<Rightarrow> lifecycleManager \<Rightarrow> string \<Rightarrow> ('db world, err + Assignment) state" where
  "lc_cancel X m requestID =
     attempt (lc_get X m requestID) (\<lambda>assignment.
       if a_Status assignment \<noteq> AssignmentEnRoute then fail (Lif ErrAssignmentStateConflict)
       else attempt (call (cancel_eval X m requestID assignment)) (\<lambda>result.
         if result = 1 then ok (assignment\<lparr>a_Status := AssignmentCancelled\<rparr>)
         else if result = 0 then fail (Lif ErrAssignmentStateConflict)
         else if result = -1 then fail (Lif ErrAssignmentNotFound)
         else if result = -2 then fail (Lif ErrAssignmentStateConflict)
         else if result = -3 \<or> result = -4 then fail (Lif ErrDriverOwnershipConflict)
         else fail (Plain ''assignment changed while cancelling'')))"

definition lc_arrive :: "'db ext \<Rightarrow> lifecycleManager \<Rightarrow> Assignment \<Rightarrow> ('db world, err + Assignment) state" where
  "lc_arrive X m assignment =
     attempt (call (arrive_eval X m assignment)) (\<lambda>result.
       if result = 1 then ok (assignment\<lparr>a_Status := AssignmentArrived\<rparr>)
       else if result = 0 then fail (Lif ErrAssignmentStateConflict)
       else if result = -1 then fail (Lif ErrAssignmentNotFound)
       else if result = -2 then fail (Lif ErrAssignmentStateConflict)
       else fail (Plain ''unexpected assignment arrival result''))"

definition clearActive :: "'db ext \<Rightarrow> lifecycleManager \<Rightarrow> string \<Rightarrow> string \<Rightarrow> ('db world, err + unit) state" where
  "clearActive X m riderID requestID =
     attempt (call (clear_active_eval X m riderID requestID)) (\<lambda>_. ok ())"

definition resetRider :: "'db ext \<Rightarrow> lifecycleManager \<Rightarrow> string \<Rightarrow> ('db world, err + unit) state" where
  "resetRider X m riderID =
     attempt (call (rd (r_get X (activeRiderKey m riderID)))) (\<lambda>requestID.
       case requestID of
         None \<Rightarrow> ok ()
       | Some r \<Rightarrow> do {
           res \<leftarrow> lc_get X m r;
           (case res of
              Inl e \<Rightarrow> if e = Lif ErrAssignmentNotFound then clearActive X m riderID r else fail e
            | Inr assignment \<Rightarrow> do {
                stop \<leftarrow> (if a_Status assignment = AssignmentEnRoute then do {
                    res2 \<leftarrow> lc_cancel X m r;
                    State_Monad.return (case res2 of
                      Inr _ \<Rightarrow> Some (Inr ())
                    | Inl e \<Rightarrow> if e \<noteq> Lif ErrAssignmentStateConflict then Some (Inl e) else None)
                  } else State_Monad.return None);
                (case stop of
                   Some out \<Rightarrow> State_Monad.return out
                 | None \<Rightarrow>
                     attempt (call (clear_reset_eval X m riderID (a_DriverID assignment) r)) (\<lambda>_. ok ())) }) })"

section \<open>Validation and distance\<close>

definition validateLifecycleID :: "string \<Rightarrow> err + unit" where
  "validateLifecycleID value = (if TrimSpace value = [] then Inl (Plain ''id is required'') else Inr ())"

definition validatePickup :: "Assignment \<Rightarrow> err + unit" where
  "validatePickup a = ValidateCoordinates (a_PickupLongitude a) (a_PickupLatitude a)"

text \<open>\<^verbatim>\<open>math.Atan2\<close>, over the reals.\<close>

definition Atan2 :: "real \<Rightarrow> real \<Rightarrow> real" where
  "Atan2 y x = (if x > 0 then arctan (y / x)
     else if x = 0 then (if y > 0 then pi / 2 else if y < 0 then - pi / 2 else 0)
     else if y \<ge> 0 then arctan (y / x) + pi else arctan (y / x) - pi)"

definition toRadians :: "real \<Rightarrow> real" where
  "toRadians degrees = degrees * pi / 180"

text \<open>The haversine term \<^verbatim>\<open>a\<close> of \<^verbatim>\<open>distanceKm\<close>.\<close>

definition haversine :: "real \<Rightarrow> real \<Rightarrow> real \<Rightarrow> real \<Rightarrow> real" where
  "haversine lon1 lat1 lon2 lat2 =
     (let lat1Rad = toRadians lat1; lat2Rad = toRadians lat2;
          dLat = lat2Rad - lat1Rad; dLon = toRadians (lon2 - lon1)
      in sin (dLat / 2) * sin (dLat / 2) + cos lat1Rad * cos lat2Rad * sin (dLon / 2) * sin (dLon / 2))"

definition earthRadiusKm :: real where
  "earthRadiusKm = 63710088 / 10000"

definition distanceKm :: "real \<Rightarrow> real \<Rightarrow> real \<Rightarrow> real \<Rightarrow> real" where
  "distanceKm lon1 lat1 lon2 lat2 =
     (let a = haversine lon1 lat1 lon2 lat2 in earthRadiusKm * 2 * Atan2 (sqrt a) (sqrt (1 - a)))"

text \<open>
  The arrival check \<^verbatim>\<open>distance > threshold\<close> on floats: a coordinate that is
  not finite makes the distance NaN, and then the comparison is false.
\<close>

definition too_far :: "float64 \<Rightarrow> float64 \<Rightarrow> float64 \<Rightarrow> float64 \<Rightarrow> float64 \<Rightarrow> bool" where
  "too_far lon1 lat1 lon2 lat2 threshold =
     (case (lon1, lat1, lon2, lat2) of
        (Fin x1, Fin y1, Fin x2, Fin y2) \<Rightarrow>
          (case threshold of
             Fin t \<Rightarrow> distanceKm (of_rat x1) (of_rat y1) (of_rat x2) (of_rat y2) > of_rat t
           | PosInf \<Rightarrow> False | NegInf \<Rightarrow> True | NaN \<Rightarrow> False)
      | _ \<Rightarrow> False)"

end
