(* ===== verification/Dispatcher.thy ===== *)
theory Dispatcher
  imports Lifecycle
begin

text \<open>
  \<^verbatim>\<open>internal/dispatch/dispatcher.go\<close>: the search for the nearest available
  driver and the three-stage claim of one driver (lock, busy status,
  assignment record), with the rollback of each stage; cancellation,
  arrival, location updates.
\<close>

record DispatchResult =
  res_Success :: bool
  res_DriverID :: string
  res_RequestID :: string
  res_Distance :: float64
  res_Status :: AssignmentStatus
  res_Error :: string
  res_Cause :: "err option"

record Dispatcher =
  d_geoService :: GeoService
  d_driverService :: DriverService
  d_lockManager :: LockManager
  d_lifecycle :: lifecycleManager

definition NewDispatcher :: "GeoService \<Rightarrow> DriverService \<Rightarrow> LockManager \<Rightarrow> LifecycleConfig list \<Rightarrow> Dispatcher" where
  "NewDispatcher geoService driverService lockManager lifecycleConfig =
     (let config = (case lifecycleConfig of [] \<Rightarrow> zeroLifecycleConfig | c # _ \<Rightarrow> c)
      in \<lparr>d_geoService = geoService, d_driverService = driverService, d_lockManager = lockManager,
          d_lifecycle = newLifecycleManager lockManager config\<rparr>)"

record DispatchRequest =
  req_RequestID :: string
  req_RiderID :: string
  req_Longitude :: float64
  req_Latitude :: float64
  req_PickupLongitude :: "float64 option"
  req_PickupLatitude :: "float64 option"
  req_RadiusKm :: float64

text \<open>The zero value of \<^verbatim>\<open>DispatchResult\<close> with a request ID, and a failed result with an error.\<close>

definition no_result :: "string \<Rightarrow> DispatchResult" where
  "no_result requestID = \<lparr>res_Success = False, res_DriverID = [], res_RequestID = requestID,
     res_Distance = Fin 0, res_Status = [], res_Error = [], res_Cause = None\<rparr>"

definition failed :: "string \<Rightarrow> err \<Rightarrow> DispatchResult" where
  "failed requestID e = (no_result requestID)\<lparr>res_Error := Error e\<rparr>"

definition failed_cause :: "string \<Rightarrow> err \<Rightarrow> DispatchResult" where
  "failed_cause requestID e = (no_result requestID)\<lparr>res_Error := Error e, res_Cause := Some e\<rparr>"

definition ReleaseDriver :: "'db ext \<Rightarrow> Dispatcher \<Rightarrow> string \<Rightarrow> string \<Rightarrow> ('db world, err + unit) state" where
  "ReleaseDriver X d driverID requestID = do {
     res \<leftarrow> Unlock X (d_lockManager d) driverID requestID;
     (case res of
        Inl e \<Rightarrow> if e \<noteq> Lck ErrLockExpired then fail e
                 else SetAvailable X (d_driverService d) driverID
      | Inr _ \<Rightarrow> SetAvailable X (d_driverService d) driverID)
   }"

text \<open>The assignment \<^verbatim>\<open>tryAssignDriver\<close> builds for a request with a rider.\<close>

definition new_assignment :: "DispatchRequest \<Rightarrow> string \<Rightarrow> Assignment" where
  "new_assignment req driverID =
     (let (lon, lat) = (case (req_PickupLongitude req, req_PickupLatitude req) of
          (Some x, Some y) \<Rightarrow> (x, y) | _ \<Rightarrow> (req_Longitude req, req_Latitude req))
      in \<lparr>a_RequestID = req_RequestID req, a_RiderID = req_RiderID req, a_DriverID = driverID,
          a_PickupLongitude = lon, a_PickupLatitude = lat, a_Status = AssignmentEnRoute\<rparr>)"

text \<open>
  The last steps of \<^verbatim>\<open>tryAssignDriver\<close>, for a request with a rider: record the
  assignment, or give the driver back. \<open>Inr None\<close> is success, \<open>Inr (Some r)\<close>
  and \<open>Inl e\<close> are the early returns. \<open>undo_claim\<close> is the branch of an error of
  the creation.
\<close>

definition undo_claim :: "'db ext \<Rightarrow> Dispatcher \<Rightarrow> string \<Rightarrow> string \<Rightarrow> err
    \<Rightarrow> ('db world, err + DispatchResult option) state" where
  "undo_claim X d driverID rid e =
     (if e = Lif ErrDriverOwnershipConflict then do {
        _ \<leftarrow> Unlock X (d_lockManager d) driverID rid;
        attempt (refreshActiveDriver X (d_lifecycle d) driverID) (\<lambda>active. do {
          _ \<leftarrow> (if active then ok () else SetAvailable X (d_driverService d) driverID);
          ok (Some (no_result rid)) })
      }
      else do { _ \<leftarrow> ReleaseDriver X d driverID rid; fail e })"

definition record_assignment :: "'db ext \<Rightarrow> Dispatcher \<Rightarrow> DispatchRequest \<Rightarrow> string
    \<Rightarrow> ('db world, err + DispatchResult option) state" where
  "record_assignment X d req driverID =
     (let assignment = new_assignment req driverID; rid = req_RequestID req in
      case validatePickup assignment of
        Inl e \<Rightarrow> do { _ \<leftarrow> ReleaseDriver X d driverID rid; fail e }
      | Inr _ \<Rightarrow> do {
          res \<leftarrow> lc_create X (d_lifecycle d) assignment;
          (case res of Inr _ \<Rightarrow> ok None | Inl e \<Rightarrow> undo_claim X d driverID rid e) })"

definition matched :: "DispatchRequest \<Rightarrow> Location \<Rightarrow> DispatchResult" where
  "matched req loc = \<lparr>res_Success = True, res_DriverID = loc_ID loc, res_RequestID = req_RequestID req,
     res_Distance = loc_DistanceKm loc, res_Status = (if req_RiderID req \<noteq> [] then AssignmentEnRoute else []),
     res_Error = [], res_Cause = None\<rparr>"

definition finish_assignment :: "'db ext \<Rightarrow> Dispatcher \<Rightarrow> DispatchRequest \<Rightarrow> Location
    \<Rightarrow> ('db world, err + DispatchResult) state" where
  "finish_assignment X d req loc =
     attempt (if req_RiderID req \<noteq> [] then record_assignment X d req (loc_ID loc) else ok None) (\<lambda>early.
       case early of Some r \<Rightarrow> ok r | None \<Rightarrow> ok (matched req loc))"

text \<open>Its step 2: make the driver busy, or unlock him again.\<close>

definition claim_driver :: "'db ext \<Rightarrow> Dispatcher \<Rightarrow> DispatchRequest \<Rightarrow> Location
    \<Rightarrow> ('db world, err + DispatchResult) state" where
  "claim_driver X d req loc = do {
     busy \<leftarrow> SetBusy X (d_driverService d) (loc_ID loc);
     (case busy of
        Inl e \<Rightarrow> do {
          _ \<leftarrow> Unlock X (d_lockManager d) (loc_ID loc) (req_RequestID req);
          (if e = Drv ErrStatusConflict \<or> e = Drv ErrDriverOffline then ok (no_result (req_RequestID req)) else fail e) }
      | Inr _ \<Rightarrow> finish_assignment X d req loc)
   }"

definition tryAssignDriver :: "'db ext \<Rightarrow> Dispatcher \<Rightarrow> DispatchRequest \<Rightarrow> Location
    \<Rightarrow> ('db world, err + DispatchResult) state" where
  "tryAssignDriver X d req loc =
     (let driverID = loc_ID loc; rid = req_RequestID req in
      attempt (TryLock X (d_lockManager d) driverID rid) (\<lambda>locked.
      if \<not> locked then ok (no_result rid)
      else do {
        owner \<leftarrow> driverOwner X (d_lifecycle d) driverID;
        (case owner of
           Inl e \<Rightarrow> do { _ \<leftarrow> Unlock X (d_lockManager d) driverID rid; fail e }
         | Inr own \<Rightarrow>
             if own \<noteq> [] then do { _ \<leftarrow> Unlock X (d_lockManager d) driverID rid; ok (no_result rid) }
             else claim_driver X d req loc) }))"

text \<open>The loop over the candidates, nearest first.\<close>

fun assign_first :: "'db ext \<Rightarrow> Dispatcher \<Rightarrow> DispatchRequest \<Rightarrow> (string \<rightharpoonup> DriverStatus) \<Rightarrow> Location list
    \<Rightarrow> ('db world, DispatchResult) state" where
  "assign_first X d req statuses [] =
     State_Monad.return (failed (req_RequestID req) (Lck ErrNoDriversAvailable))"
| "assign_first X d req statuses (loc # locs) =
     (if statuses (loc_ID loc) \<noteq> Some StatusAvailable then assign_first X d req statuses locs
      else do {
        res \<leftarrow> tryAssignDriver X d req loc;
        (case res of
           Inl e \<Rightarrow> State_Monad.return (failed_cause (req_RequestID req) e)
         | Inr r \<Rightarrow> if res_Success r then State_Monad.return r else assign_first X d req statuses locs) })"

text \<open>The defaults a request gets: a fresh ID and a radius of 5 km.\<close>

definition with_defaults :: "string \<Rightarrow> DispatchRequest \<Rightarrow> DispatchRequest" where
  "with_defaults uuid req =
     (let req1 = (if req_RequestID req = [] then req\<lparr>req_RequestID := uuid\<rparr> else req)
      in if f_eq (req_RadiusKm req1) (Fin 0) then req1\<lparr>req_RadiusKm := Fin 5\<rparr> else req1)"

definition assign_nearby :: "'db ext \<Rightarrow> Dispatcher \<Rightarrow> DispatchRequest \<Rightarrow> Location list
    \<Rightarrow> ('db world, DispatchResult) state" where
  "assign_nearby X d req nearby =
     (let rid = req_RequestID req in
      if nearby = [] then State_Monad.return (failed rid (Lck ErrNoDriversAvailable))
      else do {
        sts \<leftarrow> GetStatuses X (d_driverService d) (map loc_ID nearby);
        (case sts of
           Inl e \<Rightarrow> State_Monad.return (failed rid e)
         | Inr statuses \<Rightarrow> assign_first X d req statuses nearby) })"

definition FindAndAssign :: "'db ext \<Rightarrow> Dispatcher \<Rightarrow> string \<Rightarrow> DispatchRequest
    \<Rightarrow> ('db world, DispatchResult) state" where
  "FindAndAssign X d uuid req0 =
     (let req = with_defaults uuid req0; rid = req_RequestID req in do {
        active \<leftarrow> (if req_RiderID req \<noteq> [] then lc_active X (d_lifecycle d) (req_RiderID req) else ok None);
        (case active of
           Inl e \<Rightarrow> State_Monad.return (failed_cause rid e)
         | Inr (Some _) \<Rightarrow> State_Monad.return (failed_cause rid (Lif ErrActiveAssignment))
         | Inr None \<Rightarrow> do {
             found \<leftarrow> FindNearby X (d_geoService d) (req_Longitude req) (req_Latitude req) (req_RadiusKm req);
             (case found of
                Inl e \<Rightarrow> State_Monad.return (failed rid e)
              | Inr nearby \<Rightarrow> assign_nearby X d req nearby) }) })"

definition CancelAssignment :: "'db ext \<Rightarrow> Dispatcher \<Rightarrow> string \<Rightarrow> ('db world, err + Assignment) state" where
  "CancelAssignment X d requestID =
     (case validateLifecycleID requestID of
        Inl e \<Rightarrow> fail e
      | Inr _ \<Rightarrow> lc_cancel X (d_lifecycle d) requestID)"

text \<open>Arrival of an assignment that is en route: the driver must be near the pickup.\<close>

definition confirm_arrival :: "'db ext \<Rightarrow> Dispatcher \<Rightarrow> Assignment \<Rightarrow> ('db world, err + Assignment) state" where
  "confirm_arrival X d assignment =
     attempt (GetLocation X (d_geoService d) (a_DriverID assignment)) (\<lambda>position.
     if too_far (loc_Longitude position) (loc_Latitude position)
          (a_PickupLongitude assignment) (a_PickupLatitude assignment)
          (lc_arrivalThresholdKm (d_lifecycle d))
     then fail (Lif ErrDriverTooFar)
     else lc_arrive X (d_lifecycle d) assignment)"

definition ArriveAssignment :: "'db ext \<Rightarrow> Dispatcher \<Rightarrow> string \<Rightarrow> ('db world, err + Assignment) state" where
  "ArriveAssignment X d requestID =
     (case validateLifecycleID requestID of
        Inl e \<Rightarrow> fail e
      | Inr _ \<Rightarrow>
          attempt (lc_get X (d_lifecycle d) requestID) (\<lambda>assignment.
          if a_Status assignment \<noteq> AssignmentEnRoute then fail (Lif ErrAssignmentStateConflict)
          else confirm_arrival X d assignment))"

definition GetAssignment :: "'db ext \<Rightarrow> Dispatcher \<Rightarrow> string \<Rightarrow> ('db world, err + Assignment) state" where
  "GetAssignment X d requestID = lc_get X (d_lifecycle d) requestID"

definition ResetRiderAssignment :: "'db ext \<Rightarrow> Dispatcher \<Rightarrow> string \<Rightarrow> ('db world, err + unit) state" where
  "ResetRiderAssignment X d riderID =
     (case validateLifecycleID riderID of
        Inl e \<Rightarrow> fail e
      | Inr _ \<Rightarrow> resetRider X (d_lifecycle d) riderID)"

text \<open>The end of a location update without a trip: renew the status, or come online.\<close>

definition stay_present :: "'db ext \<Rightarrow> Dispatcher \<Rightarrow> string \<Rightarrow> ('db world, err + unit) state" where
  "stay_present X d driverID = do {
     res \<leftarrow> Heartbeat X (d_driverService d) driverID;
     (case res of
        Inl e \<Rightarrow> if e = Drv ErrDriverOffline then SetAvailable X (d_driverService d) driverID else fail e
      | Inr _ \<Rightarrow> ok ())
   }"

definition UpdateDriverLocation :: "'db ext \<Rightarrow> Dispatcher \<Rightarrow> string \<Rightarrow> float64 \<Rightarrow> float64
    \<Rightarrow> ('db world, err + unit) state" where
  "UpdateDriverLocation X d driverID lon lat =
     attempt (AddLocation X (d_geoService d)
        \<lparr>loc_ID = driverID, loc_Longitude = lon, loc_Latitude = lat, loc_DistanceKm = Fin 0\<rparr>) (\<lambda>_.
     attempt (refreshActiveDriver X (d_lifecycle d) driverID) (\<lambda>active.
     if active then ok () else stay_present X d driverID))"

definition GetStats :: "'db ext \<Rightarrow> Dispatcher \<Rightarrow> 'db world \<Rightarrow> ((err + nat \<times> nat) \<times> 'db world) option" where
  "GetStats X d w =
     map_option (\<lambda>((total, available, e), w').
       (case e of Some e \<Rightarrow> Inl e | None \<Rightarrow> Inr (total, available), w')) (GetDriverStats X (d_driverService d) w)"

section \<open>The deployed service\<close>

text \<open>
  What \<^verbatim>\<open>server.New\<close> builds: the dispatcher with the program's default
  prefixes and times.
\<close>

definition server_dispatcher :: Dispatcher where
  "server_dispatcher =
     NewDispatcher (geo_New ''locations'') (NewDriverService ''driver'' (30 * Second))
       (NewLockManager ''dispatch:lock'' (10 * Second)) []"

text \<open>
  What the theorems need of a configuration: the key families are disjoint,
  the driver service and the lifecycle manager agree on the status keys, and
  every time-to-live is a whole number of seconds.
\<close>

definition well_configured :: "Dispatcher \<Rightarrow> bool" where
  "well_configured d \<longleftrightarrow>
     (let m = d_lifecycle d; a = lc_assignmentPrefix m @ '':''; r = lc_riderActivePrefix m @ '':'';
          w = lc_driverActivePrefix m @ '':''; s = lc_driverStatusPrefix m @ '':'';
          l = lm_keyPrefix (d_lockManager d) @ '':''; g = gs_key (d_geoService d) in
      apart a r \<and> apart a w \<and> apart a s \<and> apart a l \<and> apart a g \<and>
      apart r w \<and> apart r s \<and> apart r l \<and> apart r g \<and>
      apart w s \<and> apart w l \<and> apart w g \<and>
      apart s l \<and> apart s g \<and> apart l g \<and>
      lc_lockManager m = d_lockManager d \<and>
      lc_driverStatusPrefix m = ds_keyPrefix (d_driverService d) @ '':status'' \<and>
      whole_seconds (lc_assignmentTTL m) \<and> whole_seconds (lc_driverStatusTTL m) \<and>
      whole_seconds (lm_lockTTL (d_lockManager d)) \<and> whole_seconds (ds_defaultTTL (d_driverService d)))"

lemma well_configured_server: "well_configured server_dispatcher"
  by (simp add: well_configured_def server_dispatcher_def NewDispatcher_def geo_New_def
      NewDriverService_def NewLockManager_def newLifecycleManager_def zeroLifecycleConfig_def
      whole_seconds_def apart_def Let_def)

end
