(* ===== verification/Ownership.thy ===== *)
theory Ownership
  imports Dispatcher
begin

text \<open>
  The store of a well-configured service: what each family of keys holds,
  how the assignment records and the two ownership keys are linked, and what
  each Lua script does to the visible keyspace, as one equation per script.
\<close>

section \<open>The shape of the store\<close>

text \<open>The keys of the service, by family.\<close>

abbreviation asg_key :: "Dispatcher \<Rightarrow> string \<Rightarrow> string" where
  "asg_key d r \<equiv> assignmentKey (d_lifecycle d) r"

abbreviation rider_key :: "Dispatcher \<Rightarrow> string \<Rightarrow> string" where
  "rider_key d p \<equiv> activeRiderKey (d_lifecycle d) p"

abbreviation owner_key :: "Dispatcher \<Rightarrow> string \<Rightarrow> string" where
  "owner_key d v \<equiv> activeDriverKey (d_lifecycle d) v"

abbreviation stat_key :: "Dispatcher \<Rightarrow> string \<Rightarrow> string" where
  "stat_key d v \<equiv> driverStatusKey (d_lifecycle d) v"

abbreviation lock_key :: "Dispatcher \<Rightarrow> string \<Rightarrow> string" where
  "lock_key d v \<equiv> lockKey (d_lockManager d) v"

abbreviation geo_key :: "Dispatcher \<Rightarrow> string" where
  "geo_key d \<equiv> gs_key (d_geoService d)"

text \<open>The index of positions holds no blank driver ID.\<close>

definition holds_drivers :: "(rval \<times> int option) option \<Rightarrow> bool" where
  "holds_drivers e \<longleftrightarrow> (case e of None \<Rightarrow> True
     | Some (RGeo g, _) \<Rightarrow> (\<forall>m. g m \<noteq> None \<longrightarrow> TrimSpace m \<noteq> []) | _ \<Rightarrow> False)"

lemma holds_drivers_simps [simp]:
  "holds_drivers None"
  "holds_drivers (Some (RGeo g, dl)) \<longleftrightarrow> (\<forall>m. g m \<noteq> None \<longrightarrow> TrimSpace m \<noteq> [])"
  "\<not> holds_drivers (Some (RStr s, dl))" "\<not> holds_drivers (Some (RHash h, dl))"
  by (simp_all add: holds_drivers_def)

lemma holds_driversE:
  assumes "holds_drivers e"
  obtains "e = None" | g dl where "e = Some (RGeo g, dl)" "\<And>m. g m \<noteq> None \<Longrightarrow> TrimSpace m \<noteq> []"
  using assms by (auto simp: holds_drivers_def split: option.splits prod.splits rval.splits)

text \<open>No command of the service can meet a value of the wrong type.\<close>

definition typed :: "'db ext \<Rightarrow> Dispatcher \<Rightarrow> 'db \<Rightarrow> bool" where
  "typed X d db \<longleftrightarrow>
     (\<forall>i. holds_hash (view X db (asg_key d i)) \<and> holds_string (view X db (rider_key d i)) \<and>
          holds_string (view X db (owner_key d i)) \<and> holds_string (view X db (stat_key d i)) \<and>
          holds_string (view X db (lock_key d i))) \<and>
     holds_drivers (view X db (geo_key d))"

text \<open>The statuses of an assignment that has not been cancelled.\<close>

definition active_status :: "string option \<Rightarrow> bool" where
  "active_status s \<longleftrightarrow> s = Some AssignmentEnRoute \<or> s = Some AssignmentArrived"

text \<open>A stored assignment record is complete, and its fields are what they should be.\<close>

definition record_ok :: "'db ext \<Rightarrow> string \<Rightarrow> (string \<rightharpoonup> string) \<Rightarrow> bool" where
  "record_ok X r h \<longleftrightarrow>
     r \<noteq> [] \<and> h ''request_id'' = Some r \<and> h ''rider_id'' \<noteq> None \<and> h ''driver_id'' \<noteq> None \<and>
     (\<exists>slon slat lon lat. h ''pickup_longitude'' = Some slon \<and> h ''pickup_latitude'' = Some slat \<and>
        ParseFloat X slon = Some lon \<and> ParseFloat X slat = Some lat \<and> ValidateCoordinates lon lat = Inr ()) \<and>
     (active_status (h ''status'') \<or> h ''status'' = Some AssignmentCancelled)"

definition records_ok :: "'db ext \<Rightarrow> Dispatcher \<Rightarrow> 'db \<Rightarrow> bool" where
  "records_ok X d db \<longleftrightarrow> (\<forall>r h dl. view X db (asg_key d r) = Some (RHash h, dl) \<longrightarrow> record_ok X r h)"

text \<open>
  The link between the records and the ownership keys. A rider's or driver's
  key names an active record of that rider or driver and lives exactly as
  long; and every record with a status in \<open>A\<close> is named by the keys of its
  rider and of its driver.
\<close>

definition owned_by_keys :: "'db ext \<Rightarrow> Dispatcher \<Rightarrow> 'db \<Rightarrow> string \<Rightarrow> (string \<rightharpoonup> string) \<Rightarrow> int option \<Rightarrow> bool" where
  "owned_by_keys X d db r h dl \<longleftrightarrow>
     (\<exists>p v. h ''rider_id'' = Some p \<and> h ''driver_id'' = Some v \<and>
        view X db (rider_key d p) = Some (RStr r, dl) \<and> view X db (owner_key d v) = Some (RStr r, dl))"

definition names :: "'db ext \<Rightarrow> Dispatcher \<Rightarrow> 'db \<Rightarrow> string \<Rightarrow> string \<Rightarrow> string \<Rightarrow> int option \<Rightarrow> bool" where
  "names X d db field i r dl \<longleftrightarrow>
     (\<exists>h. view X db (asg_key d r) = Some (RHash h, dl) \<and> h field = Some i \<and> active_status (h ''status''))"

definition linked :: "string set \<Rightarrow> 'db ext \<Rightarrow> Dispatcher \<Rightarrow> 'db \<Rightarrow> bool" where
  "linked A X d db \<longleftrightarrow>
     (\<forall>p r dl. view X db (rider_key d p) = Some (RStr r, dl) \<longrightarrow> names X d db ''rider_id'' p r dl) \<and>
     (\<forall>v r dl. view X db (owner_key d v) = Some (RStr r, dl) \<longrightarrow> names X d db ''driver_id'' v r dl) \<and>
     (\<forall>r h dl s. view X db (asg_key d r) = Some (RHash h, dl) \<longrightarrow> h ''status'' = Some s \<longrightarrow> s \<in> A \<longrightarrow>
        owned_by_keys X d db r h dl)"

definition store_inv :: "string set \<Rightarrow> 'db ext \<Rightarrow> Dispatcher \<Rightarrow> 'db \<Rightarrow> bool" where
  "store_inv A X d db \<longleftrightarrow> typed X d db \<and> records_ok X d db \<and> linked A X d db"

section \<open>A configured service\<close>

locale deployment = redis +
  fixes d :: Dispatcher
  assumes configured: "well_configured d"
begin

lemma cfg:
  "lc_lockManager (d_lifecycle d) = d_lockManager d"
  "lc_driverStatusPrefix (d_lifecycle d) = ds_keyPrefix (d_driverService d) @ '':status''"
  "whole_seconds (lc_assignmentTTL (d_lifecycle d))" "whole_seconds (lc_driverStatusTTL (d_lifecycle d))"
  "whole_seconds (lm_lockTTL (d_lockManager d))" "whole_seconds (ds_defaultTTL (d_driverService d))"
  using configured by (simp_all add: well_configured_def Let_def)

lemma lock_manager [simp]: "lc_lockManager (d_lifecycle d) = d_lockManager d"
  by (rule cfg)

lemma statusKey_eq [simp]: "statusKey (d_driverService d) v = stat_key d v"
  by (simp add: statusKey_def driverStatusKey_def sprintf_key_def cfg)

lemma key_inj [simp]:
  "asg_key d x = asg_key d y \<longleftrightarrow> x = y" "rider_key d x = rider_key d y \<longleftrightarrow> x = y"
  "owner_key d x = owner_key d y \<longleftrightarrow> x = y" "stat_key d x = stat_key d y \<longleftrightarrow> x = y"
  "lock_key d x = lock_key d y \<longleftrightarrow> x = y"
  by (simp_all add: assignmentKey_def activeRiderKey_def activeDriverKey_def driverStatusKey_def lockKey_def)

lemma key_neq:
  "asg_key d x \<noteq> rider_key d y" "asg_key d x \<noteq> owner_key d y" "asg_key d x \<noteq> stat_key d y"
  "asg_key d x \<noteq> lock_key d y" "asg_key d x \<noteq> geo_key d"
  "rider_key d x \<noteq> owner_key d y" "rider_key d x \<noteq> stat_key d y" "rider_key d x \<noteq> lock_key d y"
  "rider_key d x \<noteq> geo_key d"
  "owner_key d x \<noteq> stat_key d y" "owner_key d x \<noteq> lock_key d y" "owner_key d x \<noteq> geo_key d"
  "stat_key d x \<noteq> lock_key d y" "stat_key d x \<noteq> geo_key d" "lock_key d x \<noteq> geo_key d"
  using configured
  unfolding well_configured_def Let_def assignmentKey_def activeRiderKey_def activeDriverKey_def
    driverStatusKey_def lockKey_def
  by (blast dest: apart_sprintf apart_sprintf_const)+

lemmas key_simps [simp] = key_neq key_neq [symmetric]

lemma argv_key [simp]: "lc_assignmentPrefix (d_lifecycle d) @ CHR '':'' # r = asg_key d r"
  by (simp add: assignmentKey_def sprintf_key_def)

lemma argv_colon: "lc_assignmentPrefix (d_lifecycle d) @ '':'' @ r = asg_key d r"
  by simp

abbreviation asg_secs :: int where
  "asg_secs \<equiv> lc_assignmentTTL (d_lifecycle d) div Second"

abbreviation stat_secs :: int where
  "stat_secs \<equiv> lc_driverStatusTTL (d_lifecycle d) div Second"

abbreviation asg_deadline :: "'a \<Rightarrow> int option" where
  "asg_deadline db \<equiv> Some (clock X db + 1000 * asg_secs)"

abbreviation stat_deadline :: "'a \<Rightarrow> int option" where
  "stat_deadline db \<equiv> Some (clock X db + 1000 * stat_secs)"

lemmas ttl_simps [simp] =
  whole_seconds_div(1) [OF cfg(3)] whole_seconds_div(1) [OF cfg(4)]
  whole_seconds_div(1) [OF cfg(5)] whole_seconds_div(1) [OF cfg(6)]
  dur_expiry_whole [OF cfg(5)] dur_expiry_whole [OF cfg(6)] dur_secs_whole [OF cfg(6)]

lemma ttl_ok [simp]:
  "expiry_ok (ExSec asg_secs)" "expiry_ok (ExSec stat_secs)"
  "expiry_ok (ExSec (lm_lockTTL (d_lockManager d) div Second))"
  "expiry_ok (ExSec (ds_defaultTTL (d_driverService d) div Second))"
  using whole_seconds_div(2,3) [OF cfg(3)] whole_seconds_div(2,3) [OF cfg(4)]
    whole_seconds_div(2,3) [OF cfg(5)] whole_seconds_div(2,3) [OF cfg(6)]
  by simp_all

declare expiry_ok.simps [simp del]

lemma typedD:
  assumes "typed X d db"
  shows "holds_hash (view X db (asg_key d i))" "holds_string (view X db (rider_key d i))"
    "holds_string (view X db (owner_key d i))" "holds_string (view X db (stat_key d i))"
    "holds_string (view X db (lock_key d i))" "holds_drivers (view X db (geo_key d))"
  using assms by (simp_all add: typed_def)

end

section \<open>What each script does\<close>

text \<open>Some request of the rider is under way or has arrived.\<close>

definition rider_engaged :: "'db ext \<Rightarrow> Dispatcher \<Rightarrow> 'db \<Rightarrow> string \<Rightarrow> bool" where
  "rider_engaged X d db p \<longleftrightarrow>
     (case str_at X db (rider_key d p) of None \<Rightarrow> False
      | Some r \<Rightarrow> (case hash_at X db (asg_key d r) of None \<Rightarrow> False | Some h \<Rightarrow> active_status (h ''status'')))"

definition create_code :: "'db ext \<Rightarrow> Dispatcher \<Rightarrow> 'db \<Rightarrow> Assignment \<Rightarrow> int" where
  "create_code X d db a =
     (if rider_engaged X d db (a_RiderID a) then 0
      else if hash_at X db (asg_key d (a_RequestID a)) \<noteq> None then -1
      else case str_at X db (owner_key d (a_DriverID a)) of
          None \<Rightarrow> 1 | Some r \<Rightarrow> if r = a_RequestID a then 1 else -2)"

definition new_hash :: "'db ext \<Rightarrow> Assignment \<Rightarrow> (string \<rightharpoonup> string)" where
  "new_hash X a = map_of (rev
     [(''request_id'', a_RequestID a), (''rider_id'', a_RiderID a), (''driver_id'', a_DriverID a),
      (''pickup_longitude'', FormatFloat X (a_PickupLongitude a)),
      (''pickup_latitude'', FormatFloat X (a_PickupLatitude a)), (''status'', ''en_route'')])"

lemma new_hash_fields [simp]:
  "new_hash X a ''request_id'' = Some (a_RequestID a)"
  "new_hash X a ''rider_id'' = Some (a_RiderID a)"
  "new_hash X a ''driver_id'' = Some (a_DriverID a)"
  "new_hash X a ''pickup_longitude'' = Some (FormatFloat X (a_PickupLongitude a))"
  "new_hash X a ''pickup_latitude'' = Some (FormatFloat X (a_PickupLatitude a))"
  "new_hash X a ''status'' = Some ''en_route''"
  by (simp_all add: new_hash_def)

lemma active_status_simps [simp]:
  "active_status (Some ''en_route'')" "active_status (Some ''arrived'')"
  "\<not> active_status (Some ''cancelled'')" "\<not> active_status None"
  by (simp_all add: active_status_def)

definition cancel_code :: "'db ext \<Rightarrow> Dispatcher \<Rightarrow> 'db \<Rightarrow> string \<Rightarrow> Assignment \<Rightarrow> int" where
  "cancel_code X d db r a =
     (case hash_at X db (asg_key d r) of
        None \<Rightarrow> -1
      | Some h \<Rightarrow>
          if h ''status'' \<noteq> Some ''en_route'' then 0
          else if h ''driver_id'' \<noteq> Some (a_DriverID a) \<or> h ''rider_id'' \<noteq> Some (a_RiderID a) then -2
          else if str_at X db (owner_key d (a_DriverID a)) \<noteq> Some r then -3
          else case str_at X db (lock_key d (a_DriverID a)) of
              None \<Rightarrow> 1 | Some l \<Rightarrow> if l = r then 1 else -4)"

definition status_changed :: "'db ext \<Rightarrow> 'db \<Rightarrow> string \<Rightarrow> string \<Rightarrow> rval" where
  "status_changed X db k s = RHash ((case hash_at X db k of None \<Rightarrow> Map.empty | Some h \<Rightarrow> h)(''status'' \<mapsto> s))"

text \<open>The answer of the arrival script, and of the script that restores the busy status.\<close>

definition arrive_code :: "'db ext \<Rightarrow> Dispatcher \<Rightarrow> 'db \<Rightarrow> Assignment \<Rightarrow> int" where
  "arrive_code X d db a =
     (case hash_at X db (asg_key d (a_RequestID a)) of
        None \<Rightarrow> -1
      | Some h \<Rightarrow>
          if h ''status'' \<noteq> Some ''en_route'' then 0
          else if str_at X db (rider_key d (a_RiderID a)) = Some (a_RequestID a) \<and>
            str_at X db (owner_key d (a_DriverID a)) = Some (a_RequestID a) \<and>
            str_at X db (stat_key d (a_DriverID a)) = Some ''busy'' then 1
          else -2)"

definition refresh_code :: "'db ext \<Rightarrow> Dispatcher \<Rightarrow> 'db \<Rightarrow> string \<Rightarrow> int" where
  "refresh_code X d db v =
     (case str_at X db (owner_key d v) of
        None \<Rightarrow> 0
      | Some r \<Rightarrow> (case hash_at X db (asg_key d r) of
            None \<Rightarrow> 0
          | Some h \<Rightarrow> if h ''driver_id'' = Some v \<and> active_status (h ''status'') then 1 else 0))"

context deployment
begin

lemma engaged_check:
  assumes "typed X d db"
  shows "run_state (attempt (rd (r_get X (rider_key d p))) (\<lambda>active_request.
     attempt (case active_request of
                None \<Rightarrow> ok None
              | Some r \<Rightarrow> rd (r_hget X (asg_key d r) ''status'')) (\<lambda>active_status.
     if active_request \<noteq> None \<and> (active_status = Some ''en_route'' \<or> active_status = Some ''arrived'')
     then ok 0 else M))) db = (if rider_engaged X d db p then (Inr 0, db) else run_state M db)"
proof (cases "str_at X db (rider_key d p)")
  case None
  then show ?thesis using typedD [OF assms]
    by (simp add: run_attempt_rd get_typed rider_engaged_def)
next
  case (Some r)
  then show ?thesis using typedD [OF assms]
    by (cases "hash_at X db (asg_key d r)")
      (simp_all add: run_attempt_rd get_typed hget_typed rider_engaged_def active_status_def)
qed

lemma create_spec:
  assumes ty: "typed X d db"
  shows "yields X (create_eval X (d_lifecycle d) a) db (Inr (create_code X d db a))
    (if create_code X d db a = 1
     then (view X db)(asg_key d (a_RequestID a) \<mapsto> (RHash (new_hash X a), asg_deadline db),
            rider_key d (a_RiderID a) \<mapsto> (RStr (a_RequestID a), asg_deadline db),
            owner_key d (a_DriverID a) \<mapsto> (RStr (a_RequestID a), asg_deadline db))
     else view X db)"
proof -
  let ?r = "a_RequestID a" and ?p = "a_RiderID a" and ?v = "a_DriverID a"
  note typedD [OF ty, simp]
  let ?body = "attempt (r_hset X (asg_key d ?r)
            [(''request_id'', ?r), (''rider_id'', ?p), (''driver_id'', ?v),
             (''pickup_longitude'', FormatFloat X (a_PickupLongitude a)),
             (''pickup_latitude'', FormatFloat X (a_PickupLatitude a)), (''status'', ''en_route'')]) (\<lambda>_.
          attempt (r_expire X (asg_key d ?r) asg_secs) (\<lambda>_.
          attempt (r_set X (rider_key d ?p) ?r (ExSec asg_secs)) (\<lambda>_.
          attempt (r_set X (owner_key d ?v) ?r (ExSec asg_secs)) (\<lambda>_. ok (1::int)))))"
  have run: "run_state (create_eval X (d_lifecycle d) a) db =
      (if create_code X d db a = 1 then run_state ?body db else (Inr (create_code X d db a), db))"
    unfolding create_eval_def createAssignmentScript_def argv_colon engaged_check [OF ty]
    by (cases "str_at X db (owner_key d ?v)")
      (auto simp add: create_code_def run_attempt_rd get_typed exists_hash_typed)
  have "yields X ?body db (Inr 1)
      ((view X db)(asg_key d ?r \<mapsto> (RHash (new_hash X a), asg_deadline db),
         rider_key d ?p \<mapsto> (RStr ?r, asg_deadline db), owner_key d ?v \<mapsto> (RStr ?r, asg_deadline db)))"
    if "create_code X d db a = 1"
  proof -
    from that have "view X db (asg_key d ?r) = None"
      by (auto simp: create_code_def hash_at_None split: if_splits)
    then show ?thesis
      by (simp add: yields_def run_attempt write_laws new_hash_def)
  qed
  then show ?thesis by (simp add: yields_def run)
qed

text \<open>The writes of the cancellation script, once its checks have passed.\<close>

lemma cancel_writes:
  assumes ty: "typed X d db" and h: "view X db (asg_key d r) = Some (RHash h, dl)"
    and lock: "str_at X db (lock_key d v) = Some r \<or> str_at X db (lock_key d v) = None"
  shows "yields X (attempt (rd (r_get X (stat_key d v))) (\<lambda>driver_status.
     attempt (if driver_status = Some ''busy'' then r_set X (stat_key d v) ''available'' (ExSec stat_secs) else ok ()) (\<lambda>_.
     attempt (r_hset X (asg_key d r) [(''status'', ''cancelled'')]) (\<lambda>_.
     attempt (r_expire X (asg_key d r) asg_secs) (\<lambda>_.
     attempt (if str_at X db (lock_key d v) = Some r then r_del X (lock_key d v) else ok 0) (\<lambda>_.
     attempt (rd (r_get X (rider_key d p))) (\<lambda>rider_request.
     attempt (if rider_request = Some r then r_del X (rider_key d p) else ok 0) (\<lambda>_.
     attempt (r_del X (owner_key d v)) (\<lambda>_.
     ok (1::int)))))))))) db (Inr 1)
     (\<lambda>k. if k = asg_key d r then Some (status_changed X db k ''cancelled'', asg_deadline db)
          else if k = owner_key d v \<or> k = lock_key d v then None
          else if k = rider_key d p \<and> str_at X db k = Some r then None
          else if k = stat_key d v \<and> str_at X db k = Some ''busy'' then Some (RStr ''available'', stat_deadline db)
          else view X db k)"
proof -
  note typedD [OF ty, simp]
  have nlk: "view X db (lock_key d v) = None" if "str_at X db (lock_key d v) = None"
    using that by (simp add: str_at_None)
  show ?thesis
    apply (rule yields_get, simp)
    apply (rule yields_set_if, simp)
    apply (rule yields_hset, simp add: h)
    apply (rule yields_expire, simp, simp)
    apply (rule yields_del_if)
    apply (rule yields_get, simp)
    apply (rule yields_del_if)
    apply (rule yields_del)
    apply (rule yields_ok)
     apply (rule ext)
    using lock nlk apply (auto simp: status_changed_def hash_at_def h str_at_def)
    done
qed

lemma cancel_spec:
  assumes ty: "typed X d db"
  shows "yields X (cancel_eval X (d_lifecycle d) r a) db (Inr (cancel_code X d db r a))
    (if cancel_code X d db r a = 1
     then (\<lambda>k. if k = asg_key d r then Some (status_changed X db k ''cancelled'', asg_deadline db)
          else if k = owner_key d (a_DriverID a) \<or> k = lock_key d (a_DriverID a) then None
          else if k = rider_key d (a_RiderID a) \<and> str_at X db k = Some r then None
          else if k = stat_key d (a_DriverID a) \<and> str_at X db k = Some ''busy''
            then Some (RStr ''available'', stat_deadline db)
          else view X db k)
     else view X db)"
proof (cases "cancel_code X d db r a = 1")
  case True
  then obtain h dl where h: "hash_at X db (asg_key d r) = Some h" "view X db (asg_key d r) = Some (RHash h, dl)"
    and lock: "str_at X db (lock_key d (a_DriverID a)) = Some r \<or> str_at X db (lock_key d (a_DriverID a)) = None"
    by (auto simp: cancel_code_def hash_at_Some split: option.splits if_splits)
  note typedD [OF ty, simp]
  note w = cancel_writes [OF ty h(2) lock, of "a_RiderID a"]
  from True h(1) have "run_state (cancel_eval X (d_lifecycle d) r a) db = run_state (attempt (rd (r_get X (stat_key d (a_DriverID a)))) (\<lambda>driver_status.
     attempt (if driver_status = Some ''busy'' then r_set X (stat_key d (a_DriverID a)) ''available'' (ExSec stat_secs) else ok ()) (\<lambda>_.
     attempt (r_hset X (asg_key d r) [(''status'', ''cancelled'')]) (\<lambda>_.
     attempt (r_expire X (asg_key d r) asg_secs) (\<lambda>_.
     attempt (if str_at X db (lock_key d (a_DriverID a)) = Some r then r_del X (lock_key d (a_DriverID a)) else ok 0) (\<lambda>_.
     attempt (rd (r_get X (rider_key d (a_RiderID a)))) (\<lambda>rider_request.
     attempt (if rider_request = Some r then r_del X (rider_key d (a_RiderID a)) else ok 0) (\<lambda>_.
     attempt (r_del X (owner_key d (a_DriverID a))) (\<lambda>_. ok (1::int)))))))))) db"
    by (cases "str_at X db (lock_key d (a_DriverID a))")
      (simp_all add: cancel_eval_def cancelAssignmentScript_def cancel_code_def
        run_attempt_rd attempt_assoc get_typed hget_typed exists_hash_typed split: if_splits)
  with w True show ?thesis by (simp add: yields_def)
next
  case False
  note typedD [OF ty, simp]
  from False show ?thesis
    by (cases "hash_at X db (asg_key d r)"; cases "str_at X db (lock_key d (a_DriverID a))")
      (simp_all add: yields_def cancel_eval_def cancelAssignmentScript_def cancel_code_def
        run_attempt_rd attempt_assoc get_typed hget_typed exists_hash_typed split: if_splits)
qed

lemma arrive_spec:
  assumes ty: "typed X d db"
  shows "yields X (arrive_eval X (d_lifecycle d) a) db (Inr (arrive_code X d db a))
    (if arrive_code X d db a = 1
     then (view X db)(asg_key d (a_RequestID a) \<mapsto>
              (status_changed X db (asg_key d (a_RequestID a)) ''arrived'', asg_deadline db),
            rider_key d (a_RiderID a) \<mapsto> (RStr (a_RequestID a), asg_deadline db),
            owner_key d (a_DriverID a) \<mapsto> (RStr (a_RequestID a), asg_deadline db),
            stat_key d (a_DriverID a) \<mapsto> (RStr ''busy'', stat_deadline db))
     else view X db)"
proof -
  let ?r = "a_RequestID a" and ?p = "a_RiderID a" and ?v = "a_DriverID a"
  note typedD [OF ty, simp]
  let ?w = "attempt (r_hset X (asg_key d ?r) [(''status'', ''arrived'')]) (\<lambda>_.
     attempt (r_expire X (asg_key d ?r) asg_secs) (\<lambda>_.
     attempt (r_expire X (rider_key d ?p) asg_secs) (\<lambda>_.
     attempt (r_expire X (owner_key d ?v) asg_secs) (\<lambda>_.
     attempt (r_expire X (stat_key d ?v) stat_secs) (\<lambda>_.
     ok (1::int))))))"
  have run: "run_state (arrive_eval X (d_lifecycle d) a) db =
      (if arrive_code X d db a = 1 then run_state ?w db else (Inr (arrive_code X d db a), db))"
    by (cases "hash_at X db (asg_key d ?r)")
      (simp_all add: arrive_eval_def arriveAssignmentScript_def arrive_code_def
        run_attempt_rd attempt_assoc get_typed hget_typed exists_hash_typed)
  have "yields X ?w db (Inr 1)
     ((view X db)(asg_key d ?r \<mapsto> (status_changed X db (asg_key d ?r) ''arrived'', asg_deadline db),
        rider_key d ?p \<mapsto> (RStr ?r, asg_deadline db), owner_key d ?v \<mapsto> (RStr ?r, asg_deadline db),
        stat_key d ?v \<mapsto> (RStr ''busy'', stat_deadline db)))" if c: "arrive_code X d db a = 1"
  proof -
    from c obtain h dl dl1 dl2 dl3 where h: "view X db (asg_key d ?r) = Some (RHash h, dl)"
      "view X db (rider_key d ?p) = Some (RStr ?r, dl1)" "view X db (owner_key d ?v) = Some (RStr ?r, dl2)"
      "view X db (stat_key d ?v) = Some (RStr ''busy'', dl3)"
      by (auto simp: arrive_code_def hash_at_Some str_at_Some split: option.splits if_splits)
    show ?thesis
      apply (rule yields_hset, simp add: h(1))
      apply (rule yields_expire, simp, simp)
      apply (rule yields_expire, simp, simp add: h(2))
      apply (rule yields_expire, simp, simp add: h(3))
      apply (rule yields_expire, simp, simp add: h(4))
      apply (rule yields_ok)
       apply (simp_all add: status_changed_def hash_at_def h(1))
      done
  qed
  then show ?thesis by (simp add: yields_def run)
qed

lemma refresh_spec:
  assumes ty: "typed X d db"
  shows "yields X (refresh_eval X (d_lifecycle d) v) db (Inr (refresh_code X d db v))
    (if refresh_code X d db v = 1 then (view X db)(stat_key d v \<mapsto> (RStr ''busy'', stat_deadline db))
     else view X db)"
proof -
  note typedD [OF ty, simp]
  have "run_state (refresh_eval X (d_lifecycle d) v) db =
      (if refresh_code X d db v = 1 then run_state (attempt (r_set X (stat_key d v) ''busy'' (ExSec stat_secs)) (\<lambda>_. ok 1)) db
       else (Inr (refresh_code X d db v), db))"
    by (cases "str_at X db (owner_key d v)"; cases "hash_at X db (asg_key d (the (str_at X db (owner_key d v))))")
      (simp_all add: refresh_eval_def refreshActiveDriverScript_def refresh_code_def active_status_def
        run_attempt_rd get_typed hget_typed)
  moreover have "yields X (attempt (r_set X (stat_key d v) ''busy'' (ExSec stat_secs)) (\<lambda>_. ok (1::int))) db (Inr 1)
      ((view X db)(stat_key d v \<mapsto> (RStr ''busy'', stat_deadline db)))"
    by (rule yields_set, simp, rule yields_ok) simp_all
  ultimately show ?thesis by (simp add: yields_def)
qed

lemma clear_reset_spec:
  assumes ty: "typed X d db"
  shows "yields X (clear_reset_eval X (d_lifecycle d) p v r) db (Inr 1)
    (\<lambda>k. if (k = rider_key d p \<or> k = owner_key d v) \<and> str_at X db k = Some r then None else view X db k)"
proof -
  note typedD [OF ty, simp]
  show ?thesis
    unfolding clear_reset_eval_def clearResetAssignmentScript_def
    apply (rule yields_get, simp)
    apply (rule yields_del_if)
    apply (rule yields_get, simp)
    apply (rule yields_del_if)
    apply (rule yields_ok)
     apply (rule ext)
     apply (auto simp: str_at_def)
    done
qed

lemma clear_active_spec:
  assumes ty: "typed X d db"
  shows "\<exists>n. yields X (clear_active_eval X (d_lifecycle d) p r) db (Inr n)
    (if str_at X db (rider_key d p) = Some r then (view X db)(rider_key d p := None) else view X db)"
  using typedD [OF ty] 
  by (auto simp: yields_def clear_active_eval_def clearActiveAssignmentScript_def run_attempt_rd get_typed
      del_res del_view del_clock)

section \<open>The driver status and the lock\<close>

lemma set_busy_spec:
  assumes ty: "typed X d db"
  shows "yields X (setBusyScript X (stat_key d v) (ds_defaultTTL (d_driverService d) div Second)) db
    (Inr (case str_at X db (stat_key d v) of None \<Rightarrow> -1 | Some s \<Rightarrow> if s = ''available'' then 1 else 0))
    (if str_at X db (stat_key d v) = Some ''available''
     then (view X db)(stat_key d v \<mapsto>
       (RStr ''busy'', Some (clock X db + 1000 * (ds_defaultTTL (d_driverService d) div Second))))
     else view X db)"
  using typedD [OF ty]
  by (auto simp: yields_def setBusyScript_def run_attempt_rd run_attempt get_typed
      set_res set_view set_clock split: option.split)

lemma unlock_spec:
  assumes ty: "typed X d db"
  shows "yields X (unlockScript X (lock_key d v) r) db
    (Inr (case str_at X db (lock_key d v) of None \<Rightarrow> -1 | Some l \<Rightarrow> if l = r then 1 else 0))
    (if str_at X db (lock_key d v) = Some r then (view X db)(lock_key d v := None) else view X db)"
  using typedD(5) [OF ty, of v]
  by (cases "str_at X db (lock_key d v)")
    (simp_all add: yields_def unlockScript_def run_attempt_rd get_typed str_at_None
      del_res del_view del_clock)

lemma extend_spec:
  assumes ty: "typed X d db"
  shows "yields X (extendLockScript X (lock_key d v) r (lm_lockTTL (d_lockManager d) div Second)) db
    (Inr (if str_at X db (lock_key d v) = Some r then 1 else 0))
    (if str_at X db (lock_key d v) = Some r
     then (view X db)(lock_key d v \<mapsto>
       (RStr r, Some (clock X db + 1000 * (lm_lockTTL (d_lockManager d) div Second))))
     else view X db)"
  using typedD [OF ty]
  by (auto simp: yields_def extendLockScript_def run_attempt_rd get_typed str_at_Some
      expire_res expire_view expire_clock)

end

end
