(* ===== verification/Steps.thy ===== *)
theory Steps
  imports Ownership
begin

text \<open>
  The atomic steps of the whole service: every write its Go code sends to
  Redis, one Redis command or one script each, with any arguments the
  callers can pass; the passing of time; and writes by others to keys that
  are not the dispatcher's. Requests interleave arbitrarily at these steps.
  The invariant of the store is proved for each, hence for every reachable
  store.
\<close>

text \<open>The keys of the dispatcher. Everything else in the database is foreign to it.\<close>

definition service_key :: "Dispatcher \<Rightarrow> string \<Rightarrow> bool" where
  "service_key d k \<longleftrightarrow> k = geo_key d \<or>
     (\<exists>i. k = asg_key d i \<or> k = rider_key d i \<or> k = owner_key d i \<or> k = stat_key d i \<or> k = lock_key d i)"

inductive svc_step :: "'db ext \<Rightarrow> Dispatcher \<Rightarrow> 'db \<Rightarrow> 'db \<Rightarrow> bool" for X d where
  elapse: "elapses X db db' \<Longrightarrow> svc_step X d db db'"
| foreign: "clock X db' = clock X db \<Longrightarrow> (\<And>k. service_key d k \<Longrightarrow> view X db' k = view X db k) \<Longrightarrow> svc_step X d db db'"
| try_lock: "svc_step X d db (snd (run_state
     (r_setnx X (lock_key d v) r (dur_expiry X (lm_lockTTL (d_lockManager d)))) db))"
| unlock: "svc_step X d db (snd (run_state (unlockScript X (lock_key d v) r) db))"
| extend_lock: "svc_step X d db (snd (run_state
     (extendLockScript X (lock_key d v) r (go_div (lm_lockTTL (d_lockManager d)) Second)) db))"
| set_busy: "svc_step X d db (snd (run_state (setBusyScript X (statusKey (d_driverService d) v)
     (go_div (ds_defaultTTL (d_driverService d)) Second)) db))"
| set_status: "svc_step X d db (snd (run_state
     (r_set X (statusKey (d_driverService d) v) s (dur_expiry X (ds_defaultTTL (d_driverService d)))) db))"
| set_offline: "svc_step X d db (snd (run_state (r_del X (statusKey (d_driverService d) v)) db))"
| heartbeat: "svc_step X d db (snd (run_state
     (r_expire X (statusKey (d_driverService d) v) (dur_secs X (ds_defaultTTL (d_driverService d)))) db))"
| create: "validatePickup a = Inr () \<Longrightarrow> a_RequestID a \<noteq> [] \<Longrightarrow>
     svc_step X d db (snd (run_state (create_eval X (d_lifecycle d) a) db))"
| cancel: "svc_step X d db (snd (run_state (cancel_eval X (d_lifecycle d) r a) db))"
| arrive: "svc_step X d db (snd (run_state (arrive_eval X (d_lifecycle d) a) db))"
| refresh: "svc_step X d db (snd (run_state (refresh_eval X (d_lifecycle d) v) db))"
| geo_add: "ValidateCoordinates lon lat = Inr () \<Longrightarrow> TrimSpace m \<noteq> [] \<Longrightarrow>
     svc_step X d db (snd (run_state (r_geoadd X (geo_key d) m lon lat) db))"
| geo_remove: "svc_step X d db (snd (run_state (r_zrem X (geo_key d) m) db))"

text \<open>
  The steps of the interview demo's reset beside them: it also clears the
  ownership keys of a request, one that is not under way.
\<close>

inductive demo_step :: "'db ext \<Rightarrow> Dispatcher \<Rightarrow> 'db \<Rightarrow> 'db \<Rightarrow> bool" for X d where
  service: "svc_step X d db db' \<Longrightarrow> demo_step X d db db'"
| clear_lock: "demo_step X d db (snd (run_state (r_del X (lock_key d v)) db))"
| clear_reset: "(\<And>h. hash_at X db (asg_key d r) = Some h \<Longrightarrow> h ''status'' \<noteq> Some ''en_route'') \<Longrightarrow>
     demo_step X d db (snd (run_state (clear_reset_eval X (d_lifecycle d) p v r) db))"
| clear_active: "hash_at X db (asg_key d r) = None \<Longrightarrow>
     demo_step X d db (snd (run_state (clear_active_eval X (d_lifecycle d) p r) db))"

text \<open>The stores a service that starts on an empty database can reach.\<close>

definition empty_store :: "'db ext \<Rightarrow> 'db \<Rightarrow> bool" where
  "empty_store X db \<longleftrightarrow> (\<forall>k. view X db k = None)"

definition reachable :: "'db ext \<Rightarrow> Dispatcher \<Rightarrow> 'db \<Rightarrow> bool" where
  "reachable X d db \<longleftrightarrow> (\<exists>db0. empty_store X db0 \<and> (svc_step X d)\<^sup>*\<^sup>* db0 db)"

definition demo_reachable :: "'db ext \<Rightarrow> Dispatcher \<Rightarrow> 'db \<Rightarrow> bool" where
  "demo_reachable X d db \<longleftrightarrow> (\<exists>db0. empty_store X db0 \<and> (demo_step X d)\<^sup>*\<^sup>* db0 db)"

section \<open>The invariant is kept by every step\<close>

locale transition_invariant =
  fixes step :: "'s \<Rightarrow> 's \<Rightarrow> bool" and inv :: "'s \<Rightarrow> bool"
  assumes step_keeps: "step s t \<Longrightarrow> inv s \<Longrightarrow> inv t"
begin

lemma run_keeps: "step\<^sup>*\<^sup>* s t \<Longrightarrow> inv s \<Longrightarrow> inv t"
  by (induction rule: rtranclp_induct) (auto intro: step_keeps)

end

definition live_statuses :: "string set \<Rightarrow> bool" where
  "live_statuses A \<longleftrightarrow> A \<subseteq> {''en_route'', ''arrived''}"

text \<open>
  The frame of most steps: the trips are as before, and the other keys of the
  service still hold what they should.
\<close>

definition keeps_trips :: "'db ext \<Rightarrow> Dispatcher \<Rightarrow> 'db \<Rightarrow> 'db \<Rightarrow> bool" where
  "keeps_trips X d db db' \<longleftrightarrow>
     (\<forall>i. view X db' (asg_key d i) = view X db (asg_key d i) \<and>
        view X db' (rider_key d i) = view X db (rider_key d i) \<and>
        view X db' (owner_key d i) = view X db (owner_key d i) \<and>
        holds_string (view X db' (stat_key d i)) \<and> holds_string (view X db' (lock_key d i))) \<and>
     holds_drivers (view X db' (geo_key d))"

lemma store_inv_empty: "empty_store X db \<Longrightarrow> store_inv A X d db"
  by (simp add: empty_store_def store_inv_def typed_def records_ok_def linked_def)

context deployment
begin

lemma store_invI:
  assumes "typed X d db"
    and "\<And>r h dl. view X db (asg_key d r) = Some (RHash h, dl) \<Longrightarrow> record_ok X r h"
    and "\<And>p r dl. view X db (rider_key d p) = Some (RStr r, dl) \<Longrightarrow> names X d db ''rider_id'' p r dl"
    and "\<And>v r dl. view X db (owner_key d v) = Some (RStr r, dl) \<Longrightarrow> names X d db ''driver_id'' v r dl"
    and "\<And>r h dl s. view X db (asg_key d r) = Some (RHash h, dl) \<Longrightarrow> h ''status'' = Some s \<Longrightarrow> s \<in> A \<Longrightarrow>
      owned_by_keys X d db r h dl"
  shows "store_inv A X d db"
  using assms by (simp add: store_inv_def records_ok_def linked_def)

lemma keeps_tripsI:
  assumes "\<And>i. view X db' (asg_key d i) = view X db (asg_key d i)"
    and "\<And>i. view X db' (rider_key d i) = view X db (rider_key d i)"
    and "\<And>i. view X db' (owner_key d i) = view X db (owner_key d i)"
    and "\<And>i. holds_string (view X db' (stat_key d i))" "\<And>i. holds_string (view X db' (lock_key d i))"
    and "holds_drivers (view X db' (geo_key d))"
  shows "keeps_trips X d db db'"
  using assms by (simp add: keeps_trips_def)

lemma keeps_typed: "typed X d db \<Longrightarrow> keeps_trips X d db db' \<Longrightarrow> typed X d db'"
  by (simp add: typed_def keeps_trips_def)

lemma keeps_inv:
  assumes "store_inv A X d db" "keeps_trips X d db db'"
  shows "store_inv A X d db'"
proof -
  have "typed X d db'" using assms keeps_typed by (auto simp: store_inv_def)
  then show ?thesis
    using assms by (simp add: store_inv_def records_ok_def linked_def owned_by_keys_def names_def keeps_trips_def)
qed

lemma inv_same_view: "store_inv A X d db \<Longrightarrow> view X db' = view X db \<Longrightarrow> store_inv A X d db'"
  by (simp add: store_inv_def typed_def records_ok_def linked_def owned_by_keys_def names_def)

lemma inv_typed: "store_inv A X d db \<Longrightarrow> typed X d db"
  by (simp add: store_inv_def)

lemma linked_riderD:
  assumes "store_inv A X d db" "view X db (rider_key d p) = Some (RStr r, dl)"
  obtains h where "view X db (asg_key d r) = Some (RHash h, dl)" "h ''rider_id'' = Some p" "active_status (h ''status'')"
  using assms unfolding store_inv_def linked_def names_def by blast

lemma linked_ownerD:
  assumes "store_inv A X d db" "view X db (owner_key d v) = Some (RStr r, dl)"
  obtains h where "view X db (asg_key d r) = Some (RHash h, dl)" "h ''driver_id'' = Some v" "active_status (h ''status'')"
  using assms unfolding store_inv_def linked_def names_def by blast

lemma linked_recordD:
  assumes "store_inv A X d db" "view X db (asg_key d r) = Some (RHash h, dl)" "h ''status'' = Some s" "s \<in> A"
  obtains p v where "h ''rider_id'' = Some p" "h ''driver_id'' = Some v"
    "view X db (rider_key d p) = Some (RStr r, dl)" "view X db (owner_key d v) = Some (RStr r, dl)"
  using assms unfolding store_inv_def linked_def owned_by_keys_def by blast

lemma recordD:
  assumes "store_inv A X d db" "view X db (asg_key d r) = Some (RHash h, dl)"
  shows "record_ok X r h"
  using assms unfolding store_inv_def records_ok_def by blast

lemma create_facts:
  assumes inv: "store_inv A X d db" and c: "create_code X d db a = 1"
  shows "view X db (asg_key d (a_RequestID a)) = None" "view X db (rider_key d (a_RiderID a)) = None"
    "view X db (owner_key d (a_DriverID a)) = None"
proof -
  let ?r = "a_RequestID a" and ?p = "a_RiderID a" and ?v = "a_DriverID a"
  note ty = typedD [OF inv_typed [OF inv]]
  show r: "view X db (asg_key d ?r) = None"
    using c ty(1) [of ?r] by (auto simp: create_code_def hash_at_None split: if_splits)
  have "\<not> rider_engaged X d db ?p" using c by (auto simp: create_code_def)
  then show "view X db (rider_key d ?p) = None"
    using ty(2) [of ?p] linked_riderD [OF inv]
    by (elim holds_stringE) (force simp: rider_engaged_def str_at_def hash_at_def)+
  show "view X db (owner_key d ?v) = None"
    using ty(3) [of ?v]
  proof (cases rule: holds_stringE)
    case (2 s dl)
    with c r have "s = ?r" by (auto simp: create_code_def str_at_def split: if_splits)
    with 2 r show ?thesis using linked_ownerD [OF inv, of ?v ?r dl] by fastforce
  qed
qed

lemma record_ok_new:
  assumes "validatePickup a = Inr ()" "a_RequestID a \<noteq> []"
  shows "record_ok X (a_RequestID a) (new_hash X a)"
proof -
  obtain x y where "a_PickupLongitude a = Fin x" "a_PickupLatitude a = Fin y"
    using assms by (auto simp: validatePickup_def ValidateCoordinates_ok_iff)
  then show ?thesis using assms by (simp add: record_ok_def parse_format validatePickup_def)
qed

text \<open>
  A record \<open>r\<close> and its two keys written together: creation, and arrival,
  which renews them.
\<close>

lemma inv_link:
  assumes inv: "store_inv A X d db"
    and asg: "\<And>q. view X db' (asg_key d q) = (if q = r then Some (RHash h, dl) else view X db (asg_key d q))"
    and rider: "\<And>q. view X db' (rider_key d q) = (if q = p then Some (RStr r, dl) else view X db (rider_key d q))"
    and owner: "\<And>q. view X db' (owner_key d q) = (if q = v then Some (RStr r, dl) else view X db (owner_key d q))"
    and other: "\<And>i. holds_string (view X db' (stat_key d i))" "\<And>i. holds_string (view X db' (lock_key d i))"
      "holds_drivers (view X db' (geo_key d))"
    and h: "record_ok X r h" "h ''rider_id'' = Some p" "h ''driver_id'' = Some v" "active_status (h ''status'')"
    and free: "\<And>q l. q \<noteq> p \<Longrightarrow> view X db (rider_key d q) \<noteq> Some (RStr r, l)"
      "\<And>q l. q \<noteq> v \<Longrightarrow> view X db (owner_key d q) \<noteq> Some (RStr r, l)"
      "\<And>q l. q \<noteq> r \<Longrightarrow> view X db (rider_key d p) \<noteq> Some (RStr q, l)"
      "\<And>q l. q \<noteq> r \<Longrightarrow> view X db (owner_key d v) \<noteq> Some (RStr q, l)"
  shows "store_inv A X d db'"
proof (rule store_invI)
  show "typed X d db'" using inv_typed [OF inv] other by (auto simp: typed_def asg rider owner)
next
  fix q h' l assume "view X db' (asg_key d q) = Some (RHash h', l)"
  then show "record_ok X q h'" using recordD [OF inv, of q h' l] h(1) by (auto simp: asg split: if_splits)
next
  fix i q l assume k: "view X db' (rider_key d i) = Some (RStr q, l)"
  show "names X d db' ''rider_id'' i q l"
  proof (cases "i = p")
    case True with k h show ?thesis by (auto simp: names_def asg rider)
  next
    case False
    with k have "view X db (rider_key d i) = Some (RStr q, l)" by (simp add: rider)
    with linked_riderD [OF inv this] free(1) [OF False] show ?thesis by (auto simp: names_def asg)
  qed
next
  fix i q l assume k: "view X db' (owner_key d i) = Some (RStr q, l)"
  show "names X d db' ''driver_id'' i q l"
  proof (cases "i = v")
    case True with k h show ?thesis by (auto simp: names_def asg owner)
  next
    case False
    with k have "view X db (owner_key d i) = Some (RStr q, l)" by (simp add: owner)
    with linked_ownerD [OF inv this] free(2) [OF False] show ?thesis by (auto simp: names_def asg)
  qed
next
  fix q h' l s assume k: "view X db' (asg_key d q) = Some (RHash h', l)" "h' ''status'' = Some s" "s \<in> A"
  show "owned_by_keys X d db' q h' l"
  proof (cases "q = r")
    case True with k h show ?thesis by (auto simp: owned_by_keys_def asg rider owner)
  next
    case False
    with k(1) have "view X db (asg_key d q) = Some (RHash h', l)" by (simp add: asg)
    from linked_recordD [OF inv this k(2,3)] obtain p' v' where "h' ''rider_id'' = Some p'" "h' ''driver_id'' = Some v'"
      "view X db (rider_key d p') = Some (RStr q, l)" "view X db (owner_key d v') = Some (RStr q, l)" .
    moreover from this free(3,4) False have "p' \<noteq> p" "v' \<noteq> v" by blast+
    ultimately show ?thesis by (simp add: owned_by_keys_def rider owner)
  qed
qed

text \<open>
  Keys that name \<open>r\<close> removed, when its record no longer counts: cancellation,
  which marks the record and clears all such keys, and the demo's reset.
\<close>

lemma inv_unlink:
  assumes inv: "store_inv A X d db"
    and asg: "\<And>q. view X db' (asg_key d q) = (if q = r \<and> marked then Some (RHash h, dl) else view X db (asg_key d q))"
    and rider: "\<And>i. view X db' (rider_key d i) = view X db (rider_key d i) \<or> view X db' (rider_key d i) = None \<and> str_at X db (rider_key d i) = Some r"
    and owner: "\<And>i. view X db' (owner_key d i) = view X db (owner_key d i) \<or> view X db' (owner_key d i) = None \<and> str_at X db (owner_key d i) = Some r"
    and other: "\<And>i. holds_string (view X db' (stat_key d i))" "\<And>i. holds_string (view X db' (lock_key d i))"
      "holds_drivers (view X db' (geo_key d))"
    and h: "marked \<Longrightarrow> record_ok X r h"
    and gone: "\<And>i l. marked \<Longrightarrow> view X db' (rider_key d i) \<noteq> Some (RStr r, l)" "\<And>i l. marked \<Longrightarrow> view X db' (owner_key d i) \<noteq> Some (RStr r, l)"
    and dead: "\<And>h' l s. view X db' (asg_key d r) = Some (RHash h', l) \<Longrightarrow> h' ''status'' = Some s \<Longrightarrow> s \<notin> A"
  shows "store_inv A X d db'"
proof (rule store_invI)
  have "holds_string (view X db' (rider_key d i)) \<and> holds_string (view X db' (owner_key d i))" for i
    using rider [of i] owner [of i] typedD [OF inv_typed [OF inv]] by auto
  with inv_typed [OF inv] other show "typed X d db'" by (auto simp: typed_def asg)
next
  fix q h' l assume "view X db' (asg_key d q) = Some (RHash h', l)"
  then show "record_ok X q h'" using recordD [OF inv, of q h' l] h by (auto simp: asg split: if_splits)
next
  fix i q l assume k: "view X db' (rider_key d i) = Some (RStr q, l)"
  with rider [of i] have "view X db (rider_key d i) = Some (RStr q, l)" by simp
  then show "names X d db' ''rider_id'' i q l"
    by (cases rule: linked_riderD [OF inv]) (use k gone(1) in \<open>auto simp: names_def asg\<close>)
next
  fix i q l assume k: "view X db' (owner_key d i) = Some (RStr q, l)"
  with owner [of i] have "view X db (owner_key d i) = Some (RStr q, l)" by simp
  then show "names X d db' ''driver_id'' i q l"
    by (cases rule: linked_ownerD [OF inv]) (use k gone(2) in \<open>auto simp: names_def asg\<close>)
next
  fix q h' l s assume k: "view X db' (asg_key d q) = Some (RHash h', l)" "h' ''status'' = Some s" "s \<in> A"
  with dead have q: "q \<noteq> r" by blast
  with k(1) have old: "view X db (asg_key d q) = Some (RHash h', l)" by (simp add: asg)
  from linked_recordD [OF inv old k(2,3)] obtain p v where o: "h' ''rider_id'' = Some p" "h' ''driver_id'' = Some v"
    "view X db (rider_key d p) = Some (RStr q, l)" "view X db (owner_key d v) = Some (RStr q, l)" .
  with rider [of p] owner [of v] q show "owned_by_keys X d db' q h' l"
    by (auto simp: owned_by_keys_def str_at_def)
qed

lemma inv_create:
  assumes inv: "store_inv A X d db" and va: "validatePickup a = Inr ()" "a_RequestID a \<noteq> []"
    and y: "yields X m db r0 (if create_code X d db a = 1
     then (view X db)(asg_key d (a_RequestID a) \<mapsto> (RHash (new_hash X a), asg_deadline db),
            rider_key d (a_RiderID a) \<mapsto> (RStr (a_RequestID a), asg_deadline db),
            owner_key d (a_DriverID a) \<mapsto> (RStr (a_RequestID a), asg_deadline db))
     else view X db)"
  shows "store_inv A X d (snd (run_state m db))"
proof (cases "create_code X d db a = 1")
  case False
  with yieldsD(2) [OF y] inv show ?thesis by (simp add: inv_same_view)
next
  case c: True
  note free = create_facts [OF inv c]
  have free': "view X db (rider_key d q) \<noteq> Some (RStr (a_RequestID a), l)" "view X db (owner_key d q) \<noteq> Some (RStr (a_RequestID a), l)" for q l
    using free(1) linked_riderD [OF inv] linked_ownerD [OF inv] by fastforce+
  note view = yieldsD(2) [OF y, simplified c, simplified]
  show ?thesis
    by (rule inv_link [OF inv, where r = "a_RequestID a" and h = "new_hash X a" and p = "a_RiderID a" and v = "a_DriverID a"
        and dl = "asg_deadline db"])
      (use typedD [OF inv_typed [OF inv]] record_ok_new [OF va] free free' in \<open>simp_all add: view\<close>)
qed

lemma inv_cancel:
  assumes inv: "store_inv A X d db" and A: "live_statuses A"
  shows "store_inv A X d (snd (run_state (cancel_eval X (d_lifecycle d) r a) db))" (is "store_inv A X d ?db")
proof (cases "cancel_code X d db r a = 1")
  case False
  with yieldsD(2) [OF cancel_spec [OF inv_typed [OF inv], of r a]] inv show ?thesis
    by (simp add: inv_same_view)
next
  case c: True
  let ?p = "a_RiderID a" and ?v = "a_DriverID a"
  from c obtain h dl where h: "view X db (asg_key d r) = Some (RHash h, dl)"
      "h ''status'' = Some ''en_route''" "h ''driver_id'' = Some ?v" "h ''rider_id'' = Some ?p"
      "str_at X db (owner_key d ?v) = Some r"
    by (auto simp: cancel_code_def hash_at_Some split: option.splits if_splits)
  have view: "view X ?db = (\<lambda>k. if k = asg_key d r then Some (RHash (h(''status'' \<mapsto> ''cancelled'')), asg_deadline db)
          else if k = owner_key d ?v \<or> k = lock_key d ?v then None
          else if k = rider_key d ?p \<and> str_at X db k = Some r then None
          else if k = stat_key d ?v \<and> str_at X db k = Some ''busy'' then Some (RStr ''available'', stat_deadline db)
          else view X db k)"
    using yieldsD(2) [OF cancel_spec [OF inv_typed [OF inv], of r a]] c h(1)
    by (simp add: status_changed_def hash_at_def fun_eq_iff)
  have only: "i \<noteq> ?p \<Longrightarrow> view X db (rider_key d i) \<noteq> Some (RStr r, l)" "i \<noteq> ?v \<Longrightarrow> view X db (owner_key d i) \<noteq> Some (RStr r, l)" for i l
    using h linked_riderD [OF inv, of i r l] linked_ownerD [OF inv, of i r l] by fastforce+
  have rider: "str_at X db (rider_key d ?p) \<noteq> Some r \<Longrightarrow> view X db (rider_key d i) \<noteq> Some (RStr r, l)" for i l
    using only(1) [of i l] by (cases "i = ?p") (auto simp: str_at_def)
  have rec: "record_ok X r (h(''status'' \<mapsto> ''cancelled''))"
    using recordD [OF inv h(1)] by (simp add: record_ok_def)
  show ?thesis
    by (rule inv_unlink [OF inv, where r = r and marked = True and h = "h(''status'' \<mapsto> ''cancelled'')" and dl = "asg_deadline db"])
      (use typedD [OF inv_typed [OF inv]] rec h(5) only rider A in \<open>auto simp: view live_statuses_def\<close>)
qed

lemma inv_arrive:
  assumes inv: "store_inv A X d db"
  shows "store_inv A X d (snd (run_state (arrive_eval X (d_lifecycle d) a) db))" (is "store_inv A X d ?db")
proof (cases "arrive_code X d db a = 1")
  case False
  with yieldsD(2) [OF arrive_spec [OF inv_typed [OF inv], of a]] inv show ?thesis
    by (simp add: inv_same_view)
next
  case c: True
  let ?r = "a_RequestID a" and ?p = "a_RiderID a" and ?v = "a_DriverID a"
  from c obtain h dl dlp dlv where h: "view X db (asg_key d ?r) = Some (RHash h, dl)"
      "view X db (rider_key d ?p) = Some (RStr ?r, dlp)" "view X db (owner_key d ?v) = Some (RStr ?r, dlv)"
    by (auto simp: arrive_code_def hash_at_Some str_at_Some split: option.splits if_splits)
  have ids: "h ''rider_id'' = Some ?p" "h ''driver_id'' = Some ?v"
    using h(1) linked_riderD [OF inv h(2)] linked_ownerD [OF inv h(3)] by auto
  have view: "view X ?db = (view X db)(asg_key d ?r \<mapsto> (RHash (h(''status'' \<mapsto> ''arrived'')), asg_deadline db),
      rider_key d ?p \<mapsto> (RStr ?r, asg_deadline db), owner_key d ?v \<mapsto> (RStr ?r, asg_deadline db),
      stat_key d ?v \<mapsto> (RStr ''busy'', stat_deadline db))"
    using yieldsD(2) [OF arrive_spec [OF inv_typed [OF inv], of a]] c h(1) by (simp add: status_changed_def hash_at_def)
  have only: "i \<noteq> ?p \<Longrightarrow> view X db (rider_key d i) \<noteq> Some (RStr ?r, l)" "i \<noteq> ?v \<Longrightarrow> view X db (owner_key d i) \<noteq> Some (RStr ?r, l)" for i l
    using h(1) ids linked_riderD [OF inv, of i ?r l] linked_ownerD [OF inv, of i ?r l] by fastforce+
  have rec: "record_ok X ?r (h(''status'' \<mapsto> ''arrived''))"
    using recordD [OF inv h(1)] by (simp add: record_ok_def active_status_def)
  show ?thesis
    by (rule inv_link [OF inv, where r = ?r and p = ?p and v = ?v and h = "h(''status'' \<mapsto> ''arrived'')" and dl = "asg_deadline db"])
      (use typedD [OF inv_typed [OF inv]] rec h(2,3) ids only in \<open>simp_all add: view active_status_def\<close>)
qed

lemma inv_elapse:
  assumes inv: "store_inv A X d db" and el: "elapses X db db'"
  shows "store_inv A X d db'"
proof -
  have view: "view X db' k = (case view X db k of
        Some (v, Some t) \<Rightarrow> (if clock X db' < t then Some (v, Some t) else None) | r \<Rightarrow> r)" for k
    using el by (simp add: elapses_def)
  have keep: "view X db' k = Some (x, dl) \<longleftrightarrow> view X db k = Some (x, dl) \<and> (dl = None \<or> clock X db' < the dl)" for k x dl
    by (auto simp: view split: option.splits if_splits)
  have none: "view X db k = None \<Longrightarrow> view X db' k = None" for k by (simp add: view)
  have "holds_string (view X db k) \<Longrightarrow> holds_string (view X db' k)" "holds_hash (view X db k) \<Longrightarrow> holds_hash (view X db' k)"
    "holds_drivers (view X db k) \<Longrightarrow> holds_drivers (view X db' k)" for k
    by (auto simp: view elim!: holds_stringE holds_hashE holds_driversE split: option.split)
  then have "typed X d db'"
    using inv_typed [OF inv] by (simp add: typed_def)
  moreover have "records_ok X d db'"
    using inv by (auto simp: keep records_ok_def store_inv_def)
  moreover have "linked A X d db'"
    using inv unfolding store_inv_def linked_def names_def keep owned_by_keys_def by blast
  ultimately show ?thesis by (simp add: store_inv_def)
qed

text \<open>The steps that keep the trips.\<close>

lemma keeps_upd_status:
  assumes "typed X d db" "view X db' = (if b then (view X db)(stat_key d v \<mapsto> (RStr s, dl)) else view X db)"
  shows "keeps_trips X d db db'"
  by (rule keeps_tripsI) (use typedD [OF assms(1)] in \<open>auto simp: assms(2)\<close>)

lemma keeps_upd_lock:
  assumes "typed X d db" "view X db' = (if b then (view X db)(lock_key d v \<mapsto> (RStr s, dl)) else view X db)"
  shows "keeps_trips X d db db'"
  by (rule keeps_tripsI) (use typedD [OF assms(1)] in \<open>auto simp: assms(2)\<close>)

lemma keeps_del_key:
  assumes "typed X d db" "k = stat_key d v \<or> k = lock_key d v"
    and "view X db' = (if b then (view X db)(k := None) else view X db)"
  shows "keeps_trips X d db db'"
  by (rule keeps_tripsI) (use typedD [OF assms(1)] assms(2) in \<open>auto simp: assms(3)\<close>)

lemma inv_upd_status:
  assumes "store_inv A X d db" "view X db' = (if b then (view X db)(stat_key d v \<mapsto> (RStr s, dl)) else view X db)"
  shows "store_inv A X d db'"
  by (rule keeps_inv [OF assms(1) keeps_upd_status [OF inv_typed [OF assms(1)] assms(2)]])

lemma inv_upd_lock:
  assumes "store_inv A X d db" "view X db' = (if b then (view X db)(lock_key d v \<mapsto> (RStr s, dl)) else view X db)"
  shows "store_inv A X d db'"
  by (rule keeps_inv [OF assms(1) keeps_upd_lock [OF inv_typed [OF assms(1)] assms(2)]])

lemma keeps_geo_add:
  assumes "typed X d db" "ValidateCoordinates lon lat = Inr ()" "TrimSpace m \<noteq> []"
  shows "keeps_trips X d db (snd (run_state (r_geoadd X (geo_key d) m lon lat) db))"
proof -
  obtain x y where "lon = Fin x" "lat = Fin y" using assms(2) by (auto simp: ValidateCoordinates_ok_iff)
  then show ?thesis
    by (intro keeps_tripsI) (use typedD [OF assms(1)] assms(3) in \<open>auto simp: geoadd_view elim!: holds_driversE\<close>)
qed

lemma keeps_geo_remove:
  assumes "typed X d db"
  shows "keeps_trips X d db (snd (run_state (r_zrem X (geo_key d) m) db))" (is "keeps_trips X d db ?db")
proof -
  note ty = typedD [OF assms]
  have "view X db (geo_key d) = None \<or> (\<exists>g dl. view X db (geo_key d) = Some (RGeo g, dl))"
    using ty(6) by (auto elim: holds_driversE)
  from zrem_geo [OF this, of m]
  have g: "geo_at X ?db (geo_key d) = (geo_at X db (geo_key d))(m := None)"
    "view X ?db (geo_key d) = None \<or> (\<exists>g dl. view X ?db (geo_key d) = Some (RGeo g, dl))"
    by simp_all
  have "TrimSpace n \<noteq> []" if "geo_at X ?db (geo_key d) n \<noteq> None" for n
  proof -
    from that have "geo_at X db (geo_key d) n \<noteq> None" by (simp add: g(1) split: if_splits)
    then show ?thesis using ty(6) by (auto simp: geo_at_def elim!: holds_driversE)
  qed
  with g(2) have "holds_drivers (view X ?db (geo_key d))"
    by (auto simp: geo_at_def)
  then show ?thesis
    by (intro keeps_tripsI) (use ty in \<open>simp_all add: zrem_view\<close>)
qed

lemma keeps_heartbeat:
  assumes "typed X d db" and [simp]: "expiry_ok (ExSec secs)"
  shows "keeps_trips X d db (snd (run_state (r_expire X (stat_key d v) secs) db))"
proof (rule keeps_tripsI)
  show "holds_string (view X (snd (run_state (r_expire X (stat_key d v) secs) db)) (stat_key d i))" for i
    by (rule holds_stringE [OF typedD(4) [OF assms(1), of v]]) (use typedD(4) [OF assms(1), of i] in \<open>auto simp: expire_view\<close>)
qed (use typedD [OF assms(1)] in \<open>simp_all add: expire_view split: option.split\<close>)

lemma keeps_foreign:
  assumes "typed X d db" "\<And>k. service_key d k \<Longrightarrow> view X db' k = view X db k"
  shows "keeps_trips X d db db'"
  using assms typedD [OF assms(1)] by (intro keeps_tripsI) (auto simp: service_key_def)

text \<open>The kinds of steps: only three of them touch the records or the ownership keys.\<close>

lemma svc_step_kinds:
  assumes "svc_step X d db db'" and ty: "typed X d db"
  obtains (elapse) "elapses X db db'"
  | (keeps) "keeps_trips X d db db'"
  | (create) a where "validatePickup a = Inr ()" "a_RequestID a \<noteq> []" "db' = snd (run_state (create_eval X (d_lifecycle d) a) db)"
  | (cancel) r a where "db' = snd (run_state (cancel_eval X (d_lifecycle d) r a) db)"
  | (arrive) a where "db' = snd (run_state (arrive_eval X (d_lifecycle d) a) db)"
  using assms(1)
proof cases
  case foreign
  then show thesis by (intro keeps keeps_foreign [OF ty])
next
  case (try_lock v r)
  then show thesis by (intro keeps keeps_upd_lock [OF ty]) (simp add: setnx_view)
next
  case (unlock v r)
  with yieldsD(2) [OF unlock_spec [OF ty]] show thesis by (intro keeps keeps_del_key [OF ty]) auto
next
  case (extend_lock v r)
  with yieldsD(2) [OF extend_spec [OF ty]] show thesis by (intro keeps keeps_upd_lock [OF ty]) simp
next
  case (set_busy v)
  with yieldsD(2) [OF set_busy_spec [OF ty]] show thesis by (intro keeps keeps_upd_status [OF ty]) simp
next
  case (set_status v s)
  then show thesis by (intro keeps keeps_upd_status [OF ty, where b = True]) (simp add: set_view)
next
  case (set_offline v)
  then show thesis by (intro keeps keeps_del_key [OF ty, where b = True]) (simp_all add: del_view)
next
  case (refresh v)
  with yieldsD(2) [OF refresh_spec [OF ty]] show thesis by (intro keeps keeps_upd_status [OF ty]) simp
next
  case (heartbeat v)
  then show thesis using keeps_heartbeat [OF ty ttl_ok(4), of v] by (intro keeps) simp
next
  case (geo_add lon lat m)
  then show thesis using keeps_geo_add [OF ty] by (intro keeps) simp
next
  case (geo_remove m)
  then show thesis using keeps_geo_remove [OF ty] by (intro keeps) simp
qed (rule that; assumption)+

lemma svc_step_inv:
  assumes "svc_step X d db db'" and inv: "store_inv A X d db" and A: "live_statuses A"
  shows "store_inv A X d db'"
  using assms(1) inv_typed [OF inv]
proof (cases rule: svc_step_kinds)
  case elapse
  then show ?thesis by (rule inv_elapse [OF inv])
next
  case keeps
  then show ?thesis by (rule keeps_inv [OF inv])
next
  case (create a)
  then show ?thesis using inv_create [OF inv create(1,2) create_spec [OF inv_typed [OF inv]]] by simp
next
  case (cancel r a)
  then show ?thesis using inv_cancel [OF inv A] by simp
next
  case (arrive a)
  then show ?thesis using inv_arrive [OF inv] by simp
qed

lemma inv_clear_reset:
  assumes inv: "store_inv {''en_route''} X d db"
    and free: "\<And>h. hash_at X db (asg_key d r) = Some h \<Longrightarrow> h ''status'' \<noteq> Some ''en_route''"
  shows "store_inv {''en_route''} X d (snd (run_state (clear_reset_eval X (d_lifecycle d) p v r) db))"
    (is "store_inv ?A X d ?db")
proof -
  note ty = inv_typed [OF inv]
  have view: "view X ?db = (\<lambda>k. if (k = rider_key d p \<or> k = owner_key d v) \<and> str_at X db k = Some r then None else view X db k)"
    by (rule yieldsD(2) [OF clear_reset_spec [OF ty]])
  show ?thesis
    by (rule inv_unlink [OF inv, where r = r and marked = False])
      (use typedD [OF ty] free in \<open>auto simp: view hash_at_def\<close>)
qed

lemma inv_clear_active:
  assumes inv: "store_inv {''en_route''} X d db" and free: "hash_at X db (asg_key d r) = None"
  shows "store_inv {''en_route''} X d (snd (run_state (clear_active_eval X (d_lifecycle d) p r) db))"
    (is "store_inv ?A X d ?db")
proof -
  note ty = inv_typed [OF inv]
  obtain n where y: "yields X (clear_active_eval X (d_lifecycle d) p r) db (Inr n)
      (if str_at X db (rider_key d p) = Some r then (view X db)(rider_key d p := None) else view X db)"
    using clear_active_spec [OF ty] by blast
  have dead: "view X ?db (asg_key d r) = Some (RHash h, l) \<Longrightarrow> s \<notin> ?A" for h l s
    using free by (simp add: yieldsD(2) [OF y] hash_at_def split: if_splits)
  show ?thesis
    by (rule inv_unlink [OF inv _ _ _ _ _ _ _ _ _ dead, where marked = False])
      (use typedD [OF ty] in \<open>auto simp: yieldsD(2) [OF y] split: if_splits\<close>)
qed

lemma demo_step_inv:
  assumes "demo_step X d db db'" and inv: "store_inv {''en_route''} X d db"
  shows "store_inv {''en_route''} X d db'"
  using assms(1)
proof cases
  case service
  then show ?thesis using svc_step_inv inv by (simp add: live_statuses_def)
next
  case (clear_lock v)
  show ?thesis unfolding clear_lock
    by (rule keeps_inv [OF inv keeps_del_key [OF inv_typed [OF inv], where b = True]]) (simp_all add: del_view)
next
  case (clear_reset r p v)
  then show ?thesis using inv_clear_reset inv by simp
next
  case (clear_active r p)
  then show ?thesis using inv_clear_active inv by simp
qed

end

sublocale deployment \<subseteq> svc: transition_invariant "svc_step X d" "store_inv {''en_route'', ''arrived''} X d"
  by unfold_locales (rule svc_step_inv, simp_all add: live_statuses_def)

sublocale deployment \<subseteq> demo: transition_invariant "demo_step X d" "store_inv {''en_route''} X d"
  by unfold_locales (rule demo_step_inv)

context deployment
begin

lemma reachable_inv: "reachable X d db \<Longrightarrow> store_inv {''en_route'', ''arrived''} X d db"
  unfolding reachable_def by (elim exE conjE) (rule svc.run_keeps [OF _ store_inv_empty])

lemma demo_reachable_inv: "demo_reachable X d db \<Longrightarrow> store_inv {''en_route''} X d db"
  unfolding demo_reachable_def by (elim exE conjE) (rule demo.run_keeps [OF _ store_inv_empty])

end

end
