(* ===== verification/Interleaving.thy ===== *)
theory Interleaving
  imports Steps
begin

text \<open>
  Every operation of the service stays within its atomic steps: under any
  schedule of other requests, of the clock and of network faults, running
  the operation takes the database along \<open>svc_step\<close>s only. With the
  invariant of theory \<open>Steps\<close> this makes the safety theorems hold for every
  interleaving of requests.
\<close>

lemma stays_svc_call:
  assumes "\<And>db. svc_step X d db (snd (run_state c db))"
  shows "stays (svc_step X d) (call c)"
  by (rule stays_call) (rule r_into_rtranclp [of "svc_step X d", OF assms])

section \<open>The components\<close>

lemma stays_AddLocation [stays_intros]: "stays (svc_step X d) (AddLocation X (d_geoService d) loc)"
proof -
  have "stays (svc_step X d)
      (call (r_geoadd X (geo_key d) (loc_ID loc) (loc_Longitude loc) (loc_Latitude loc)))"
    if "ValidateCoordinates (loc_Longitude loc) (loc_Latitude loc) = Inr u" "TrimSpace (loc_ID loc) \<noteq> []" for u
    using that by (intro stays_svc_call svc_step.geo_add) simp
  then show ?thesis
    unfolding AddLocation_def by (intro stays_intros)
qed

lemma stays_RemoveLocation [stays_intros]: "stays (svc_step X d) (RemoveLocation X (d_geoService d) m)"
  unfolding RemoveLocation_def by (intro stays_intros stays_svc_call svc_step.geo_remove)

lemma stays_GetLocation [stays_intros]: "stays P (GetLocation X gs m)"
  unfolding GetLocation_def by (intro stays_intros)

lemma stays_FindNearby [stays_intros]: "stays P (FindNearby X gs lon lat r)"
  unfolding FindNearby_def by (intro stays_intros)

lemma stays_SetStatus [stays_intros]: "stays (svc_step X d) (SetStatus X (d_driverService d) v s)"
  unfolding SetStatus_def
  by (intro stays_intros stays_svc_call svc_step.set_offline svc_step.set_status)

lemma stays_SetAvailable [stays_intros]: "stays (svc_step X d) (SetAvailable X (d_driverService d) v)"
  unfolding SetAvailable_def by (intro stays_intros)

lemma stays_GetStatus [stays_intros]: "stays P (GetStatus X ds v)"
  unfolding GetStatus_def by (intro stays_intros)

lemma stays_GetStatuses [stays_intros]: "stays P (GetStatuses X ds vs)"
  unfolding GetStatuses_def by (intro stays_intros)

lemma stays_Heartbeat [stays_intros]: "stays (svc_step X d) (Heartbeat X (d_driverService d) v)"
  unfolding Heartbeat_def by (intro stays_intros stays_svc_call svc_step.heartbeat)

lemma stays_SetBusy [stays_intros]: "stays (svc_step X d) (SetBusy X (d_driverService d) v)"
  unfolding SetBusy_def by (intro stays_intros stays_svc_call svc_step.set_busy)

lemma stays_TryLock [stays_intros]: "stays (svc_step X d) (TryLock X (d_lockManager d) v r)"
  unfolding TryLock_def by (intro stays_intros stays_svc_call svc_step.try_lock)

lemma stays_Unlock [stays_intros]: "stays (svc_step X d) (Unlock X (d_lockManager d) v r)"
  unfolding Unlock_def by (intro stays_intros stays_svc_call svc_step.unlock)

lemma stays_ExtendLock [stays_intros]: "stays (svc_step X d) (ExtendLock X (d_lockManager d) v r)"
  unfolding ExtendLock_def by (intro stays_intros stays_svc_call svc_step.extend_lock)

lemma stays_driverOwner [stays_intros]: "stays P (driverOwner X m v)"
  unfolding driverOwner_def by (intro stays_intros)

lemma stays_refresh [stays_intros]: "stays (svc_step X d) (refreshActiveDriver X (d_lifecycle d) v)"
  unfolding refreshActiveDriver_def by (intro stays_intros stays_svc_call svc_step.refresh)

lemma stays_create:
  "validatePickup a = Inr () \<Longrightarrow> a_RequestID a \<noteq> [] \<Longrightarrow> stays (svc_step X d) (lc_create X (d_lifecycle d) a)"
  unfolding lc_create_def by (intro stays_intros stays_svc_call svc_step.create)

lemma stays_get [stays_intros]: "stays P (lc_get X m r)"
  unfolding lc_get_def by (intro stays_intros)

lemma stays_active [stays_intros]: "stays P (lc_active X m p)"
  unfolding lc_active_def by (intro stays_intros)

lemma stays_cancel [stays_intros]: "stays (svc_step X d) (lc_cancel X (d_lifecycle d) r)"
  unfolding lc_cancel_def by (intro stays_intros stays_svc_call svc_step.cancel)

lemma stays_arrive [stays_intros]: "stays (svc_step X d) (lc_arrive X (d_lifecycle d) a)"
  unfolding lc_arrive_def by (intro stays_intros stays_svc_call svc_step.arrive)

section \<open>The dispatcher\<close>

lemma stays_ReleaseDriver [stays_intros]: "stays (svc_step X d) (ReleaseDriver X d v r)"
  unfolding ReleaseDriver_def by (intro stays_intros)

lemma new_assignment_fields [simp]:
  "a_RequestID (new_assignment req v) = req_RequestID req" "a_RiderID (new_assignment req v) = req_RiderID req"
  "a_DriverID (new_assignment req v) = v" "a_Status (new_assignment req v) = ''en_route''"
  by (simp_all add: new_assignment_def case_prod_beta Let_def)

lemma stays_record_assignment [stays_intros]:
  "req_RequestID req \<noteq> [] \<Longrightarrow> stays (svc_step X d) (record_assignment X d req v)"
  unfolding record_assignment_def undo_claim_def Let_def by (intro stays_intros stays_create) simp_all

lemma stays_claim_driver [stays_intros]:
  "req_RequestID req \<noteq> [] \<Longrightarrow> stays (svc_step X d) (claim_driver X d req loc)"
  unfolding claim_driver_def finish_assignment_def by (intro stays_intros)

lemma stays_tryAssignDriver [stays_intros]:
  "req_RequestID req \<noteq> [] \<Longrightarrow> stays (svc_step X d) (tryAssignDriver X d req loc)"
  unfolding tryAssignDriver_def Let_def by (intro stays_intros)

lemma stays_assign_first [stays_intros]:
  "req_RequestID req \<noteq> [] \<Longrightarrow> stays (svc_step X d) (assign_first X d req sts locs)"
  by (induction locs) (auto intro!: stays_intros)

lemma with_defaults_ID: "uuid \<noteq> [] \<Longrightarrow> req_RequestID (with_defaults uuid req) \<noteq> []"
  by (simp add: with_defaults_def Let_def)

lemma stays_FindAndAssign [stays_intros]:
  "uuid \<noteq> [] \<Longrightarrow> stays (svc_step X d) (FindAndAssign X d uuid req)"
  unfolding FindAndAssign_def assign_nearby_def Let_def by (intro stays_intros with_defaults_ID)

lemma stays_CancelAssignment [stays_intros]: "stays (svc_step X d) (CancelAssignment X d r)"
  unfolding CancelAssignment_def by (intro stays_intros)

lemma stays_ArriveAssignment [stays_intros]: "stays (svc_step X d) (ArriveAssignment X d r)"
  unfolding ArriveAssignment_def confirm_arrival_def by (intro stays_intros)

lemma stays_UpdateDriverLocation [stays_intros]: "stays (svc_step X d) (UpdateDriverLocation X d v lon lat)"
  unfolding UpdateDriverLocation_def stay_present_def by (intro stays_intros)

text \<open>Reachable stores are closed under every operation, however it is interleaved.\<close>

lemma reachable_run:
  assumes "stays (svc_step X d) m" "reachable X d (wdb w)" "env_stays (svc_step X d) w"
  shows "reachable X d (wdb (snd (run_state m w)))"
  using assms staysD(1) [OF assms(1,3)] unfolding reachable_def by (meson rtranclp_trans)

end
