(* ===== verification/Decimal.thy ===== *)
theory Decimal
  imports Prelude
begin

text \<open>
  Decimal integers as Go's \<^verbatim>\<open>strconv\<close> prints and parses them: how an
  \<^verbatim>\<open>int64\<close> becomes a Redis string and back, and how the budget handler
  reads its \<^verbatim>\<open>amount\<close> parameter. Printing and parsing are inverse on the
  64-bit range, and the parser accepts nothing outside it.
\<close>

definition digit :: "nat \<Rightarrow> char" where
  "digit d = char_of (48 + d)"

definition digit_val :: "char \<Rightarrow> nat option" where
  "digit_val c = (let v = (of_char c :: nat) in if 48 \<le> v \<and> v \<le> 57 then Some (v - 48) else None)"

fun digits :: "nat \<Rightarrow> string" where
  "digits n = (if n < 10 then [digit n] else digits (n div 10) @ [digit (n mod 10)])"

declare digits.simps [simp del]

fun parse_digits :: "nat \<Rightarrow> string \<Rightarrow> nat option" where
  "parse_digits acc [] = Some acc"
| "parse_digits acc (c # cs) =
     (case digit_val c of None \<Rightarrow> None | Some d \<Rightarrow> parse_digits (10 * acc + d) cs)"

definition int64_range :: "int \<Rightarrow> bool" where
  "int64_range i \<longleftrightarrow> - (2 ^ 63) \<le> i \<and> i < 2 ^ 63"

text \<open>\<^verbatim>\<open>strconv.FormatInt(i, 10)\<close>\<close>

definition Itoa :: "int \<Rightarrow> string" where
  "Itoa i = (if i < 0 then CHR ''-'' # digits (nat (- i)) else digits (nat i))"

definition parse_uint :: "string \<Rightarrow> nat option" where
  "parse_uint s = (if s = [] then None else parse_digits 0 s)"

text \<open>\<^verbatim>\<open>strconv.ParseInt(s, 10, 64)\<close>: an optional sign, digits, and a range check.\<close>

definition ParseInt :: "string \<Rightarrow> int option" where
  "ParseInt s =
     (let (neg, ds) = (case s of [] \<Rightarrow> (False, [])
          | c # cs \<Rightarrow> if c = CHR ''-'' then (True, cs) else if c = CHR ''+'' then (False, cs) else (False, s))
      in case parse_uint ds of
           None \<Rightarrow> None
         | Some n \<Rightarrow> (let i = (if neg then - int n else int n) in if int64_range i then Some i else None))"

lemma digit_val_digit [simp]: "d < 10 \<Longrightarrow> digit_val (digit d) = Some d"
  by (simp add: digit_val_def digit_def)

lemma digit_not_sign [simp]: "d < 10 \<Longrightarrow> digit d \<noteq> CHR ''-''" "d < 10 \<Longrightarrow> digit d \<noteq> CHR ''+''"
  "d < 10 \<Longrightarrow> digit d \<noteq> CHR ''/''"
proof -
  assume d: "d < 10"
  have v: "digit_val (CHR ''-'') = None" "digit_val (CHR ''+'') = None" "digit_val (CHR ''/'') = None"
    by (simp_all add: digit_val_def)
  from d have "digit_val (digit d) = Some d" by simp
  with v show "digit d \<noteq> CHR ''-''" "digit d \<noteq> CHR ''+''" "digit d \<noteq> CHR ''/''" by force+
qed

lemma parse_digits_append:
  "parse_digits a (xs @ ys) = (case parse_digits a xs of None \<Rightarrow> None | Some b \<Rightarrow> parse_digits b ys)"
  by (induction xs arbitrary: a) (auto split: option.split)

lemma digits_small: "n < 10 \<Longrightarrow> digits n = [digit n]"
  by (subst digits.simps) simp

lemma digits_large: "\<not> n < 10 \<Longrightarrow> digits n = digits (n div 10) @ [digit (n mod 10)]"
  by (subst digits.simps) simp

lemma parse_digits_digits: "parse_digits 0 (digits m) = Some m"
proof (induction m rule: less_induct)
  case (less m)
  show ?case
  proof (cases "m < 10")
    case False
    with less [of "m div 10"] show ?thesis by (simp add: digits_large parse_digits_append)
  qed (simp add: digits_small)
qed

lemma digits_nonempty [simp]: "digits n \<noteq> []"
  by (cases "n < 10") (simp_all add: digits_small digits_large)

lemma digits_set: "c \<in> set (digits m) \<Longrightarrow> \<exists>d < 10. c = digit d"
proof (induction m rule: less_induct)
  case (less m)
  show ?case
  proof (cases "m < 10")
    case False
    with less.prems have "c \<in> set (digits (m div 10)) \<or> c = digit (m mod 10)"
      unfolding digits_large [OF False] by auto
    moreover have "m div 10 < m" "m mod 10 < 10" using False by simp_all
    ultimately show ?thesis using less.IH [of "m div 10"] by blast
  qed (use less.prems in \<open>auto simp: digits_small\<close>)
qed

lemma digits_hd: "\<exists>c cs. digits n = c # cs \<and> c \<noteq> CHR ''-'' \<and> c \<noteq> CHR ''+''"
  using digits_set [of "hd (digits n)" n] digit_not_sign
  by (cases "digits n") auto

lemma ParseInt_Itoa:
  assumes "int64_range i"
  shows "ParseInt (Itoa i) = Some i"
proof (cases "i < 0")
  case True
  with assms show ?thesis
    by (simp add: Itoa_def ParseInt_def parse_uint_def parse_digits_digits)
next
  case False
  obtain c cs where "digits (nat i) = c # cs" "c \<noteq> CHR ''-''" "c \<noteq> CHR ''+''"
    using digits_hd by blast
  moreover from this have "parse_uint (c # cs) = Some (nat i)"
    by (metis list.distinct(1) parse_digits_digits parse_uint_def)
  ultimately show ?thesis using False assms by (simp add: Itoa_def ParseInt_def)
qed

lemma ParseInt_range: "ParseInt s = Some i \<Longrightarrow> int64_range i"
  by (auto simp: ParseInt_def Let_def split: option.splits if_splits prod.splits)

end
