(* ===== verification/Redis_Reference.thy ===== *)
theory Redis_Reference
  imports Redis Decimal
begin

text \<open>
  One store that satisfies the laws of theory \<open>Redis\<close>: an association list
  of keys with a value and a deadline, and a clock. It is used for nothing
  but witnesses: it shows that the laws can hold together, and concrete runs
  of the service are evaluated on it. Its distance is the taxicab distance
  in degrees times 100, its floats print as fractions.
\<close>

datatype mval = MStr string | MHash "(string \<times> string) list" | MGeo "(string \<times> (rat \<times> rat)) list"

record mem_db =
  kv :: "(string \<times> (mval \<times> int option)) list"
  time :: int

fun rval_of :: "mval \<Rightarrow> rval" where
  "rval_of (MStr s) = RStr s"
| "rval_of (MHash h) = RHash (map_of h)"
| "rval_of (MGeo g) = RGeo (map_of g)"

definition alive :: "int \<Rightarrow> int option \<Rightarrow> bool" where
  "alive now dl = (case dl of None \<Rightarrow> True | Some t \<Rightarrow> now < t)"

definition mem_find :: "mem_db \<Rightarrow> string \<Rightarrow> (mval \<times> int option) option" where
  "mem_find db k = (case map_of (kv db) k of
     None \<Rightarrow> None | Some (v, dl) \<Rightarrow> if alive (time db) dl then Some (v, dl) else None)"

definition mem_view :: "mem_db \<Rightarrow> string \<Rightarrow> (rval \<times> int option) option" where
  "mem_view db k = map_option (\<lambda>(v, dl). (rval_of v, dl)) (mem_find db k)"

definition mem_put :: "string \<Rightarrow> mval \<Rightarrow> int option \<Rightarrow> mem_db \<Rightarrow> mem_db" where
  "mem_put k v dl db = db\<lparr>kv := AList.update k (v, dl) (kv db)\<rparr>"

definition mem_rem :: "string \<Rightarrow> mem_db \<Rightarrow> mem_db" where
  "mem_rem k db = db\<lparr>kv := AList.delete k (kv db)\<rparr>"

definition mem_km :: "rat \<times> rat \<Rightarrow> rat \<times> rat \<Rightarrow> rat" where
  "mem_km p q = 100 * (\<bar>fst p - fst q\<bar> + \<bar>snd p - snd q\<bar>)"

definition mem_format :: "float64 \<Rightarrow> string" where
  "mem_format x = (case x of
     Fin q \<Rightarrow> (case quotient_of q of (n, d) \<Rightarrow> Itoa n @ ''/'' @ Itoa d)
   | PosInf \<Rightarrow> ''+Inf'' | NegInf \<Rightarrow> ''-Inf'' | NaN \<Rightarrow> ''NaN'')"

fun mem_int :: "string \<Rightarrow> int option" where
  "mem_int [] = None"
| "mem_int (c # cs) = (if c = CHR ''-'' then map_option (\<lambda>n. - int n) (parse_uint cs)
     else map_option int (parse_uint (c # cs)))"

definition mem_parse :: "string \<Rightarrow> float64 option" where
  "mem_parse s = (if s = ''+Inf'' then Some PosInf else if s = ''-Inf'' then Some NegInf
     else if s = ''NaN'' then Some NaN
     else case (mem_int (takeWhile (\<lambda>c. c \<noteq> CHR ''/'') s),
                mem_int (tl (dropWhile (\<lambda>c. c \<noteq> CHR ''/'') s))) of
       (Some n, Some d) \<Rightarrow> Some (Fin (Fract n d)) | _ \<Rightarrow> None)"

definition mem_get :: "string \<Rightarrow> mem_db \<Rightarrow> rerr + string option" where
  "mem_get k db = (case mem_find db k of None \<Rightarrow> Inr None
     | Some (MStr s, _) \<Rightarrow> Inr (Some s) | Some _ \<Rightarrow> Inl WrongType)"

definition mem_mget :: "string list \<Rightarrow> mem_db \<Rightarrow> rerr + string option list" where
  "mem_mget ks db = Inr (map (\<lambda>k. case mem_find db k of Some (MStr s, _) \<Rightarrow> Some s | _ \<Rightarrow> None) ks)"

definition mem_exists :: "string \<Rightarrow> mem_db \<Rightarrow> rerr + int" where
  "mem_exists k db = Inr (case mem_find db k of None \<Rightarrow> 0 | Some _ \<Rightarrow> 1)"

definition mem_hget :: "string \<Rightarrow> string \<Rightarrow> mem_db \<Rightarrow> rerr + string option" where
  "mem_hget k f db = (case mem_find db k of None \<Rightarrow> Inr None
     | Some (MHash h, _) \<Rightarrow> Inr (map_of h f) | Some _ \<Rightarrow> Inl WrongType)"

definition mem_hgetall :: "string \<Rightarrow> mem_db \<Rightarrow> rerr + (string \<times> string) list" where
  "mem_hgetall k db = (case mem_find db k of None \<Rightarrow> Inr []
     | Some (MHash h, _) \<Rightarrow> Inr h | Some _ \<Rightarrow> Inl WrongType)"

definition mem_geopos :: "string \<Rightarrow> string \<Rightarrow> mem_db \<Rightarrow> rerr + (rat \<times> rat) option" where
  "mem_geopos k m db = (case mem_find db k of None \<Rightarrow> Inr None
     | Some (MGeo g, _) \<Rightarrow> Inr (map_of g m) | Some _ \<Rightarrow> Inl WrongType)"

definition mem_hits :: "rat \<times> rat \<Rightarrow> rat \<Rightarrow> (string \<times> (rat \<times> rat)) list
    \<Rightarrow> (string \<times> (rat \<times> rat) \<times> rat) list" where
  "mem_hits c rad g = sort_key (\<lambda>(m, p, d). mem_km c p)
     (map (\<lambda>(m, p). (m, p, mem_km c p)) (filter (\<lambda>(m, p). mem_km c p \<le> rad) (AList.clearjunk g)))"

definition mem_georadius :: "string \<Rightarrow> float64 \<Rightarrow> float64 \<Rightarrow> float64 \<Rightarrow> mem_db
    \<Rightarrow> rerr + (string \<times> (rat \<times> rat) \<times> rat) list" where
  "mem_georadius k lon lat rad db =
     (if \<not> geo_range (fin lon) (fin lat) then Inl InvalidGeo
      else case mem_find db k of None \<Rightarrow> Inr []
        | Some (MGeo g, _) \<Rightarrow> Inr (mem_hits (fin lon, fin lat) (fin rad) g)
        | Some _ \<Rightarrow> Inl WrongType)"

definition mem_geodist :: "string \<Rightarrow> string \<Rightarrow> string \<Rightarrow> mem_db \<Rightarrow> rerr + rat option" where
  "mem_geodist k a b db = (case mem_find db k of None \<Rightarrow> Inr None
     | Some (MGeo g, _) \<Rightarrow> Inr (case (map_of g a, map_of g b) of
           (Some p, Some q) \<Rightarrow> Some (mem_km p q) | _ \<Rightarrow> None)
     | Some _ \<Rightarrow> Inl WrongType)"

definition mem_scan :: "int \<Rightarrow> string \<Rightarrow> int \<Rightarrow> mem_db \<Rightarrow> rerr + (string list \<times> int)" where
  "mem_scan c pat count db =
     Inr (filter (\<lambda>k. prefix (butlast pat) k \<and> mem_find db k \<noteq> None) (map fst (kv db)), 0)"

definition mem_set :: "string \<Rightarrow> string \<Rightarrow> expiry \<Rightarrow> (mem_db, rerr + unit) state" where
  "mem_set k v e = State (\<lambda>db. (Inr (), mem_put k (MStr v) (deadline (time db) e) db))"

definition mem_setnx :: "string \<Rightarrow> string \<Rightarrow> expiry \<Rightarrow> (mem_db, rerr + bool) state" where
  "mem_setnx k v e = State (\<lambda>db. case mem_find db k of
     None \<Rightarrow> (Inr True, mem_put k (MStr v) (deadline (time db) e) db)
   | Some _ \<Rightarrow> (Inr False, db))"

definition mem_del :: "string \<Rightarrow> (mem_db, rerr + int) state" where
  "mem_del k = State (\<lambda>db. (Inr (case mem_find db k of None \<Rightarrow> 0 | Some _ \<Rightarrow> 1), mem_rem k db))"

definition mem_expire :: "string \<Rightarrow> int \<Rightarrow> (mem_db, rerr + int) state" where
  "mem_expire k s = State (\<lambda>db. case mem_find db k of
     None \<Rightarrow> (Inr 0, db)
   | Some (v, _) \<Rightarrow> (Inr 1, mem_put k v (deadline (time db) (ExSec s)) db))"

definition mem_hset :: "string \<Rightarrow> (string \<times> string) list \<Rightarrow> (mem_db, rerr + unit) state" where
  "mem_hset k fvs = State (\<lambda>db. case mem_find db k of
     None \<Rightarrow> (Inr (), mem_put k (MHash (rev fvs)) None db)
   | Some (MHash h, dl) \<Rightarrow> (Inr (), mem_put k (MHash (AList.merge h (rev fvs))) dl db)
   | Some _ \<Rightarrow> (Inl WrongType, db))"

definition mem_geoadd :: "string \<Rightarrow> string \<Rightarrow> float64 \<Rightarrow> float64 \<Rightarrow> (mem_db, rerr + unit) state" where
  "mem_geoadd k m lon lat = State (\<lambda>db.
     if \<not> geo_range (fin lon) (fin lat) then (Inl InvalidGeo, db)
     else case mem_find db k of
         None \<Rightarrow> (Inr (), mem_put k (MGeo [(m, (fin lon, fin lat))]) None db)
       | Some (MGeo g, dl) \<Rightarrow> (Inr (), mem_put k (MGeo (AList.update m (fin lon, fin lat) g)) dl db)
       | Some _ \<Rightarrow> (Inl WrongType, db))"

definition mem_zrem :: "string \<Rightarrow> string \<Rightarrow> (mem_db, rerr + int) state" where
  "mem_zrem k m = State (\<lambda>db. case mem_find db k of
     None \<Rightarrow> (Inr 0, db)
   | Some (MGeo g, dl) \<Rightarrow> (Inr (case map_of g m of None \<Rightarrow> 0 | Some _ \<Rightarrow> 1),
       (if AList.delete m g = [] then mem_rem k db else mem_put k (MGeo (AList.delete m g)) dl db))
   | Some _ \<Rightarrow> (Inl WrongType, db))"

definition mem :: "mem_db ext" where
  "mem = \<lparr>clock = time, view = mem_view,
     dur_expiry = (\<lambda>d. if d \<le> 0 then NoExpiry else ExSec (d div Second)),
     dur_secs = (\<lambda>d. d div Second),
     geo_cell = (\<lambda>p. p), geo_km = mem_km, geo_round = (\<lambda>d. d),
     FormatFloat = mem_format, ParseFloat = mem_parse,
     r_get = mem_get, r_mget = mem_mget, r_exists = mem_exists, r_hget = mem_hget,
     r_hgetall = mem_hgetall, r_geopos = mem_geopos, r_georadius = mem_georadius,
     r_geodist = mem_geodist, r_scan = mem_scan,
     r_set = mem_set, r_setnx = mem_setnx, r_del = mem_del, r_expire = mem_expire,
     r_hset = mem_hset, r_geoadd = mem_geoadd, r_zrem = mem_zrem\<rparr>"

lemma mem_simps [simp]:
  "clock mem = time" "view mem = mem_view"
  "dur_expiry mem = (\<lambda>d. if d \<le> 0 then NoExpiry else ExSec (d div Second))"
  "dur_secs mem = (\<lambda>d. d div Second)"
  "geo_cell mem = (\<lambda>p. p)" "geo_km mem = mem_km" "geo_round mem = (\<lambda>d. d)"
  "FormatFloat mem = mem_format" "ParseFloat mem = mem_parse"
  "r_get mem = mem_get" "r_mget mem = mem_mget" "r_exists mem = mem_exists" "r_hget mem = mem_hget"
  "r_hgetall mem = mem_hgetall" "r_geopos mem = mem_geopos" "r_georadius mem = mem_georadius"
  "r_geodist mem = mem_geodist" "r_scan mem = mem_scan"
  "r_set mem = mem_set" "r_setnx mem = mem_setnx" "r_del mem = mem_del" "r_expire mem = mem_expire"
  "r_hset mem = mem_hset" "r_geoadd mem = mem_geoadd" "r_zrem mem = mem_zrem"
  by (simp_all add: mem_def)

section \<open>The laws hold\<close>

lemma mem_put_time [simp]: "time (mem_put k v dl db) = time db"
  by (simp add: mem_put_def)

lemma mem_rem_time [simp]: "time (mem_rem k db) = time db"
  by (simp add: mem_rem_def)

lemma mem_find_rem: "mem_find (mem_rem k db) = (mem_find db)(k := None)"
  by (rule ext) (simp add: mem_find_def mem_rem_def delete_conv' split: option.split)

lemma mem_find_put:
  "alive (time db) dl \<Longrightarrow> mem_find (mem_put k v dl db) = (mem_find db)(k \<mapsto> (v, dl))"
  by (rule ext) (simp add: mem_find_def mem_put_def update_conv' split: option.split)

lemma mem_view_rem: "mem_view (mem_rem k db) = (mem_view db)(k := None)"
  by (rule ext) (simp add: mem_view_def mem_find_rem)

lemma mem_view_put:
  "alive (time db) dl \<Longrightarrow> mem_view (mem_put k v dl db) = (mem_view db)(k \<mapsto> (rval_of v, dl))"
  by (rule ext) (simp add: mem_view_def mem_find_put)

lemma mem_find_alive: "mem_find db k = Some (v, dl) \<Longrightarrow> alive (time db) dl"
  by (auto simp: mem_find_def split: option.splits if_splits)

lemma alive_None [simp]: "alive now None"
  by (simp add: alive_def)

lemma alive_Some [simp]: "alive now (Some t) \<longleftrightarrow> now < t"
  by (simp add: alive_def)

lemma mem_view_put_same:
  "mem_find db k = Some (v, dl) \<Longrightarrow> mem_view (mem_put k v' dl db) = (mem_view db)(k \<mapsto> (rval_of v', dl))"
  by (rule mem_view_put) (rule mem_find_alive)

lemma alive_deadline [simp]: "expiry_ok e \<Longrightarrow> alive now (deadline now e)"
  by (cases e) (simp_all add: alive_def)

lemma mem_view_eq_None [simp]: "mem_view db k = None \<longleftrightarrow> mem_find db k = None"
  by (simp add: mem_view_def)

lemma mem_int_Itoa: "mem_int (Itoa i) = Some i"
proof (cases "i < 0")
  case True
  then show ?thesis by (simp add: Itoa_def parse_uint_def parse_digits_digits)
next
  case False
  obtain c cs where c: "digits (nat i) = c # cs" "c \<noteq> CHR ''-''" using digits_hd by blast
  moreover from this have "parse_uint (c # cs) = Some (nat i)"
    by (metis list.distinct(1) parse_digits_digits parse_uint_def)
  ultimately show ?thesis using False by (simp add: Itoa_def)
qed

lemma Itoa_no_slash: "c \<in> set (Itoa i) \<Longrightarrow> c \<noteq> CHR ''/''"
  by (auto simp: Itoa_def split: if_splits dest!: digits_set dest: digit_not_sign(3) [THEN not_sym])

lemma mem_parse_format: "mem_parse (mem_format (Fin q)) = Some (Fin q)"
proof -
  obtain n d where nd: "quotient_of q = (n, d)" by fastforce
  let ?s = "Itoa n @ ''/'' @ Itoa d"
  have "CHR ''/'' \<in> set ?s" by simp
  moreover have "CHR ''/'' \<notin> set ''+Inf''" "CHR ''/'' \<notin> set ''-Inf''" "CHR ''/'' \<notin> set ''NaN''" by simp_all
  ultimately have "?s \<noteq> ''+Inf''" "?s \<noteq> ''-Inf''" "?s \<noteq> ''NaN''" by metis+
  moreover have "takeWhile (\<lambda>c. c \<noteq> CHR ''/'') ?s = Itoa n"
    by (simp add: takeWhile_append2 Itoa_no_slash)
  moreover have "dropWhile (\<lambda>c. c \<noteq> CHR ''/'') ?s = ''/'' @ Itoa d"
    by (simp add: dropWhile_append2 Itoa_no_slash)
  moreover have "Fract n d = q" using nd by (rule quotient_of_div [unfolded Fract_of_int_quotient [symmetric], symmetric])
  ultimately show ?thesis by (simp add: mem_format_def mem_parse_def nd mem_int_Itoa)
qed

lemma set_mem_hits:
  "set (mem_hits c rad g) = {(m, p, mem_km c p) | m p. map_of g m = Some p \<and> mem_km c p \<le> rad}"
proof -
  have g: "(m, p) \<in> set (AList.clearjunk g) \<longleftrightarrow> map_of g m = Some p" for m p
    by (metis distinct_clearjunk map_of_clearjunk map_of_eq_Some_iff)
  show ?thesis by (auto simp: mem_hits_def g image_iff)
qed

lemma distinct_mem_hits: "distinct (map fst (mem_hits c rad g))"
proof -
  let ?xs = "map (\<lambda>(m, p). (m, p, mem_km c p)) (filter (\<lambda>(m, p). mem_km c p \<le> rad) (AList.clearjunk g))"
  have "map fst ?xs = map fst (filter (\<lambda>(m, p). mem_km c p \<le> rad) (AList.clearjunk g))"
    by (simp add: comp_def case_prod_unfold)
  moreover have "distinct \<dots>" by (simp add: distinct_map_filter)
  ultimately have "distinct (map fst ?xs)" by (simp only:)
  then have "distinct ?xs \<and> inj_on fst (set ?xs)" by (simp only: distinct_map)
  then show ?thesis by (simp only: mem_hits_def distinct_map distinct_sort set_sort)
qed

lemma sorted_mem_hits: "sorted (map (\<lambda>(m, p, d). mem_km c p) (mem_hits c rad g))"
  by (simp add: mem_hits_def)

lemmas mem_cmds = mem_get_def mem_mget_def mem_exists_def mem_hget_def mem_hgetall_def
  mem_geopos_def mem_georadius_def mem_geodist_def mem_scan_def mem_set_def mem_setnx_def
  mem_del_def mem_expire_def mem_hset_def mem_geoadd_def mem_zrem_def

lemma map_of_merge_rev: "map_of (AList.merge h (rev fvs)) = map_of h ++ map_of (rev fvs)"
  by (simp add: merge_conv')

lemma mem_geo_at_put: "alive (time db) dl \<Longrightarrow> geo_at mem (mem_put k (MGeo g) dl db) k = map_of g"
  by (simp add: geo_at_def mem_view_put)

lemma mem_zrem_geo:
  assumes "mem_view db k = None \<or> (\<exists>g dl. mem_view db k = Some (RGeo g, dl))"
  shows "geo_at mem (snd (run_state (mem_zrem k m) db)) k = (geo_at mem db k)(m := None) \<and>
    (mem_view (snd (run_state (mem_zrem k m) db)) k = None \<or>
     (\<exists>g dl. mem_view (snd (run_state (mem_zrem k m) db)) k = Some (RGeo g, dl)))"
proof (cases "mem_find db k")
  case None
  then show ?thesis by (simp add: mem_zrem_def geo_at_def mem_view_def)
next
  case (Some vd)
  then obtain v dl where f: "mem_find db k = Some (v, dl)" by fastforce
  with assms obtain g where g: "v = MGeo g" by (cases v) (auto simp: mem_view_def)
  have a: "alive (time db) dl" using f by (rule mem_find_alive)
  have "map_of (AList.delete m g) = (map_of g)(m := None)" by (rule delete_conv')
  then show ?thesis
    using f a by (auto simp: g mem_zrem_def geo_at_def mem_view_put mem_view_rem mem_find_rem mem_view_def [of db k])
qed

interpretation mem: redis mem
proof unfold_locales
  show "view mem db k = Some (rv, Some t) \<Longrightarrow> clock mem db < t" for db k rv t
    by (auto simp: mem_view_def alive_def dest: mem_find_alive)
next
  show "\<exists>n pages. scan_iter mem db (p @ ''*'') 100 n 0 = Some pages \<and>
      set (concat pages) = {k. prefix p k \<and> view mem db k \<noteq> None}" for p db
    by (rule exI [of _ 1])
      (force simp: mem_scan_def mem_find_def map_of_eq_None_iff split: option.splits)
next
  show "view mem db k = Some (RHash h, dl) \<Longrightarrow> \<exists>fvs. r_hgetall mem k db = Inr fvs \<and> map_of fvs = h" for db k h dl
    by (auto simp: mem_hgetall_def mem_view_def elim!: rval_of.elims)
next
  show "view mem db k = None \<or> (\<exists>g dl. view mem db k = Some (RGeo g, dl)) \<Longrightarrow>
    geo_at mem (snd (run_state (r_zrem mem k m) db)) k = (geo_at mem db k)(m := None) \<and>
    (view mem (snd (run_state (r_zrem mem k m) db)) k = None \<or>
     (\<exists>g dl. view mem (snd (run_state (r_zrem mem k m) db)) k = Some (RGeo g, dl)))" for db k m
    using mem_zrem_geo by simp
next
  fix lon lat rad :: rat and db k g dl
  assume "geo_range lon lat" "0 < rad" "view mem db k = Some (RGeo g, dl)"
  then show "\<exists>xs. r_georadius mem k (Fin lon) (Fin lat) (Fin rad) db = Inr xs \<and>
      set xs = {(m, p, geo_round mem (geo_km mem (lon, lat) p)) | m p.
                  g m = Some p \<and> geo_km mem (lon, lat) p \<le> rad} \<and>
      distinct (map fst xs) \<and> sorted (map (\<lambda>(m, p, d). geo_km mem (lon, lat) p) xs)"
    by (auto simp: mem_georadius_def mem_view_def set_mem_hits distinct_mem_hits sorted_mem_hits
        elim!: rval_of.elims)
qed (auto simp: mem_parse_format mem_cmds mem_view_put mem_view_rem mem_view_put_same mem_view_def mem_find_put mem_find_rem case_prod_beta
      map_of_merge_rev update_conv' dest: mem_find_alive split: option.splits mval.splits if_splits)

end
