(* ===== verification/Safety.thy ===== *)
theory Safety
  imports Interleaving Redis_Reference
begin

text \<open>
  What holds in every store the service can reach, under any interleaving of
  requests, of the clock and of network faults: no driver and no rider has
  two assignments under way, no command meets a value of the wrong type, and
  the record of a request only moves forward. Theory \<open>Redis_Reference\<close>
  supplies the store on which the theorems are witnessed.
\<close>

interpretation dep: deployment mem server_dispatcher
  by (rule deployment.intro [OF mem.redis_axioms])
    (rule deployment_axioms.intro [OF well_configured_server])

section \<open>Records, read off the store\<close>

text \<open>The request has a record of that driver (rider) with a status in \<open>A\<close>.\<close>

definition assigned :: "string set \<Rightarrow> 'db ext \<Rightarrow> Dispatcher \<Rightarrow> 'db \<Rightarrow> string \<Rightarrow> string \<Rightarrow> string \<Rightarrow> bool" where
  "assigned A X d db r field i \<longleftrightarrow>
     (case hash_at X db (asg_key d r) of None \<Rightarrow> False
      | Some h \<Rightarrow> h field = Some i \<and> (case h ''status'' of None \<Rightarrow> False | Some s \<Rightarrow> s \<in> A))"

definition fields_but_status :: "(string \<rightharpoonup> string) \<Rightarrow> (string \<rightharpoonup> string)" where
  "fields_but_status h = h(''status'' := None)"

text \<open>How the record of a request may change in one atomic step.\<close>

inductive record_next :: "(string \<rightharpoonup> string) option \<Rightarrow> (string \<rightharpoonup> string) option \<Rightarrow> bool" where
  same: "record_next e e"
| expired: "record_next e None"
| created: "h ''status'' = Some AssignmentEnRoute \<Longrightarrow> record_next None (Some h)"
| moved: "h ''status'' = Some AssignmentEnRoute \<Longrightarrow> s = AssignmentArrived \<or> s = AssignmentCancelled \<Longrightarrow>
    record_next (Some h) (Some (h(''status'' \<mapsto> s)))"

context deployment
begin

lemma assigned_unique_driver:
  assumes "store_inv A X d db" "assigned A X d db r ''driver_id'' v" "assigned A X d db r' ''driver_id'' v"
  shows "r = r'"
proof -
  have "\<exists>dl. view X db (owner_key d v) = Some (RStr q, dl)" if q: "assigned A X d db q ''driver_id'' v" for q
  proof -
    from q obtain h dl s where "view X db (asg_key d q) = Some (RHash h, dl)" "h ''status'' = Some s" "s \<in> A"
        "h ''driver_id'' = Some v"
      by (auto simp: assigned_def hash_at_Some split: option.splits)
    then show ?thesis by (metis linked_recordD [OF assms(1)] option.inject)
  qed
  from this [OF assms(2)] this [OF assms(3)] show ?thesis by auto
qed

lemma assigned_unique_rider:
  assumes "store_inv A X d db" "assigned A X d db r ''rider_id'' p" "assigned A X d db r' ''rider_id'' p"
  shows "r = r'"
proof -
  have "\<exists>dl. view X db (rider_key d p) = Some (RStr q, dl)" if q: "assigned A X d db q ''rider_id'' p" for q
  proof -
    from q obtain h dl s where "view X db (asg_key d q) = Some (RHash h, dl)" "h ''status'' = Some s" "s \<in> A"
        "h ''rider_id'' = Some p"
      by (auto simp: assigned_def hash_at_Some split: option.splits)
    then show ?thesis by (metis linked_recordD [OF assms(1)] option.inject)
  qed
  from this [OF assms(2)] this [OF assms(3)] show ?thesis by auto
qed

text \<open>A step that leaves the record families alone leaves every record alone.\<close>

lemma record_next_frame:
  "view X db' (asg_key d q) = view X db (asg_key d q) \<Longrightarrow>
   record_next (hash_at X db (asg_key d q)) (hash_at X db' (asg_key d q))"
  by (simp add: hash_at_def record_next.same)

lemma record_next_status:
  assumes "hash_at X db (asg_key d r) = Some h" "h ''status'' = Some ''en_route''"
    and "view X db' (asg_key d r) = Some (status_changed X db (asg_key d r) s, dl)" "s = ''arrived'' \<or> s = ''cancelled''"
  shows "record_next (hash_at X db (asg_key d r)) (hash_at X db' (asg_key d r))"
  using assms by (auto simp: hash_at_def [of X db'] status_changed_def intro: record_next.moved)

lemma create_record:
  assumes inv: "store_inv A X d db"
  shows "record_next (hash_at X db (asg_key d q)) (hash_at X (snd (run_state (create_eval X (d_lifecycle d) a) db)) (asg_key d q))"
proof (cases "create_code X d db a = 1 \<and> q = a_RequestID a")
  case False
  then show ?thesis
    by (intro record_next_frame) (auto simp: yieldsD(2) [OF create_spec [OF inv_typed [OF inv]]])
next
  case True
  with create_facts(1) [OF inv, of a] show ?thesis
    by (auto simp: hash_at_def yieldsD(2) [OF create_spec [OF inv_typed [OF inv]]] intro: record_next.created)
qed

lemma cancel_record:
  assumes inv: "store_inv A X d db"
  shows "record_next (hash_at X db (asg_key d q)) (hash_at X (snd (run_state (cancel_eval X (d_lifecycle d) r a) db)) (asg_key d q))"
proof (cases "cancel_code X d db r a = 1 \<and> q = r")
  case False
  then show ?thesis
    by (intro record_next_frame) (auto simp: yieldsD(2) [OF cancel_spec [OF inv_typed [OF inv]]])
next
  case True
  then obtain h where "hash_at X db (asg_key d q) = Some h" "h ''status'' = Some ''en_route''"
    by (auto simp: cancel_code_def split: option.splits if_splits)
  then show ?thesis
    by (rule record_next_status [where s = "''cancelled''"]) (use True in \<open>simp_all add: yieldsD(2) [OF cancel_spec [OF inv_typed [OF inv]]]\<close>)
qed

lemma arrive_record:
  assumes inv: "store_inv A X d db"
  shows "record_next (hash_at X db (asg_key d q)) (hash_at X (snd (run_state (arrive_eval X (d_lifecycle d) a) db)) (asg_key d q))"
proof (cases "arrive_code X d db a = 1 \<and> q = a_RequestID a")
  case False
  then show ?thesis
    by (intro record_next_frame) (auto simp: yieldsD(2) [OF arrive_spec [OF inv_typed [OF inv]]])
next
  case True
  then obtain h where "hash_at X db (asg_key d q) = Some h" "h ''status'' = Some ''en_route''"
    by (auto simp: arrive_code_def split: option.splits if_splits)
  then show ?thesis
    by (rule record_next_status [where s = "''arrived''"]) (use True in \<open>simp_all add: yieldsD(2) [OF arrive_spec [OF inv_typed [OF inv]]]\<close>)
qed

lemma svc_step_record:
  assumes "svc_step X d db db'" and inv: "store_inv A X d db"
  shows "record_next (hash_at X db (asg_key d q)) (hash_at X db' (asg_key d q))"
  using assms(1) inv_typed [OF inv]
proof (cases rule: svc_step_kinds)
  case elapse
  then have "hash_at X db' (asg_key d q) = hash_at X db (asg_key d q) \<or> hash_at X db' (asg_key d q) = None"
    by (auto simp: elapses_def hash_at_def split: option.split rval.split)
  then show ?thesis by (auto intro: record_next.intros)
next
  case keeps
  then show ?thesis by (intro record_next_frame) (simp add: keeps_trips_def)
qed (simp_all add: create_record [OF inv] cancel_record [OF inv] arrive_record [OF inv])

end

end
