(* ===== verification/Outcomes.thy ===== *)
theory Outcomes
  imports Safety
begin

text \<open>
  What each operation of the dispatcher answers and leaves in the store,
  when no other request interferes and no message is lost: the abstract
  contract the operations implement over the visible keyspace.
\<close>

section \<open>Answers\<close>

definition answers :: "'db ext \<Rightarrow> ('db world, 'r) state \<Rightarrow> 'db \<Rightarrow> 'r
    \<Rightarrow> (string \<Rightarrow> (rval \<times> int option) option) \<Rightarrow> bool" where
  "answers X m db r V \<longleftrightarrow>
     (\<exists>db'. run_state m (quiet db) = (r, quiet db') \<and> view X db' = V \<and> clock X db' = clock X db)"

lemma answersI: "run_state m (quiet db) = (r, quiet db) \<Longrightarrow> V = view X db \<Longrightarrow> answers X m db r V"
  by (auto simp: answers_def)

lemma answersE:
  assumes "answers X m db r V"
  obtains db' where "run_state m (quiet db) = (r, quiet db')" "view X db' = V" "clock X db' = clock X db"
  using assms by (auto simp: answers_def)

lemma answers_call:
  assumes "yields X c db r V"
  shows "answers X (call c) db (map_err Rdb r) V"
proof -
  have "run_state (call c) (quiet db) = (map_err Rdb r, quiet (snd (run_state c db)))"
    using yieldsD(1) [OF assms] by (metis fst_conv prod.collapse run_call_quiet snd_conv)
  then show ?thesis using yieldsD(2,3) [OF assms] by (auto simp: answers_def)
qed

lemma answers_bind:
  assumes "answers X m db r V"
    and "\<And>db'. view X db' = V \<Longrightarrow> clock X db' = clock X db \<Longrightarrow> answers X (f r) db' r' V'"
  shows "answers X (State_Monad.bind m f) db r' V'"
  using assms by (fastforce simp: answers_def run_bind_split)

lemma answers_attempt:
  assumes "answers X m db (Inr x) V"
    and "\<And>db'. view X db' = V \<Longrightarrow> clock X db' = clock X db \<Longrightarrow> answers X (f x) db' r' V'"
  shows "answers X (attempt m f) db r' V'"
  using assms by (fastforce simp: answers_def run_attempt)

lemma answers_attempt_same:
  assumes "run_state m (quiet db) = (Inr x, quiet db)" "answers X (f x) db r V"
  shows "answers X (attempt m f) db r V"
  using assms by (simp add: answers_def run_attempt)

lemma answers_bind_same:
  assumes "run_state m (quiet db) = (x, quiet db)" "answers X (f x) db r V"
  shows "answers X (State_Monad.bind m f) db r V"
  using assms by (simp add: answers_def run_bind_split)

lemma answers_attempt_err:
  assumes "answers X m db (Inl e) V"
  shows "answers X (attempt m f) db (Inl e) V"
  using assms by (auto simp: answers_def run_attempt)

lemma answers_read:
  "answers X (f (map_err Rdb (g db))) db r V \<Longrightarrow> answers X (State_Monad.bind (call (rd g)) f) db r V"
  by (simp add: answers_def run_bind_split run_call_quiet)

lemma answers_ok: "r = Inr x \<Longrightarrow> V = view X db \<Longrightarrow> answers X (ok x) db r V"
  by (rule answersI) simp_all

lemma answers_fail: "r = Inl e \<Longrightarrow> V = view X db \<Longrightarrow> answers X (fail e) db r V"
  by (rule answersI) simp_all

lemma answers_return: "r = x \<Longrightarrow> V = view X db \<Longrightarrow> answers X (State_Monad.return x) db r V"
  by (rule answersI) simp_all

section \<open>Reading an assignment\<close>

definition field :: "(string \<rightharpoonup> string) \<Rightarrow> string \<Rightarrow> string" where
  "field h f = (case h f of None \<Rightarrow> [] | Some s \<Rightarrow> s)"

definition assignment_of :: "'db ext \<Rightarrow> (string \<rightharpoonup> string) \<Rightarrow> Assignment" where
  "assignment_of X h = \<lparr>a_RequestID = field h ''request_id'', a_RiderID = field h ''rider_id'',
     a_DriverID = field h ''driver_id'',
     a_PickupLongitude = the (ParseFloat X (field h ''pickup_longitude'')),
     a_PickupLatitude = the (ParseFloat X (field h ''pickup_latitude'')),
     a_Status = field h ''status''\<rparr>"

lemma assignment_of_simps [simp]:
  "a_RequestID (assignment_of X h) = field h ''request_id''" "a_RiderID (assignment_of X h) = field h ''rider_id''"
  "a_DriverID (assignment_of X h) = field h ''driver_id''" "a_Status (assignment_of X h) = field h ''status''"
  by (simp_all add: assignment_of_def)

lemma record_fields:
  assumes "record_ok X r h"
  shows "field h ''request_id'' = r" "h ''rider_id'' = Some (field h ''rider_id'')"
    "h ''driver_id'' = Some (field h ''driver_id'')" "h ''status'' = Some (field h ''status'')"
    "active_status (h ''status'') \<or> h ''status'' = Some ''cancelled''" "r \<noteq> []"
  using assms by (auto simp: record_ok_def field_def active_status_def)

definition stored :: "'db ext \<Rightarrow> Dispatcher \<Rightarrow> 'db \<Rightarrow> string \<Rightarrow> Assignment option" where
  "stored X d db r = map_option (assignment_of X) (hash_at X db (asg_key d r))"

definition active_trip :: "'db ext \<Rightarrow> Dispatcher \<Rightarrow> 'db \<Rightarrow> string \<Rightarrow> Assignment option" where
  "active_trip X d db p = (case str_at X db (rider_key d p) of None \<Rightarrow> None | Some r \<Rightarrow> stored X d db r)"

context deployment
begin

lemma record_at: "store_inv A X d db \<Longrightarrow> hash_at X db (asg_key d r) = Some h \<Longrightarrow> record_ok X r h"
  by (auto simp: hash_at_Some dest: recordD)

lemma run_lc_get:
  assumes inv: "store_inv A X d db"
  shows "run_state (lc_get X (d_lifecycle d) r) (quiet db) =
    (case stored X d db r of None \<Rightarrow> Inl (Lif ErrAssignmentNotFound) | Some a \<Rightarrow> Inr a, quiet db)"
proof (rule holds_hashE [OF typedD(1) [OF inv_typed [OF inv], of r]])
  assume "view X db (asg_key d r) = None"
  then show ?thesis
    by (simp add: lc_get_def run_attempt run_call_quiet hgetall_none stored_def hash_at_def)
next
  fix h dl assume h: "view X db (asg_key d r) = Some (RHash h, dl)"
  obtain fvs where f: "r_hgetall X (asg_key d r) db = Inr fvs" "map_of fvs = h" using hgetall_hash [OF h] by blast
  note rec = recordD [OF inv h]
  then have ne: "fvs \<noteq> []" using f by (auto simp: record_ok_def)
  have hf: "hash_field fvs = field h" using f(2) by (auto simp: hash_field_def field_def)
  from rec have "ParseFloat X (field h ''pickup_longitude'') \<noteq> None" "ParseFloat X (field h ''pickup_latitude'') \<noteq> None"
    by (auto simp: record_ok_def field_def)
  with f ne h show ?thesis
    by (auto simp: lc_get_def run_attempt run_call_quiet hf stored_def hash_at_def assignment_of_def)
qed

lemma active_trip_Some:
  assumes inv: "store_inv A X d db" and r: "str_at X db (rider_key d p) = Some r"
  obtains h where "hash_at X db (asg_key d r) = Some h" "active_trip X d db p = Some (assignment_of X h)"
    "active_status (h ''status'')" "field h ''rider_id'' = p"
proof -
  from r obtain dl where "view X db (rider_key d p) = Some (RStr r, dl)" by (auto simp: str_at_Some)
  from linked_riderD [OF inv this] obtain h where h: "view X db (asg_key d r) = Some (RHash h, dl)"
      "h ''rider_id'' = Some p" "active_status (h ''status'')" by blast
  with r show ?thesis by (intro that [of h]) (auto simp: hash_at_def active_trip_def stored_def field_def)
qed

lemma run_lc_active:
  assumes inv: "store_inv A X d db"
  shows "run_state (lc_active X (d_lifecycle d) p) (quiet db) = (Inr (active_trip X d db p), quiet db)"
proof (cases "str_at X db (rider_key d p)")
  case None
  then show ?thesis using typedD(2) [OF inv_typed [OF inv]]
    by (simp add: lc_active_def run_attempt run_call_quiet get_typed active_trip_def)
next
  case (Some r)
  from active_trip_Some [OF inv Some] obtain h where h: "hash_at X db (asg_key d r) = Some h"
      "active_trip X d db p = Some (assignment_of X h)" "active_status (h ''status'')" by blast
  then have "field h ''status'' = ''en_route'' \<or> field h ''status'' = ''arrived''"
    by (auto simp: active_status_def field_def)
  with Some h typedD(2) [OF inv_typed [OF inv]] show ?thesis
    by (auto simp: lc_active_def run_attempt run_bind_split run_call_quiet get_typed run_lc_get [OF inv] stored_def)
qed

lemma rider_engaged_iff: "store_inv A X d db \<Longrightarrow> rider_engaged X d db p \<longleftrightarrow> active_trip X d db p \<noteq> None"
proof (cases "str_at X db (rider_key d p)")
  case None
  then show ?thesis by (simp add: rider_engaged_def active_trip_def)
next
  case (Some r)
  assume "store_inv A X d db"
  then show ?thesis by (rule active_trip_Some [OF _ Some]) (simp add: rider_engaged_def Some)
qed

end

section \<open>Cancellation and arrival\<close>

text \<open>The deadline of a key set now with a time-to-live.\<close>

definition until :: "'db ext \<Rightarrow> 'db \<Rightarrow> int \<Rightarrow> int option" where
  "until X db ttl = Some (clock X db + 1000 * (ttl div Second))"

definition trip_cancel_answer :: "'db ext \<Rightarrow> Dispatcher \<Rightarrow> 'db \<Rightarrow> string \<Rightarrow> err + Assignment" where
  "trip_cancel_answer X d db r =
     (case stored X d db r of
        None \<Rightarrow> Inl (Lif ErrAssignmentNotFound)
      | Some a \<Rightarrow>
          if a_Status a \<noteq> AssignmentEnRoute then Inl (Lif ErrAssignmentStateConflict)
          else if str_at X db (lock_key d (a_DriverID a)) \<in> {None, Some r}
          then Inr (a\<lparr>a_Status := AssignmentCancelled\<rparr>)
          else Inl (Lif ErrDriverOwnershipConflict))"

definition cancel_answer :: "'db ext \<Rightarrow> Dispatcher \<Rightarrow> 'db \<Rightarrow> string \<Rightarrow> err + Assignment" where
  "cancel_answer X d db r =
     (if TrimSpace r = [] then Inl (Plain ''id is required'') else trip_cancel_answer X d db r)"

text \<open>The store after a trip is cancelled with that answer.\<close>

definition after_cancel :: "'db ext \<Rightarrow> Dispatcher \<Rightarrow> 'db \<Rightarrow> string \<Rightarrow> err + Assignment
    \<Rightarrow> string \<Rightarrow> (rval \<times> int option) option" where
  "after_cancel X d db r answer =
     (case answer of
        Inl _ \<Rightarrow> view X db
      | Inr a \<Rightarrow> (\<lambda>k.
          if k = asg_key d r then Some (status_changed X db k AssignmentCancelled, until X db (lc_assignmentTTL (d_lifecycle d)))
          else if k = owner_key d (a_DriverID a) \<or> k = lock_key d (a_DriverID a) \<or> k = rider_key d (a_RiderID a) then None
          else if k = stat_key d (a_DriverID a) \<and> str_at X db k = Some StatusBusy
          then Some (RStr StatusAvailable, until X db (lc_driverStatusTTL (d_lifecycle d)))
          else view X db k))"

definition cancel_effect :: "'db ext \<Rightarrow> Dispatcher \<Rightarrow> 'db \<Rightarrow> string \<Rightarrow> string \<Rightarrow> (rval \<times> int option) option" where
  "cancel_effect X d db r = after_cancel X d db r (cancel_answer X d db r)"

definition arrive_answer :: "'db ext \<Rightarrow> Dispatcher \<Rightarrow> 'db \<Rightarrow> string \<Rightarrow> err + Assignment" where
  "arrive_answer X d db r =
     (if TrimSpace r = [] then Inl (Plain ''id is required'')
      else case stored X d db r of
          None \<Rightarrow> Inl (Lif ErrAssignmentNotFound)
        | Some a \<Rightarrow>
            if a_Status a \<noteq> AssignmentEnRoute then Inl (Lif ErrAssignmentStateConflict)
            else if TrimSpace (a_DriverID a) = [] then Inl (Geo ErrInvalidLocationID)
            else case geo_at X db (geo_key d) (a_DriverID a) of
                None \<Rightarrow> Inl (Geo ErrLocationNotFound)
              | Some (lon, lat) \<Rightarrow>
                  if too_far (Fin lon) (Fin lat) (a_PickupLongitude a) (a_PickupLatitude a)
                       (lc_arrivalThresholdKm (d_lifecycle d)) then Inl (Lif ErrDriverTooFar)
                  else if str_at X db (stat_key d (a_DriverID a)) \<noteq> Some StatusBusy
                  then Inl (Lif ErrAssignmentStateConflict)
                  else Inr (a\<lparr>a_Status := AssignmentArrived\<rparr>))"

definition arrive_effect :: "'db ext \<Rightarrow> Dispatcher \<Rightarrow> 'db \<Rightarrow> string \<Rightarrow> string \<Rightarrow> (rval \<times> int option) option" where
  "arrive_effect X d db r =
     (let ttl = until X db (lc_assignmentTTL (d_lifecycle d)) in
      case arrive_answer X d db r of
        Inl _ \<Rightarrow> view X db
      | Inr a \<Rightarrow> (view X db)(asg_key d r \<mapsto> (status_changed X db (asg_key d r) AssignmentArrived, ttl),
          rider_key d (a_RiderID a) \<mapsto> (RStr r, ttl), owner_key d (a_DriverID a) \<mapsto> (RStr r, ttl),
          stat_key d (a_DriverID a) \<mapsto> (RStr StatusBusy, until X db (lc_driverStatusTTL (d_lifecycle d)))))"

context deployment
begin

text \<open>The keys of an active record, read off the store.\<close>

lemma live_keys:
  assumes inv: "store_inv A X d db" and h: "hash_at X db (asg_key d r) = Some h"
    and s: "field h ''status'' \<in> A"
  shows "str_at X db (rider_key d (field h ''rider_id'')) = Some r"
    "str_at X db (owner_key d (field h ''driver_id'')) = Some r"
proof -
  note rec = record_fields [OF record_at [OF inv h]]
  from h obtain dl where "view X db (asg_key d r) = Some (RHash h, dl)" by (auto simp: hash_at_Some)
  from linked_recordD [OF inv this rec(4) s] obtain p v where "h ''rider_id'' = Some p" "h ''driver_id'' = Some v"
      "view X db (rider_key d p) = Some (RStr r, dl)" "view X db (owner_key d v) = Some (RStr r, dl)" by blast
  then show "str_at X db (rider_key d (field h ''rider_id'')) = Some r"
    "str_at X db (owner_key d (field h ''driver_id'')) = Some r" by (auto simp: field_def str_at_def)
qed

lemma lc_cancel_answers:
  assumes inv: "store_inv A X d db" and A: "''en_route'' \<in> A"
  shows "answers X (lc_cancel X (d_lifecycle d) r) db (trip_cancel_answer X d db r)
    (after_cancel X d db r (trip_cancel_answer X d db r))"
proof (cases "\<forall>a. stored X d db r = Some a \<longrightarrow> a_Status a \<noteq> ''en_route''")
  case True
  then show ?thesis
    by (intro answersI)
      (auto simp: lc_cancel_def run_attempt run_lc_get [OF inv] after_cancel_def trip_cancel_answer_def split: option.split)
next
  case False
  then obtain h where h: "hash_at X db (asg_key d r) = Some h" "field h ''status'' = ''en_route''"
    by (auto simp: stored_def)
  let ?a = "assignment_of X h" and ?v = "field h ''driver_id''" and ?p = "field h ''rider_id''"
  note rec = record_fields [OF record_at [OF inv h(1)]] and keys = live_keys [OF inv h(1)]
  let ?free = "str_at X db (lock_key d ?v) \<in> {None, Some r}"
  have code: "cancel_code X d db r ?a = (if ?free then 1 else -4)"
    using h rec keys A by (auto simp: cancel_code_def split: option.split)
  have ans: "trip_cancel_answer X d db r = (if ?free then Inr (?a\<lparr>a_Status := ''cancelled''\<rparr>) else Inl (Lif ErrDriverOwnershipConflict))"
    using h by (simp add: trip_cancel_answer_def stored_def)
  have eff: "after_cancel X d db r (trip_cancel_answer X d db r) = (if cancel_code X d db r ?a = 1
     then (\<lambda>k. if k = asg_key d r then Some (status_changed X db k ''cancelled'', asg_deadline db)
          else if k = owner_key d ?v \<or> k = lock_key d ?v then None
          else if k = rider_key d ?p \<and> str_at X db k = Some r then None
          else if k = stat_key d ?v \<and> str_at X db k = Some ''busy''
            then Some (RStr ''available'', stat_deadline db)
          else view X db k)
     else view X db)"
    unfolding after_cancel_def ans code using keys A h(2) by (auto simp: until_def)
  have same: "run_state (lc_get X (d_lifecycle d) r) (quiet db) = (Inr ?a, quiet db)"
    by (simp add: run_lc_get [OF inv] stored_def h(1))
  have scr: "answers X (call (cancel_eval X (d_lifecycle d) r ?a)) db (Inr (cancel_code X d db r ?a))
      (after_cancel X d db r (trip_cancel_answer X d db r))"
    using answers_call [OF cancel_spec [OF inv_typed [OF inv], of r ?a]]
    unfolding eff by (simp only: map_err_simps assignment_of_simps)
  show ?thesis
    unfolding lc_cancel_def
    apply (rule answers_attempt_same [OF same])
    apply (simp add: h(2))
    apply (rule answers_attempt [OF scr])
    apply (auto simp: code ans intro!: answers_ok answers_fail)
    done
qed

lemma CancelAssignment_answers:
  assumes "store_inv A X d db" "''en_route'' \<in> A"
  shows "answers X (CancelAssignment X d r) db (cancel_answer X d db r) (cancel_effect X d db r)"
  using lc_cancel_answers [OF assms, of r]
  by (auto simp: CancelAssignment_def validateLifecycleID_def cancel_answer_def cancel_effect_def after_cancel_def
      intro!: answers_fail)

lemma run_GetLocation:
  assumes ty: "typed X d db"
  shows "run_state (GetLocation X (d_geoService d) v) (quiet db) =
    (if TrimSpace v = [] then Inl (Geo ErrInvalidLocationID)
     else case geo_at X db (geo_key d) v of
         None \<Rightarrow> Inl (Geo ErrLocationNotFound)
       | Some (lon, lat) \<Rightarrow> Inr \<lparr>loc_ID = v, loc_Longitude = Fin lon, loc_Latitude = Fin lat, loc_DistanceKm = Fin 0\<rparr>, quiet db)"
  by (rule holds_driversE [OF typedD(6) [OF ty]])
    (auto simp: GetLocation_def run_attempt run_call_quiet geopos_eq geo_at_def split: option.split)

lemma lc_arrive_answers:
  assumes inv: "store_inv A X d db" and A: "''en_route'' \<in> A"
    and h: "hash_at X db (asg_key d r) = Some h" "field h ''status'' = ''en_route''"
  defines "a \<equiv> assignment_of X h"
  defines "busy \<equiv> str_at X db (stat_key d (a_DriverID a)) = Some ''busy''"
  shows "answers X (lc_arrive X (d_lifecycle d) a) db
    (if busy then Inr (a\<lparr>a_Status := ''arrived''\<rparr>) else Inl (Lif ErrAssignmentStateConflict))
    (if busy then (view X db)(asg_key d r \<mapsto> (status_changed X db (asg_key d r) ''arrived'', asg_deadline db),
       rider_key d (a_RiderID a) \<mapsto> (RStr r, asg_deadline db), owner_key d (a_DriverID a) \<mapsto> (RStr r, asg_deadline db),
       stat_key d (a_DriverID a) \<mapsto> (RStr ''busy'', stat_deadline db)) else view X db)"
proof -
  note rec = record_fields [OF record_at [OF inv h(1)]] and keys = live_keys [OF inv h(1)]
  have code: "arrive_code X d db a = (if busy then 1 else -2)"
    using h rec keys A by (auto simp: arrive_code_def a_def busy_def)
  have "a_RequestID a = r" using rec by (simp add: a_def)
  note scr = answers_call [OF arrive_spec [OF inv_typed [OF inv], of a], unfolded map_err_simps code this]
  show ?thesis
    unfolding lc_arrive_def
    by (rule answers_attempt [OF scr]) (auto intro!: answers_ok answers_fail)
qed

lemma ArriveAssignment_answers:
  assumes inv: "store_inv A X d db" and A: "''en_route'' \<in> A"
  shows "answers X (ArriveAssignment X d r) db (arrive_answer X d db r) (arrive_effect X d db r)"
proof (cases "TrimSpace r = [] \<or> (\<forall>a. stored X d db r = Some a \<longrightarrow> a_Status a \<noteq> ''en_route'')")
  case True
  then show ?thesis
    by (intro answersI)
      (auto simp: ArriveAssignment_def validateLifecycleID_def run_attempt run_lc_get [OF inv]
        arrive_effect_def arrive_answer_def Let_def split: option.split)
next
  case False
  then obtain h where h: "TrimSpace r \<noteq> []" "hash_at X db (asg_key d r) = Some h" "field h ''status'' = ''en_route''"
    by (auto simp: stored_def)
  let ?a = "assignment_of X h" and ?v = "field h ''driver_id''"
  note run_loc = run_GetLocation [OF inv_typed [OF inv], of ?v]
  have confirm: "answers X (confirm_arrival X d ?a) db (arrive_answer X d db r) (arrive_effect X d db r)"
  proof (cases "TrimSpace ?v = [] \<or> geo_at X db (geo_key d) ?v = None")
    case True
    then show ?thesis using h
      by (intro answersI)
        (auto simp: confirm_arrival_def run_attempt run_loc arrive_answer_def arrive_effect_def stored_def Let_def)
  next
    case v: False
    then obtain lon lat where pos: "geo_at X db (geo_key d) ?v = Some (lon, lat)" by auto
    with v run_loc have loc: "run_state (GetLocation X (d_geoService d) ?v) (quiet db) =
        (Inr \<lparr>loc_ID = ?v, loc_Longitude = Fin lon, loc_Latitude = Fin lat, loc_DistanceKm = Fin 0\<rparr>, quiet db)" by simp
    show ?thesis
      unfolding confirm_arrival_def assignment_of_simps
      by (rule answers_attempt_same [OF loc])
        (use lc_arrive_answers [OF inv A h(2,3)] h v pos in
          \<open>auto simp: arrive_answer_def arrive_effect_def stored_def until_def Let_def intro!: answers_fail\<close>)
  qed
  have "run_state (lc_get X (d_lifecycle d) r) (quiet db) = (Inr ?a, quiet db)"
    by (simp add: run_lc_get [OF inv] stored_def h(2))
  with confirm h show ?thesis
    unfolding ArriveAssignment_def validateLifecycleID_def by (simp add: answers_attempt_same)
qed

end

end
