(* ===== verification/Matching.thy ===== *)
theory Matching
  imports Outcomes
begin

text \<open>
  The search for a driver: what claiming one candidate does at each of its
  stages and rollbacks, and what \<open>FindAndAssign\<close> as a whole answers and
  leaves in the store.
\<close>

section \<open>The stages of a claim\<close>

context deployment
begin

lemma view_str_at:
  "typed X d db \<Longrightarrow> view X db (lock_key d v) = None \<longleftrightarrow> str_at X db (lock_key d v) = None"
  "typed X d db \<Longrightarrow> view X db (owner_key d v) = None \<longleftrightarrow> str_at X db (owner_key d v) = None"
  by (simp_all add: str_at_None typedD)

lemma TryLock_answers:
  shows "answers X (TryLock X (d_lockManager d) v r) db (Inr (view X db (lock_key d v) = None))
    (if view X db (lock_key d v) = None
     then (view X db)(lock_key d v \<mapsto> (RStr r, until X db (lm_lockTTL (d_lockManager d)))) else view X db)"
proof -
  have "yields X (r_setnx X (lock_key d v) r (dur_expiry X (lm_lockTTL (d_lockManager d)))) db
    (Inr (view X db (lock_key d v) = None))
    (if view X db (lock_key d v) = None
     then (view X db)(lock_key d v \<mapsto> (RStr r, until X db (lm_lockTTL (d_lockManager d)))) else view X db)"
    by (simp add: yields_def setnx_res setnx_view setnx_clock until_def)
  from answers_call [OF this] show ?thesis by (simp only: TryLock_def map_err_simps)
qed

lemma Unlock_answers:
  assumes "typed X d db"
  shows "answers X (Unlock X (d_lockManager d) v r) db
    (case str_at X db (lock_key d v) of None \<Rightarrow> Inl (Lck ErrLockExpired)
     | Some l \<Rightarrow> if l = r then Inr () else Inl (Lck ErrLockNotHeld))
    (if str_at X db (lock_key d v) = Some r then (view X db)(lock_key d v := None) else view X db)"
  unfolding Unlock_def
  apply (rule answers_attempt [OF answers_call [OF unlock_spec [OF assms], of v r, unfolded map_err_simps]])
  apply (cases "str_at X db (lock_key d v)")
   apply (auto intro!: answers_ok answers_fail)
  done

lemma SetBusy_answers:
  assumes "typed X d db"
  shows "answers X (SetBusy X (d_driverService d) v) db
    (case str_at X db (stat_key d v) of None \<Rightarrow> Inl (Drv ErrDriverOffline)
     | Some s \<Rightarrow> if s = ''available'' then Inr () else Inl (Drv ErrStatusConflict))
    (if str_at X db (stat_key d v) = Some ''available''
     then (view X db)(stat_key d v \<mapsto> (RStr ''busy'', until X db (ds_defaultTTL (d_driverService d))))
     else view X db)"
  unfolding SetBusy_def statusKey_eq ttl_simps until_def
  apply (rule answers_attempt [OF answers_call [OF set_busy_spec [OF assms], of v, unfolded map_err_simps]])
  apply (cases "str_at X db (stat_key d v)")
   apply (auto intro!: answers_ok answers_fail)
  done

lemma SetAvailable_answers:
  assumes "TrimSpace v \<noteq> []"
  shows "answers X (SetAvailable X (d_driverService d) v) db (Inr ())
    ((view X db)(stat_key d v \<mapsto> (RStr ''available'', until X db (ds_defaultTTL (d_driverService d)))))"
proof -
  have "yields X (r_set X (stat_key d v) ''available'' (ExSec (ds_defaultTTL (d_driverService d) div Second))) db (Inr ())
    ((view X db)(stat_key d v \<mapsto> (RStr ''available'', until X db (ds_defaultTTL (d_driverService d)))))"
    by (simp add: yields_def set_res set_view set_clock until_def)
  from answers_call [OF this] show ?thesis using assms by (simp add: SetAvailable_def SetStatus_def)
qed

lemma run_driverOwner:
  assumes "typed X d db"
  shows "run_state (driverOwner X (d_lifecycle d) v) (quiet db) =
    (Inr (case str_at X db (owner_key d v) of None \<Rightarrow> [] | Some r \<Rightarrow> r), quiet db)"
  using typedD(3) [OF assms, of v]
  by (simp add: driverOwner_def run_attempt run_call_quiet get_typed split: option.split)

lemma create_answers:
  assumes "typed X d db"
  shows "answers X (lc_create X (d_lifecycle d) a) db
    (if create_code X d db a = 1 then Inr ()
     else if create_code X d db a = 0 then Inl (Lif ErrActiveAssignment)
     else if create_code X d db a = -1 then Inl (Lif ErrRequestAlreadyExists)
     else Inl (Lif ErrDriverOwnershipConflict))
    (if create_code X d db a = 1
     then (view X db)(asg_key d (a_RequestID a) \<mapsto> (RHash (new_hash X a), asg_deadline db),
            rider_key d (a_RiderID a) \<mapsto> (RStr (a_RequestID a), asg_deadline db),
            owner_key d (a_DriverID a) \<mapsto> (RStr (a_RequestID a), asg_deadline db))
     else view X db)"
proof -
  have "create_code X d db a \<in> {1, 0, -1, -2}" by (auto simp: create_code_def split: option.split)
  then show ?thesis
    unfolding lc_create_def
    by (intro answers_attempt [OF answers_call [OF create_spec [OF assms], of a, unfolded map_err_simps]])
      (auto intro!: answers_ok answers_fail)
qed

lemma owner_nonempty:
  assumes inv: "store_inv A X d db" and r: "str_at X db (owner_key d v) = Some r"
  shows "r \<noteq> []"
proof -
  from r obtain dl where "view X db (owner_key d v) = Some (RStr r, dl)" by (auto simp: str_at_Some)
  from linked_ownerD [OF inv this] obtain h where "view X db (asg_key d r) = Some (RHash h, dl)" by blast
  from record_fields(6) [OF recordD [OF inv this]] show ?thesis .
qed

lemma until_eq: "clock X db' = clock X db \<Longrightarrow> until X db' t = until X db t"
  by (simp add: until_def)

lemma ReleaseDriver_answers:
  assumes ty: "typed X d db" and l: "str_at X db (lock_key d v) = Some r" and v: "TrimSpace v \<noteq> []"
  shows "answers X (ReleaseDriver X d v r) db (Inr ())
    ((view X db)(lock_key d v := None,
       stat_key d v \<mapsto> (RStr ''available'', until X db (ds_defaultTTL (d_driverService d)))))"
  unfolding ReleaseDriver_def
  apply (rule answers_bind [OF Unlock_answers [OF ty]])
  using SetAvailable_answers [OF v] apply (simp add: l)
  apply (metis until_eq)
  done

end

section \<open>Claiming one driver\<close>

text \<open>A driver a request can claim: available, not locked, not on a trip.\<close>

definition driver_free :: "'db ext \<Rightarrow> Dispatcher \<Rightarrow> 'db \<Rightarrow> string \<Rightarrow> bool" where
  "driver_free X d db v \<longleftrightarrow> str_at X db (stat_key d v) = Some StatusAvailable \<and>
     view X db (lock_key d v) = None \<and> view X db (owner_key d v) = None"

definition record_answer :: "'db ext \<Rightarrow> Dispatcher \<Rightarrow> 'db \<Rightarrow> DispatchRequest \<Rightarrow> string \<Rightarrow> err + DispatchResult option" where
  "record_answer X d db req v =
     (case validatePickup (new_assignment req v) of
        Inl e \<Rightarrow> Inl e
      | Inr _ \<Rightarrow> if active_trip X d db (req_RiderID req) \<noteq> None then Inl (Lif ErrActiveAssignment)
                else if stored X d db (req_RequestID req) \<noteq> None then Inl (Lif ErrRequestAlreadyExists)
                else Inr None)"

text \<open>The store with the driver claimed, with his trip recorded, and with the driver given back.\<close>

definition claimed :: "'db ext \<Rightarrow> Dispatcher \<Rightarrow> 'db \<Rightarrow> string \<Rightarrow> string
    \<Rightarrow> string \<Rightarrow> (rval \<times> int option) option" where
  "claimed X d db rid v = (view X db)(
     lock_key d v \<mapsto> (RStr rid, until X db (lm_lockTTL (d_lockManager d))),
     stat_key d v \<mapsto> (RStr StatusBusy, until X db (ds_defaultTTL (d_driverService d))))"

definition with_trip :: "'db ext \<Rightarrow> Dispatcher \<Rightarrow> 'db \<Rightarrow> Assignment
    \<Rightarrow> (string \<Rightarrow> (rval \<times> int option) option) \<Rightarrow> string \<Rightarrow> (rval \<times> int option) option" where
  "with_trip X d db a V = (let ttl = until X db (lc_assignmentTTL (d_lifecycle d)) in
     V(asg_key d (a_RequestID a) \<mapsto> (RHash (new_hash X a), ttl),
       rider_key d (a_RiderID a) \<mapsto> (RStr (a_RequestID a), ttl),
       owner_key d (a_DriverID a) \<mapsto> (RStr (a_RequestID a), ttl)))"

definition given_back :: "'db ext \<Rightarrow> Dispatcher \<Rightarrow> 'db \<Rightarrow> string \<Rightarrow> string \<Rightarrow> (rval \<times> int option) option" where
  "given_back X d db v = (view X db)(
     lock_key d v := None,
     stat_key d v \<mapsto> (RStr StatusAvailable, until X db (ds_defaultTTL (d_driverService d))))"

definition claim_answer :: "'db ext \<Rightarrow> Dispatcher \<Rightarrow> 'db \<Rightarrow> DispatchRequest \<Rightarrow> Location \<Rightarrow> err + DispatchResult" where
  "claim_answer X d db req loc =
     (if \<not> driver_free X d db (loc_ID loc) then Inr (no_result (req_RequestID req))
      else if req_RiderID req = [] then Inr (matched req loc)
      else case record_answer X d db req (loc_ID loc) of Inl e \<Rightarrow> Inl e | Inr _ \<Rightarrow> Inr (matched req loc))"

definition claim_effect :: "'db ext \<Rightarrow> Dispatcher \<Rightarrow> 'db \<Rightarrow> DispatchRequest \<Rightarrow> Location
    \<Rightarrow> string \<Rightarrow> (rval \<times> int option) option" where
  "claim_effect X d db req loc =
     (if \<not> driver_free X d db (loc_ID loc) then view X db
      else if req_RiderID req = [] then claimed X d db (req_RequestID req) (loc_ID loc)
      else case record_answer X d db req (loc_ID loc) of
          Inl _ \<Rightarrow> given_back X d db (loc_ID loc)
        | Inr _ \<Rightarrow> with_trip X d db (new_assignment req (loc_ID loc))
                     (claimed X d db (req_RequestID req) (loc_ID loc)))"

context deployment
begin

lemma trips_same_view:
  assumes "\<And>r. view X db' (asg_key d r) = view X db (asg_key d r)"
    "\<And>p. view X db' (rider_key d p) = view X db (rider_key d p)"
  shows "active_trip X d db' p = active_trip X d db p" "stored X d db' r = stored X d db r"
  using assms by (simp_all add: active_trip_def stored_def hash_at_def str_at_def split: option.split)

lemma release_answers:
  assumes inv: "store_inv A X d db" and v: "TrimSpace v \<noteq> []"
    and l: "str_at X db (lock_key d v) = Some r" and same: "view X db' = view X db" "clock X db' = clock X db"
  shows "answers X (ReleaseDriver X d v r) db' (Inr ()) (given_back X d db v)"
  using ReleaseDriver_answers [OF inv_typed [OF inv_same_view [OF inv same(1)]] _ v] l
  by (simp add: given_back_def same(1) str_at_def until_eq [OF same(2)])

lemma record_answers:
  assumes inv: "store_inv A X d db" and v: "TrimSpace v \<noteq> []"
    and l: "str_at X db (lock_key d v) = Some (req_RequestID req)" and o: "view X db (owner_key d v) = None"
  shows "answers X (record_assignment X d req v) db (record_answer X d db req v)
    (case record_answer X d db req v of
       Inl _ \<Rightarrow> given_back X d db v
     | Inr _ \<Rightarrow> with_trip X d db (new_assignment req v) (view X db))"
proof (cases "validatePickup (new_assignment req v)")
  case (Inl e)
  show ?thesis
    unfolding record_assignment_def Let_def record_answer_def Inl sum.case
    by (rule answers_bind [OF release_answers [OF inv v l]]) (simp_all add: answers_fail)
next
  case (Inr u)
  let ?a = "new_assignment req v"
  have code: "create_code X d db ?a = (if active_trip X d db (req_RiderID req) \<noteq> None then 0
      else if stored X d db (req_RequestID req) \<noteq> None then -1 else 1)"
    using o by (simp add: create_code_def rider_engaged_iff [OF inv] stored_def str_at_def)
  note created = create_answers [OF inv_typed [OF inv], of ?a]
  show ?thesis
  proof (cases "create_code X d db ?a = 1")
    case True
    with code Inr have "record_answer X d db req v = Inr None"
      by (auto simp: record_answer_def split: if_splits)
    then show ?thesis
      unfolding record_assignment_def Let_def Inr sum.case
      by (intro answers_bind [OF created])
        (auto simp: True with_trip_def until_def Let_def intro!: answers_ok)
  next
    case False
    with code Inr obtain e where e: "record_answer X d db req v = Inl e" "e \<noteq> Lif ErrDriverOwnershipConflict"
      "(if create_code X d db ?a = 1 then Inr ()
        else if create_code X d db ?a = 0 then Inl (Lif ErrActiveAssignment)
        else if create_code X d db ?a = -1 then Inl (Lif ErrRequestAlreadyExists)
        else Inl (Lif ErrDriverOwnershipConflict)) = Inl e"
      by (auto simp: record_answer_def split: if_splits)
    show ?thesis
      unfolding record_assignment_def Let_def Inr sum.case
      by (rule answers_bind [OF created])
        (use False e in \<open>auto simp: undo_claim_def intro!: answers_bind [OF release_answers [OF inv v l]] answers_fail\<close>)
  qed
qed

lemma unlock_again:
  assumes inv: "store_inv A X d db" and free: "view X db (lock_key d v) = None"
    and db': "view X db' = (view X db)(lock_key d v \<mapsto> (RStr r, dl))"
  shows "answers X (Unlock X (d_lockManager d) v r) db' (Inr ()) (view X db)"
proof -
  have inv': "store_inv A X d db'" by (rule inv_upd_lock [OF inv, where b = True]) (simp add: db')
  have "(view X db)(lock_key d v := None) = view X db" using free by (metis fun_upd_triv)
  with Unlock_answers [OF inv_typed [OF inv'], of v r] show ?thesis
    by (simp add: str_at_def db')
qed

text \<open>The store in which the driver is claimed, seen as the start of the last steps.\<close>

lemma claimed_store:
  assumes inv: "store_inv A X d db" and V: "view X db2 = claimed X d db rid v" and c: "clock X db2 = clock X db"
  shows "store_inv A X d db2" "record_answer X d db2 req v = record_answer X d db req v"
    "given_back X d db2 v = given_back X d db v"
    "with_trip X d db2 a (view X db2) = with_trip X d db a (claimed X d db rid v)"
proof -
  show "store_inv A X d db2"
    by (rule keeps_inv [OF inv keeps_tripsI]) (use typedD [OF inv_typed [OF inv]] in \<open>auto simp: V claimed_def\<close>)
  have "active_trip X d db2 p = active_trip X d db p" "stored X d db2 r = stored X d db r" for p r
    by (rule trips_same_view; simp add: V claimed_def)+
  then show "record_answer X d db2 req v = record_answer X d db req v"
    by (simp only: record_answer_def)
  show "given_back X d db2 v = given_back X d db v"
    by (rule ext) (simp add: V claimed_def given_back_def until_eq [OF c])
  show "with_trip X d db2 a (view X db2) = with_trip X d db a (claimed X d db rid v)"
    by (simp add: with_trip_def V until_eq [OF c])
qed

lemma finish_answers:
  assumes inv: "store_inv A X d db" and v: "TrimSpace (loc_ID loc) \<noteq> []" and free: "driver_free X d db (loc_ID loc)"
    and V: "view X db2 = claimed X d db (req_RequestID req) (loc_ID loc)" and c: "clock X db2 = clock X db"
  shows "answers X (finish_assignment X d req loc) db2 (claim_answer X d db req loc) (claim_effect X d db req loc)"
proof (cases "req_RiderID req = []")
  case True
  then show ?thesis
    unfolding finish_assignment_def by (simp, intro answers_ok) (simp_all add: free claim_answer_def claim_effect_def V)
next
  case rid: False
  let ?v = "loc_ID loc"
  note st = claimed_store [OF inv V c]
  have "str_at X db2 (lock_key d ?v) = Some (req_RequestID req)" "view X db2 (owner_key d ?v) = None"
    using free by (simp_all add: driver_free_def V claimed_def str_at_def)
  note ra = record_answers [OF st(1) v this, unfolded st]
  show ?thesis
  proof (cases "record_answer X d db req ?v")
    case (Inl e)
    with ra rid free show ?thesis
      by (auto simp: finish_assignment_def claim_answer_def claim_effect_def intro: answers_attempt_err)
  next
    case (Inr early)
    then have "early = None" by (auto simp: record_answer_def split: sum.splits if_splits)
    with Inr ra rid free show ?thesis
      by (auto simp: finish_assignment_def claim_answer_def claim_effect_def
          intro!: answers_attempt [of X _ db2 None] answers_ok)
  qed
qed

lemma claim_driver_answers:
  assumes inv: "store_inv A X d db" and v: "TrimSpace (loc_ID loc) \<noteq> []"
    and free: "view X db (lock_key d (loc_ID loc)) = None" and own: "view X db (owner_key d (loc_ID loc)) = None"
    and db1: "view X db1 = (view X db)(lock_key d (loc_ID loc) \<mapsto>
        (RStr (req_RequestID req), until X db (lm_lockTTL (d_lockManager d))))" "clock X db1 = clock X db"
  shows "answers X (claim_driver X d req loc) db1 (claim_answer X d db req loc) (claim_effect X d db req loc)"
proof -
  let ?v = "loc_ID loc" and ?rid = "req_RequestID req"
  have inv1: "store_inv A X d db1" by (rule inv_upd_lock [OF inv, where b = True]) (simp add: db1)
  have stat1: "str_at X db1 (stat_key d ?v) = str_at X db (stat_key d ?v)" by (simp add: str_at_def db1)
  note busy = SetBusy_answers [OF inv_typed [OF inv1], of ?v, unfolded stat1]
  show ?thesis
  proof (cases "str_at X db (stat_key d ?v) = Some ''available''")
    case False
    then have nf: "\<not> driver_free X d db ?v" by (simp add: driver_free_def)
    have unlock: "answers X (Unlock X (d_lockManager d) ?v ?rid) db2 (Inr ()) (view X db)" if "view X db2 = view X db1" for db2
      by (rule unlock_again [OF inv free]) (simp add: that db1)
    show ?thesis
      unfolding claim_driver_def
      by (rule answers_bind [OF busy])
        (use False in \<open>cases "str_at X db (stat_key d ?v)";
          auto simp: nf claim_answer_def claim_effect_def intro!: answers_bind [OF unlock] answers_ok\<close>)
  next
    case True
    then have df: "driver_free X d db ?v" using free own by (simp add: driver_free_def)
    have busy: "answers X (SetBusy X (d_driverService d) ?v) db1 (Inr ()) (claimed X d db ?rid ?v)"
      using busy by (simp add: True claimed_def db1(1) until_eq [OF db1(2)])
    show ?thesis
      unfolding claim_driver_def
      by (rule answers_bind [OF busy]) (simp add: finish_answers [OF inv v df] db1(2))
  qed
qed

lemma tryAssign_answers:
  assumes inv: "store_inv A X d db" and v: "TrimSpace (loc_ID loc) \<noteq> []"
  shows "answers X (tryAssignDriver X d req loc) db (claim_answer X d db req loc) (claim_effect X d db req loc)"
proof (cases "view X db (lock_key d (loc_ID loc)) = None")
  case False
  then show ?thesis
    unfolding tryAssignDriver_def Let_def
    by (intro answers_attempt [OF TryLock_answers])
      (auto simp: claim_answer_def claim_effect_def driver_free_def intro!: answers_ok)
next
  case free: True
  let ?v = "loc_ID loc" and ?rid = "req_RequestID req"
  let ?dl = "until X db (lm_lockTTL (d_lockManager d))"
  have lock: "answers X (TryLock X (d_lockManager d) ?v ?rid) db (Inr True) ((view X db)(lock_key d ?v \<mapsto> (RStr ?rid, ?dl)))"
    using TryLock_answers [of ?v ?rid db] by (simp add: free)
  show ?thesis
    unfolding tryAssignDriver_def Let_def
  proof (rule answers_attempt [OF lock], simp only: not_True_eq_False if_False)
    fix db1
    assume db1: "view X db1 = (view X db)(lock_key d ?v \<mapsto> (RStr ?rid, ?dl))" "clock X db1 = clock X db"
    have inv1: "store_inv A X d db1" by (rule inv_upd_lock [OF inv, where b = True]) (simp add: db1)
    note unlock = unlock_again [OF inv free db1(1)]
    have own1: "str_at X db1 (owner_key d ?v) = str_at X db (owner_key d ?v)" by (simp add: str_at_def db1)
    show "answers X (do {
          owner \<leftarrow> driverOwner X (d_lifecycle d) ?v;
          (case owner of
             Inl e \<Rightarrow> do { _ \<leftarrow> Unlock X (d_lockManager d) ?v ?rid; fail e }
           | Inr own \<Rightarrow>
               if own \<noteq> [] then do { _ \<leftarrow> Unlock X (d_lockManager d) ?v ?rid; ok (no_result ?rid) }
               else claim_driver X d req loc) }) db1 (claim_answer X d db req loc) (claim_effect X d db req loc)"
    proof (cases "str_at X db (owner_key d ?v)")
      case (Some r)
      then have ne: "r \<noteq> []" "\<not> driver_free X d db ?v"
        using owner_nonempty [OF inv Some] view_str_at(2) [OF inv_typed [OF inv], of ?v]
        by (auto simp: driver_free_def)
      show ?thesis
        by (rule answers_bind_same [OF run_driverOwner [OF inv_typed [OF inv1]]])
          (auto simp: own1 Some ne claim_answer_def claim_effect_def intro!: answers_bind [OF unlock] answers_ok)
    next
      case None
      then have own: "view X db (owner_key d ?v) = None" using view_str_at(2) [OF inv_typed [OF inv], of ?v] by simp
      show ?thesis
        by (rule answers_bind_same [OF run_driverOwner [OF inv_typed [OF inv1]]])
          (use claim_driver_answers [OF inv v free own db1] in \<open>simp add: own1 None\<close>)
    qed
  qed
qed

end

section \<open>The whole search\<close>

text \<open>
  The candidates, nearest first, and what the search does with them: the
  first driver that is free is claimed, the ones before it are left alone.
\<close>

definition pick_answer :: "'db ext \<Rightarrow> Dispatcher \<Rightarrow> 'db \<Rightarrow> DispatchRequest \<Rightarrow> Location list \<Rightarrow> DispatchResult" where
  "pick_answer X d db req locs =
     (case find (\<lambda>loc. driver_free X d db (loc_ID loc)) locs of
        None \<Rightarrow> failed (req_RequestID req) (Lck ErrNoDriversAvailable)
      | Some loc \<Rightarrow> (case claim_answer X d db req loc of
            Inl e \<Rightarrow> failed_cause (req_RequestID req) e | Inr r \<Rightarrow> r))"

definition pick_effect :: "'db ext \<Rightarrow> Dispatcher \<Rightarrow> 'db \<Rightarrow> DispatchRequest \<Rightarrow> Location list
    \<Rightarrow> string \<Rightarrow> (rval \<times> int option) option" where
  "pick_effect X d db req locs =
     (case find (\<lambda>loc. driver_free X d db (loc_ID loc)) locs of
        None \<Rightarrow> view X db
      | Some loc \<Rightarrow> claim_effect X d db req loc)"

context deployment
begin

lemma claim_same_view:
  assumes "view X db' = view X db" "clock X db' = clock X db"
  shows "claim_answer X d db' = claim_answer X d db" "claim_effect X d db' = claim_effect X d db"
    "driver_free X d db' = driver_free X d db"
  using assms
proof -
  have at: "str_at X db' = str_at X db" "hash_at X db' = hash_at X db"
    by (rule ext, simp add: str_at_def hash_at_def assms)+
  show free: "driver_free X d db' = driver_free X d db"
    by (rule ext) (simp add: driver_free_def at assms)
  have rec: "record_answer X d db' req v = record_answer X d db req v" for req v
    by (simp only: record_answer_def active_trip_def stored_def at)
  show "claim_answer X d db' = claim_answer X d db"
    by (rule ext)+ (simp only: claim_answer_def free rec)
  show "claim_effect X d db' = claim_effect X d db"
    by (rule ext)+ (simp only: claim_effect_def free rec assms claimed_def given_back_def with_trip_def until_def)
qed

lemma str_same_view: "view X db' = view X db \<Longrightarrow> str_at X db' = str_at X db"
  by (rule ext) (simp add: str_at_def)

lemma pick_same_view:
  assumes "view X db' = view X db" "clock X db' = clock X db"
  shows "pick_answer X d db' req locs = pick_answer X d db req locs" "pick_effect X d db' req locs = pick_effect X d db req locs"
  by (simp_all only: pick_answer_def pick_effect_def claim_same_view [OF assms] assms(1))

lemma assign_first_answers:
  assumes "store_inv A X d db" and "\<forall>loc \<in> set locs. TrimSpace (loc_ID loc) \<noteq> []"
    and "\<forall>loc \<in> set locs. statuses (loc_ID loc) = Some StatusAvailable \<longleftrightarrow>
           str_at X db (stat_key d (loc_ID loc)) = Some StatusAvailable"
  shows "answers X (assign_first X d req statuses locs) db (pick_answer X d db req locs) (pick_effect X d db req locs)"
  using assms
proof (induction locs arbitrary: db)
  case Nil
  then show ?case by (simp add: pick_answer_def pick_effect_def answers_return)
next
  case (Cons loc locs)
  let ?free = "driver_free X d db (loc_ID loc)"
  have claim: "answers X (tryAssignDriver X d req loc) db (claim_answer X d db req loc) (claim_effect X d db req loc)"
    using Cons.prems(1,2) by (intro tryAssign_answers) auto
  consider (skip) "statuses (loc_ID loc) \<noteq> Some StatusAvailable" "\<not> ?free"
    | (free) "statuses (loc_ID loc) = Some StatusAvailable" ?free
    | (refused) "statuses (loc_ID loc) = Some StatusAvailable" "\<not> ?free"
    using Cons.prems(3) by (cases ?free) (auto simp: driver_free_def)
  then show ?case
  proof cases
    case skip
    with Cons.IH [OF Cons.prems(1)] Cons.prems(2,3) show ?thesis
      by (simp add: pick_answer_def pick_effect_def)
  next
    case free
    then have suc: "claim_answer X d db req loc = Inr r \<Longrightarrow> res_Success r" for r
      by (auto simp: claim_answer_def matched_def split: if_splits sum.splits)
    show ?thesis
      using free suc
      by (simp add: pick_answer_def pick_effect_def)
        (rule answers_bind [OF claim], auto intro!: answers_return split: sum.split)
  next
    case refused
    then have ans: "claim_answer X d db req loc = Inr (no_result (req_RequestID req))"
      "claim_effect X d db req loc = view X db"
      by (simp_all add: claim_answer_def claim_effect_def)
    have rest: "answers X (assign_first X d req statuses locs) db' (pick_answer X d db req locs) (pick_effect X d db req locs)"
      if db': "view X db' = view X db" "clock X db' = clock X db" for db'
      using Cons.IH [OF inv_same_view [OF Cons.prems(1) db'(1)]] Cons.prems(2,3) pick_same_view [OF db'] str_same_view [OF db'(1)]
      by simp
    then show ?thesis
      using refused
      by (simp add: pick_answer_def pick_effect_def)
        (rule answers_bind [OF claim [unfolded ans]], auto simp: no_result_def)
  qed
qed

end

text \<open>The statuses read for the candidates are those in the store.\<close>

lemma status_map_map:
  "status_map ids (map f ids) v =
     (if v \<in> set ids then Some (case f v of None \<Rightarrow> StatusOffline | Some s \<Rightarrow> s) else None)"
proof -
  have off: "foldl (\<lambda>m d. m(d \<mapsto> StatusOffline)) m xs v = (if v \<in> set xs then Some StatusOffline else m v)"
    for m :: "string \<rightharpoonup> string" and xs
    by (induction xs arbitrary: m) auto
  have "foldl (\<lambda>m (d, v). case v of None \<Rightarrow> m | Some s \<Rightarrow> m(d \<mapsto> s)) m (zip xs (map f xs)) v =
      (if v \<in> set xs then (case f v of None \<Rightarrow> m v | Some s \<Rightarrow> Some s) else m v)"
    for m :: "string \<rightharpoonup> string" and xs
    by (induction xs arbitrary: m) (auto split: option.split)
  then show ?thesis unfolding status_map_def by (simp add: off split: option.split)
qed

definition nearby :: "'db ext \<Rightarrow> Dispatcher \<Rightarrow> 'db \<Rightarrow> DispatchRequest \<Rightarrow> err + Location list" where
  "nearby X d db req = fst (run_state
     (FindNearby X (d_geoService d) (req_Longitude req) (req_Latitude req) (req_RadiusKm req)) (quiet db))"

definition search_answer :: "'db ext \<Rightarrow> Dispatcher \<Rightarrow> 'db \<Rightarrow> DispatchRequest \<Rightarrow> DispatchResult" where
  "search_answer X d db req =
     (if req_RiderID req \<noteq> [] \<and> active_trip X d db (req_RiderID req) \<noteq> None
      then failed_cause (req_RequestID req) (Lif ErrActiveAssignment)
      else case nearby X d db req of
          Inl e \<Rightarrow> failed (req_RequestID req) e
        | Inr locs \<Rightarrow> pick_answer X d db req locs)"

definition search_effect :: "'db ext \<Rightarrow> Dispatcher \<Rightarrow> 'db \<Rightarrow> DispatchRequest
    \<Rightarrow> string \<Rightarrow> (rval \<times> int option) option" where
  "search_effect X d db req =
     (if req_RiderID req \<noteq> [] \<and> active_trip X d db (req_RiderID req) \<noteq> None then view X db
      else case nearby X d db req of Inl e \<Rightarrow> view X db | Inr locs \<Rightarrow> pick_effect X d db req locs)"

context deployment
begin

lemma run_GetStatuses:
  assumes "typed X d db"
  shows "run_state (GetStatuses X (d_driverService d) ids) (quiet db) =
    (Inr (\<lambda>v. if v \<in> set ids then Some (case str_at X db (stat_key d v) of None \<Rightarrow> StatusOffline | Some s \<Rightarrow> s)
        else None), quiet db)"
proof (cases "ids = []")
  case True
  then show ?thesis by (simp add: GetStatuses_def)
next
  case False
  have "(case view X db (stat_key d v) of Some (RStr s, _) \<Rightarrow> Some s | _ \<Rightarrow> None) = str_at X db (stat_key d v)" for v
    by (simp add: str_at_def)
  then have "r_mget X (map (statusKey (d_driverService d)) ids) db = Inr (map (\<lambda>v. str_at X db (stat_key d v)) ids)"
    by (simp add: mget_eq)
  with False show ?thesis
    by (simp add: GetStatuses_def run_attempt run_call_quiet status_map_map fun_eq_iff)
qed

lemma run_FindNearby:
  "run_state (FindNearby X gs lon lat rad) (quiet db) = (fst (run_state (FindNearby X gs lon lat rad) (quiet db)), quiet db)"
  by (simp add: FindNearby_def run_attempt run_call_quiet split: sum.split)

text \<open>What the index answers: the drivers within the radius, nearest first.\<close>

lemma FindNearby_found:
  assumes ty: "typed X d db" and f: "fst (run_state (FindNearby X (d_geoService d) lon lat rad) (quiet db)) = Inr locs"
  obtains x y r where "lon = Fin x" "lat = Fin y" "rad = Fin r" "0 < r" "geo_range x y"
    "set (map loc_ID locs) = {m. \<exists>p. geo_at X db (geo_key d) m = Some p \<and> geo_km X (x, y) p \<le> r}"
    "distinct (map loc_ID locs)"
    "sorted (map (\<lambda>loc. geo_km X (x, y) (the (geo_at X db (geo_key d) (loc_ID loc)))) locs)"
    "\<And>loc. loc \<in> set locs \<Longrightarrow>
       loc_DistanceKm loc = Fin (geo_round X (geo_km X (x, y) (the (geo_at X db (geo_key d) (loc_ID loc)))))"
proof -
  from f obtain x y r where c: "lon = Fin x" "lat = Fin y" "rad = Fin r" "0 < r"
    by (auto simp: FindNearby_def run_attempt split: sum.splits
        dest!: ValidateRadius_ok_iff [THEN iffD1] ValidateCoordinates_ok_iff [THEN iffD1])
  let ?loc = "\<lambda>(name, (rlon, rlat), dist). \<lparr>loc_ID = name, loc_Longitude = Fin rlon, loc_Latitude = Fin rlat, loc_DistanceKm = Fin dist\<rparr>"
  from f c obtain xs where xs: "r_georadius X (geo_key d) (Fin x) (Fin y) (Fin r) db = Inr xs" "locs = map ?loc xs"
    by (auto simp: FindNearby_def run_attempt run_call_quiet map_err_def split: sum.splits)
  have rng: "geo_range x y" using xs(1) georadius_range by force
  show ?thesis
  proof (rule holds_driversE [OF typedD(6) [OF ty]])
    assume n: "view X db (geo_key d) = None"
    then have "xs = []" using georadius_none [OF rng c(4) n] xs(1) by simp
    then show ?thesis using n by (intro that [OF c rng]) (simp_all add: xs geo_at_def)
  next
    fix g dl assume g: "view X db (geo_key d) = Some (RGeo g, dl)"
    from georadius_geo [OF rng c(4) g] xs(1)
    have s: "set xs = {(m, p, geo_round X (geo_km X (x, y) p)) | m p. g m = Some p \<and> geo_km X (x, y) p \<le> r}"
      and ds: "distinct (map fst xs)" and so: "sorted (map (\<lambda>(m, p, d). geo_km X (x, y) p) xs)" by auto
    have ga: "geo_at X db (geo_key d) = g" by (simp add: geo_at_def g)
    have ids: "map loc_ID locs = map fst xs" by (simp add: xs(2) case_prod_unfold)
    have km: "map (\<lambda>loc. geo_km X (x, y) (the (g (loc_ID loc)))) locs = map (\<lambda>(m, p, d). geo_km X (x, y) p) xs"
      using s by (auto simp: xs(2))
    show ?thesis
    proof (rule that [OF c rng])
      show "set (map loc_ID locs) = {m. \<exists>p. geo_at X db (geo_key d) m = Some p \<and> geo_km X (x, y) p \<le> r}"
        unfolding ids ga set_map s by force
      show "distinct (map loc_ID locs)" using ds by (simp only: ids)
      show "sorted (map (\<lambda>loc. geo_km X (x, y) (the (geo_at X db (geo_key d) (loc_ID loc)))) locs)"
        using so by (simp only: ga km)
      show "loc_DistanceKm loc = Fin (geo_round X (geo_km X (x, y) (the (geo_at X db (geo_key d) (loc_ID loc)))))"
        if "loc \<in> set locs" for loc using that s by (auto simp: xs(2) ga)
    qed
  qed
qed

lemma nearby_nonblank:
  assumes ty: "typed X d db" and f: "nearby X d db req = Inr locs" and l: "loc \<in> set locs"
  shows "TrimSpace (loc_ID loc) \<noteq> []"
proof (rule FindNearby_found [OF ty f [unfolded nearby_def]])
  fix x y r
  assume s: "set (map loc_ID locs) = {m. \<exists>p. geo_at X db (geo_key d) m = Some p \<and> geo_km X (x, y) p \<le> r}"
  from l have "loc_ID loc \<in> set (map loc_ID locs)" by simp
  then obtain p where "geo_at X db (geo_key d) (loc_ID loc) = Some p" unfolding s by blast
  then show ?thesis using typedD(6) [OF ty] by (auto simp: geo_at_def elim!: holds_driversE)
qed

lemma assign_nearby_answers:
  assumes inv: "store_inv A X d db" and near: "nearby X d db req = Inr locs"
  shows "answers X (assign_nearby X d req locs) db (pick_answer X d db req locs) (pick_effect X d db req locs)"
proof (cases "locs = []")
  case True
  then show ?thesis by (simp add: assign_nearby_def pick_answer_def pick_effect_def answers_return)
next
  case False
  note ty = inv_typed [OF inv]
  from False show ?thesis
    unfolding assign_nearby_def Let_def
    by (simp, intro answers_bind_same [OF run_GetStatuses [OF ty]], simp)
      (rule assign_first_answers [OF inv], use nearby_nonblank [OF ty near] in \<open>auto split: option.split\<close>)
qed

lemma FindAndAssign_answers:
  assumes inv: "store_inv A X d db"
  shows "answers X (FindAndAssign X d uuid req) db
    (search_answer X d db (with_defaults uuid req)) (search_effect X d db (with_defaults uuid req))"
proof -
  let ?q = "with_defaults uuid req"
  let ?trip = "if req_RiderID ?q \<noteq> [] then active_trip X d db (req_RiderID ?q) else None"
  have act: "run_state (if req_RiderID ?q \<noteq> [] then lc_active X (d_lifecycle d) (req_RiderID ?q) else ok None) (quiet db)
      = (Inr ?trip, quiet db)"
    by (simp add: run_lc_active [OF inv])
  have near: "run_state (FindNearby X (d_geoService d) (req_Longitude ?q) (req_Latitude ?q) (req_RadiusKm ?q)) (quiet db)
      = (nearby X d db ?q, quiet db)"
    unfolding nearby_def by (rule run_FindNearby)
  show ?thesis
  proof (cases ?trip)
    case (Some a)
    then show ?thesis
      unfolding FindAndAssign_def Let_def
      by (intro answers_bind_same [OF act])
        (auto simp: search_answer_def search_effect_def intro!: answers_return split: if_splits)
  next
    case None
    then have no_trip: "\<not> (req_RiderID ?q \<noteq> [] \<and> active_trip X d db (req_RiderID ?q) \<noteq> None)" by (auto split: if_splits)
    show ?thesis
      unfolding FindAndAssign_def Let_def search_answer_def search_effect_def if_not_P [OF no_trip]
      by (rule answers_bind_same [OF act [unfolded None]], simp only: sum.case option.case, rule answers_bind_same [OF near])
        (auto split: sum.split intro!: answers_return assign_nearby_answers [OF inv])
  qed
qed

end

end
