(* ===== verification/Consequences.thy ===== *)
theory Consequences
  imports Matching
begin

text \<open>
  What follows from the contracts: the search finds the nearest driver it
  could have found and nothing else changes, a failed search changes no
  value, and cancelling a fresh assignment gives everything back.
\<close>

text \<open>The values of the store, without their deadlines.\<close>

definition vals :: "(string \<Rightarrow> (rval \<times> int option) option) \<Rightarrow> string \<Rightarrow> rval option" where
  "vals V k = map_option fst (V k)"

lemma find_SomeE:
  assumes "find P xs = Some x"
  obtains ys zs where "xs = ys @ x # zs" "P x" "\<And>y. y \<in> set ys \<Longrightarrow> \<not> P y"
  using assms
proof (induction xs arbitrary: thesis)
  case (Cons a xs)
  show ?case
  proof (cases "P a")
    case True
    with Cons.prems(2) show ?thesis by (intro Cons.prems(1) [of "[]"]) auto
  next
    case False
    with Cons.prems(2) obtain ys zs where "xs = ys @ x # zs" "P x" "\<And>y. y \<in> set ys \<Longrightarrow> \<not> P y"
      using Cons.IH by auto
    with False show ?thesis by (intro Cons.prems(1) [of "a # ys"]) auto
  qed
qed simp

lemma not_success [simp]:
  "\<not> res_Success (no_result r)" "\<not> res_Success (failed r e)" "\<not> res_Success (failed_cause r e)"
  "res_Success (matched req loc)"
  by (simp_all add: failed_def failed_cause_def no_result_def matched_def)

context deployment
begin

lemma search_success:
  assumes suc: "res_Success (search_answer X d db req)"
  obtains locs loc where "nearby X d db req = Inr locs"
    "find (\<lambda>loc. driver_free X d db (loc_ID loc)) locs = Some loc"
    "search_answer X d db req = matched req loc" "search_effect X d db req = claim_effect X d db req loc"
    "claim_answer X d db req loc = Inr (matched req loc)" "driver_free X d db (loc_ID loc)"
proof -
  have no_trip: "\<not> (req_RiderID req \<noteq> [] \<and> active_trip X d db (req_RiderID req) \<noteq> None)"
    using suc unfolding search_answer_def by (auto split: if_splits)
  have eq: "search_answer X d db req = (case nearby X d db req of Inl e \<Rightarrow> failed (req_RequestID req) e
        | Inr locs \<Rightarrow> pick_answer X d db req locs)"
    "search_effect X d db req = (case nearby X d db req of Inl e \<Rightarrow> view X db | Inr locs \<Rightarrow> pick_effect X d db req locs)"
    unfolding search_answer_def search_effect_def using no_trip by auto
  from suc eq(1) obtain locs where n: "nearby X d db req = Inr locs"
    by (auto simp: failed_def no_result_def split: sum.splits)
  with suc eq(1) obtain loc where f: "find (\<lambda>loc. driver_free X d db (loc_ID loc)) locs = Some loc"
    by (auto simp: pick_answer_def failed_def no_result_def split: option.splits)
  then have df: "driver_free X d db (loc_ID loc)" by (rule find_SomeE)
  have ca: "claim_answer X d db req loc = Inr (matched req loc)"
    using suc eq(1) n f df
    by (auto simp: pick_answer_def failed_cause_def no_result_def claim_answer_def split: sum.splits if_splits)
  show ?thesis
    by (rule that [OF n f _ _ ca df]) (simp_all add: eq n pick_answer_def pick_effect_def f ca)
qed

lemma search_nearest:
  assumes inv: "store_inv A X d db" and suc: "res_Success (search_answer X d db req)"
  shows "\<exists>x y r p. req_Longitude req = Fin x \<and> req_Latitude req = Fin y \<and> req_RadiusKm req = Fin r \<and>
     driver_free X d db (res_DriverID (search_answer X d db req)) \<and>
     geo_at X db (geo_key d) (res_DriverID (search_answer X d db req)) = Some p \<and> geo_km X (x, y) p \<le> r \<and>
     res_Distance (search_answer X d db req) = Fin (geo_round X (geo_km X (x, y) p)) \<and>
     (\<forall>w q. geo_at X db (geo_key d) w = Some q \<and> driver_free X d db w \<longrightarrow> geo_km X (x, y) p \<le> geo_km X (x, y) q)"
proof (rule search_success [OF suc])
  fix locs loc
  assume n: "nearby X d db req = Inr locs" and f: "find (\<lambda>loc. driver_free X d db (loc_ID loc)) locs = Some loc"
    and ans: "search_answer X d db req = matched req loc" and df: "driver_free X d db (loc_ID loc)"
  obtain ys zs where l: "locs = ys @ loc # zs" "\<And>y. y \<in> set ys \<Longrightarrow> \<not> driver_free X d db (loc_ID y)"
    using f by (elim find_SomeE) blast
  then have mem: "loc \<in> set locs" by simp
  show ?thesis
  proof (rule FindNearby_found [OF inv_typed [OF inv] n [unfolded nearby_def]])
    fix x y r
    let ?km = "\<lambda>loc. geo_km X (x, y) (the (geo_at X db (geo_key d) (loc_ID loc)))"
    assume c: "req_Longitude req = Fin x" "req_Latitude req = Fin y" "req_RadiusKm req = Fin r"
      and s: "set (map loc_ID locs) = {m. \<exists>p. geo_at X db (geo_key d) m = Some p \<and> geo_km X (x, y) p \<le> r}"
      and so: "sorted (map ?km locs)"
      and di: "\<And>loc. loc \<in> set locs \<Longrightarrow> loc_DistanceKm loc = Fin (geo_round X (?km loc))"
    from mem have "loc_ID loc \<in> set (map loc_ID locs)" by simp
    then obtain p where p: "geo_at X db (geo_key d) (loc_ID loc) = Some p" "geo_km X (x, y) p \<le> r" unfolding s by blast
    have near: "geo_km X (x, y) p \<le> geo_km X (x, y) q"
      if q: "geo_at X db (geo_key d) w = Some q" "driver_free X d db w" for w q
    proof (cases "geo_km X (x, y) q \<le> r")
      case False
      with p(2) show ?thesis by simp
    next
      case True
      with q(1) have "w \<in> set (map loc_ID locs)" unfolding s by blast
      then obtain m where m: "m \<in> set locs" "loc_ID m = w" by auto
      with l q(2) have "m \<in> set (loc # zs)" by auto
      with so l(1) have "?km loc \<le> ?km m" by (auto simp: sorted_append)
      with p(1) q(1) m(2) show ?thesis by simp
    qed
    show ?thesis
      using c p near df di [OF mem] by (intro exI conjI allI impI) (auto simp: ans matched_def)
  qed
qed

lemma search_failure:
  assumes fl: "\<not> res_Success (search_answer X d db req)"
  shows "vals (search_effect X d db req) = vals (view X db)"
proof -
  have same: "vals (given_back X d db v) = vals (view X db)" if "driver_free X d db v" for v
    using that by (auto simp: fun_eq_iff vals_def given_back_def driver_free_def str_at_Some)
  show ?thesis
    using fl same
    by (auto simp: search_answer_def search_effect_def pick_answer_def pick_effect_def claim_answer_def
        claim_effect_def matched_def split: sum.splits option.splits if_splits elim!: find_SomeE)
qed

text \<open>After a search that found a driver, a trip is under way; the record of it reads back as requested.\<close>

lemma search_trip:
  assumes suc: "res_Success (search_answer X d db req)" and rid: "req_RiderID req \<noteq> []"
    and db': "view X db' = search_effect X d db req"
  shows "stored X d db' (req_RequestID req) =
      Some (new_assignment req (res_DriverID (search_answer X d db req)))"
    "str_at X db' (rider_key d (req_RiderID req)) = Some (req_RequestID req)"
    "str_at X db' (owner_key d (res_DriverID (search_answer X d db req))) = Some (req_RequestID req)"
    "str_at X db' (lock_key d (res_DriverID (search_answer X d db req))) = Some (req_RequestID req)"
    "str_at X db' (stat_key d (res_DriverID (search_answer X d db req))) = Some ''busy''"
proof (rule_tac [!] search_success [OF suc])
  fix locs loc
  assume ans: "search_answer X d db req = matched req loc" and eff: "search_effect X d db req = claim_effect X d db req loc"
    and ca: "claim_answer X d db req loc = Inr (matched req loc)" and df: "driver_free X d db (loc_ID loc)"
  let ?a = "new_assignment req (loc_ID loc)"
  have ra: "record_answer X d db req (loc_ID loc) = Inr None"
    using ca rid df by (auto simp: claim_answer_def record_answer_def split: sum.splits if_splits)
  have v: "view X db' = with_trip X d db ?a (claimed X d db (req_RequestID req) (loc_ID loc))"
    using rid df ra by (simp add: db' eff claim_effect_def)
  have va: "validatePickup ?a = Inr ()" using ra by (auto simp: record_answer_def split: sum.splits)
  have "assignment_of X (new_hash X ?a) = ?a"
    using va by (auto simp: assignment_of_def field_def validatePickup_def ValidateCoordinates_ok_iff parse_format)
  then show "stored X d db' (req_RequestID req) = Some (new_assignment req (res_DriverID (search_answer X d db req)))"
    by (simp add: stored_def hash_at_def v with_trip_def Let_def ans matched_def)
  show "str_at X db' (rider_key d (req_RiderID req)) = Some (req_RequestID req)"
    "str_at X db' (owner_key d (res_DriverID (search_answer X d db req))) = Some (req_RequestID req)"
    "str_at X db' (lock_key d (res_DriverID (search_answer X d db req))) = Some (req_RequestID req)"
    "str_at X db' (stat_key d (res_DriverID (search_answer X d db req))) = Some ''busy''"
    by (simp_all add: str_at_def v with_trip_def claimed_def Let_def ans matched_def)
qed

lemma free_rider_key:
  assumes inv: "store_inv A X d db" and n: "active_trip X d db p = None"
  shows "view X db (rider_key d p) = None"
proof (cases "str_at X db (rider_key d p)")
  case None
  then show ?thesis using str_at_None [OF typedD(2) [OF inv_typed [OF inv]]] by blast
next
  case (Some r)
  then show ?thesis by (rule active_trip_Some [OF inv]) (use n in simp)
qed

text \<open>Cancelling the fresh assignment restores every value but the record of the request.\<close>

lemma cancel_after_search:
  assumes inv: "store_inv A X d db" and suc: "res_Success (search_answer X d db req)"
    and rid: "req_RiderID req \<noteq> []" "TrimSpace (req_RequestID req) \<noteq> []"
    and db': "view X db' = search_effect X d db req"
  shows "cancel_answer X d db' (req_RequestID req) = Inr
      ((new_assignment req (res_DriverID (search_answer X d db req)))\<lparr>a_Status := ''cancelled''\<rparr>)"
    "k \<noteq> asg_key d (req_RequestID req) \<Longrightarrow>
      vals (cancel_effect X d db' (req_RequestID req)) k = vals (view X db) k"
proof -
  let ?r = "req_RequestID req" and ?v = "res_DriverID (search_answer X d db req)" and ?p = "req_RiderID req"
  note trip = search_trip [OF suc rid(1) db']
  show ans: "cancel_answer X d db' ?r = Inr ((new_assignment req ?v)\<lparr>a_Status := ''cancelled''\<rparr>)"
    using rid(2) trip(1,4) by (simp add: cancel_answer_def trip_cancel_answer_def)
  show "vals (cancel_effect X d db' ?r) k = vals (view X db) k" if k: "k \<noteq> asg_key d ?r"
  proof (rule search_success [OF suc])
    fix locs loc
    assume m: "search_answer X d db req = matched req loc" and eff: "search_effect X d db req = claim_effect X d db req loc"
      and ca: "claim_answer X d db req loc = Inr (matched req loc)" and df: "driver_free X d db (loc_ID loc)"
    have v: "?v = loc_ID loc" by (simp add: m matched_def)
    have ra: "record_answer X d db req (loc_ID loc) = Inr None"
      using ca rid df by (auto simp: claim_answer_def record_answer_def split: sum.splits if_splits)
    then have "active_trip X d db ?p = None" by (auto simp: record_answer_def split: sum.splits if_splits)
    from free_rider_key [OF inv this] df have free: "view X db (rider_key d ?p) = None"
      "view X db (owner_key d ?v) = None" "view X db (lock_key d ?v) = None"
      "\<exists>dl. view X db (stat_key d ?v) = Some (RStr ''available'', dl)"
      by (auto simp: driver_free_def v str_at_Some)
    have V: "view X db' = with_trip X d db (new_assignment req ?v) (claimed X d db ?r ?v)"
      using rid df ra by (simp add: db' eff claim_effect_def v)
    show ?thesis
      using free k trip(5)
      by (auto simp: vals_def cancel_effect_def after_cancel_def ans V with_trip_def claimed_def Let_def)
  qed
qed

end

end
