(* ===== verification/Presence.thy ===== *)
theory Presence
  imports Consequences
begin

text \<open>
  The presence of a driver: what a location update and a heartbeat do to the
  index and to the status, and how a scan of the status keys counts them.
\<close>

definition location_answer :: "float64 \<Rightarrow> float64 \<Rightarrow> string \<Rightarrow> err + unit" where
  "location_answer lon lat v =
     (if TrimSpace v = [] then Inl (Geo ErrInvalidLocationID)
      else case ValidateCoordinates lon lat of
          Inl e \<Rightarrow> Inl e
        | Inr _ \<Rightarrow> if geo_range (fin lon) (fin lat) then Inr () else Inl (Rdb InvalidGeo))"

text \<open>The index with the driver's new position, and his status after the update.\<close>

definition indexed :: "'db ext \<Rightarrow> Dispatcher \<Rightarrow> 'db \<Rightarrow> string \<Rightarrow> rat \<times> rat \<Rightarrow> rval \<times> int option" where
  "indexed X d db v p = (RGeo ((geo_at X db (geo_key d))(v \<mapsto> geo_cell X p)),
     case view X db (geo_key d) of None \<Rightarrow> None | Some (_, dl) \<Rightarrow> dl)"

definition status_after_update :: "'db ext \<Rightarrow> Dispatcher \<Rightarrow> 'db \<Rightarrow> string \<Rightarrow> rval \<times> int option" where
  "status_after_update X d db v =
     (if view X db (owner_key d v) \<noteq> None
      then (RStr StatusBusy, until X db (lc_driverStatusTTL (d_lifecycle d)))
      else (RStr (case str_at X db (stat_key d v) of None \<Rightarrow> StatusAvailable | Some s \<Rightarrow> s),
            until X db (ds_defaultTTL (d_driverService d))))"

definition location_effect :: "'db ext \<Rightarrow> Dispatcher \<Rightarrow> 'db \<Rightarrow> string \<Rightarrow> float64 \<Rightarrow> float64
    \<Rightarrow> string \<Rightarrow> (rval \<times> int option) option" where
  "location_effect X d db v lon lat =
     (case location_answer lon lat v of
        Inl _ \<Rightarrow> view X db
      | Inr _ \<Rightarrow> (view X db)(geo_key d \<mapsto> indexed X d db v (fin lon, fin lat),
          stat_key d v \<mapsto> status_after_update X d db v))"

context deployment
begin

lemma AddLocation_answers:
  assumes ty: "typed X d db"
  shows "answers X (AddLocation X (d_geoService d) loc) db
    (location_answer (loc_Longitude loc) (loc_Latitude loc) (loc_ID loc))
    (case location_answer (loc_Longitude loc) (loc_Latitude loc) (loc_ID loc) of
       Inl _ \<Rightarrow> view X db
     | Inr _ \<Rightarrow> (view X db)(geo_key d \<mapsto> indexed X d db (loc_ID loc) (fin (loc_Longitude loc), fin (loc_Latitude loc))))"
proof (cases "TrimSpace (loc_ID loc) = []")
  case True
  then show ?thesis by (intro answersI) (simp_all add: AddLocation_def location_answer_def)
next
  case False
  show ?thesis
  proof (cases rule: ValidateCoordinates_cases [of "loc_Longitude loc" "loc_Latitude loc"])
    case invalid
    with False show ?thesis by (intro answersI) (simp_all add: AddLocation_def location_answer_def)
  next
    case (valid x y)
    have "yields X (r_geoadd X (geo_key d) (loc_ID loc) (Fin x) (Fin y)) db
       (if geo_range x y then Inr () else Inl InvalidGeo)
       (if geo_range x y then (view X db)(geo_key d \<mapsto> indexed X d db (loc_ID loc) (x, y)) else view X db)"
      by (rule holds_driversE [OF typedD(6) [OF ty]])
        (auto simp: yields_def geoadd_res geoadd_view geoadd_clock indexed_def geo_at_def)
    from answers_call [OF this] False valid show ?thesis
      by (cases "geo_range x y") (simp_all add: AddLocation_def location_answer_def)
  qed
qed

lemma refresh_code_owner:
  assumes inv: "store_inv A X d db"
  shows "refresh_code X d db v = (if view X db (owner_key d v) = None then 0 else 1)"
proof (rule holds_stringE [OF typedD(3) [OF inv_typed [OF inv], of v]])
  fix r dl assume o: "view X db (owner_key d v) = Some (RStr r, dl)"
  from linked_ownerD [OF inv o] obtain h where "view X db (asg_key d r) = Some (RHash h, dl)"
    "h ''driver_id'' = Some v" "active_status (h ''status'')" by blast
  with o show ?thesis by (simp add: refresh_code_def str_at_def hash_at_def)
qed (simp add: refresh_code_def str_at_def)

lemma refresh_answers:
  assumes inv: "store_inv A X d db"
  shows "answers X (refreshActiveDriver X (d_lifecycle d) v) db (Inr (view X db (owner_key d v) \<noteq> None))
    (if view X db (owner_key d v) \<noteq> None
     then (view X db)(stat_key d v \<mapsto> (RStr ''busy'', until X db (lc_driverStatusTTL (d_lifecycle d)))) else view X db)"
  unfolding refreshActiveDriver_def
  by (rule answers_attempt [OF answers_call [OF refresh_spec [OF inv_typed [OF inv], of v], unfolded map_err_simps]])
    (auto simp: refresh_code_owner [OF inv] until_def intro!: answers_ok)

lemma Heartbeat_answers:
  assumes ty: "typed X d db" and v: "TrimSpace v \<noteq> []"
  shows "answers X (Heartbeat X (d_driverService d) v) db
    (if str_at X db (stat_key d v) = None then Inl (Drv ErrDriverOffline) else Inr ())
    (case str_at X db (stat_key d v) of None \<Rightarrow> view X db
     | Some s \<Rightarrow> (view X db)(stat_key d v \<mapsto> (RStr s, until X db (ds_defaultTTL (d_driverService d)))))"
proof -
  have y: "yields X (r_expire X (stat_key d v) (ds_defaultTTL (d_driverService d) div Second)) db
     (Inr (if str_at X db (stat_key d v) = None then 0 else 1))
     (case str_at X db (stat_key d v) of None \<Rightarrow> view X db
      | Some s \<Rightarrow> (view X db)(stat_key d v \<mapsto> (RStr s, until X db (ds_defaultTTL (d_driverService d)))))"
    by (rule holds_stringE [OF typedD(4) [OF ty, of v]])
      (simp_all add: yields_def expire_res expire_view expire_clock str_at_def until_def)
  show ?thesis
    unfolding Heartbeat_def statusKey_eq ttl_simps
    using v by (simp only: if_False, intro answers_attempt [OF answers_call [OF y, unfolded map_err_simps]])
      (auto intro!: answers_ok answers_fail)
qed

lemma stay_present_answers:
  assumes ty: "typed X d db" and v: "TrimSpace v \<noteq> []"
  shows "answers X (stay_present X d v) db (Inr ())
    ((view X db)(stat_key d v \<mapsto> (RStr (case str_at X db (stat_key d v) of None \<Rightarrow> ''available'' | Some s \<Rightarrow> s),
       until X db (ds_defaultTTL (d_driverService d)))))"
  unfolding stay_present_def
proof (rule answers_bind [OF Heartbeat_answers [OF ty v]])
  fix db' assume "view X db' = (case str_at X db (stat_key d v) of None \<Rightarrow> view X db
     | Some s \<Rightarrow> (view X db)(stat_key d v \<mapsto> (RStr s, until X db (ds_defaultTTL (d_driverService d)))))"
    and c: "clock X db' = clock X db"
  then show "answers X (case if str_at X db (stat_key d v) = None then Inl (Drv ErrDriverOffline) else Inr () of
         Inl e \<Rightarrow> if e = Drv ErrDriverOffline then SetAvailable X (d_driverService d) v else fail e
       | Inr _ \<Rightarrow> ok ()) db' (Inr ())
    ((view X db)(stat_key d v \<mapsto> (RStr (case str_at X db (stat_key d v) of None \<Rightarrow> ''available'' | Some s \<Rightarrow> s),
       until X db (ds_defaultTTL (d_driverService d)))))"
    using SetAvailable_answers [OF v, of db'] until_eq [OF c]
    by (cases "str_at X db (stat_key d v)") (auto intro!: answers_ok)
qed

lemma UpdateDriverLocation_answers:
  assumes inv: "store_inv A X d db"
  shows "answers X (UpdateDriverLocation X d v lon lat) db (location_answer lon lat v) (location_effect X d db v lon lat)"
proof (cases "location_answer lon lat v")
  case (Inl e)
  with AddLocation_answers [OF inv_typed [OF inv], of "\<lparr>loc_ID = v, loc_Longitude = lon, loc_Latitude = lat, loc_DistanceKm = Fin 0\<rparr>"]
  show ?thesis unfolding UpdateDriverLocation_def by (auto simp: location_effect_def intro: answers_attempt_err)
next
  case (Inr u)
  then have v: "TrimSpace v \<noteq> []" by (auto simp: location_answer_def split: if_splits)
  let ?i = "indexed X d db v (fin lon, fin lat)"
  have add: "answers X (AddLocation X (d_geoService d)
      \<lparr>loc_ID = v, loc_Longitude = lon, loc_Latitude = lat, loc_DistanceKm = Fin 0\<rparr>) db (Inr ())
      ((view X db)(geo_key d \<mapsto> ?i))"
    using AddLocation_answers [OF inv_typed [OF inv], of "\<lparr>loc_ID = v, loc_Longitude = lon, loc_Latitude = lat, loc_DistanceKm = Fin 0\<rparr>"] Inr
    by simp
  have drivers: "holds_drivers (Some ?i)"
    using typedD(6) [OF inv_typed [OF inv]] v by (auto simp: indexed_def geo_at_def elim!: holds_driversE)
  show ?thesis
    unfolding UpdateDriverLocation_def
  proof (rule answers_attempt [OF add])
    fix db1 assume db1: "view X db1 = (view X db)(geo_key d \<mapsto> ?i)" "clock X db1 = clock X db"
    have inv1: "store_inv A X d db1"
      by (rule keeps_inv [OF inv keeps_tripsI]) (use typedD [OF inv_typed [OF inv]] drivers in \<open>simp_all add: db1\<close>)
    have st: "str_at X db1 (stat_key d v) = str_at X db (stat_key d v)" by (simp add: str_at_def db1)
    note effect = location_effect_def status_after_update_def Inr db1 st
    show "answers X (attempt (refreshActiveDriver X (d_lifecycle d) v) (\<lambda>active.
       if active then ok () else stay_present X d v)) db1 (location_answer lon lat v) (location_effect X d db v lon lat)"
    proof (cases "view X db (owner_key d v) = None")
      case False
      then show ?thesis
        by (intro answers_attempt [OF refresh_answers [OF inv1]])
          (auto simp: effect until_eq [OF db1(2)] intro!: answers_ok)
    next
      case True
      have present: "answers X (stay_present X d v) db2 (location_answer lon lat v) (location_effect X d db v lon lat)"
        if V: "view X db2 = view X db1" and c: "clock X db2 = clock X db1" for db2
        using stay_present_answers [OF inv_typed [OF inv_same_view [OF inv1 V]] v] True st V
        by (simp add: effect until_eq [OF c] until_eq [OF db1(2)] str_at_def)
      from True show ?thesis
        by (intro answers_attempt [OF refresh_answers [OF inv1]]) (simp add: present db1)
    qed
  qed
qed

end

end
