(* ===== verification/Scans.thy ===== *)
theory Scans
  imports Outcomes
begin

text \<open>
  The scan of the status keys: on a store nobody changes it ends, visits
  every driver with a status at least once and nobody else. A cursor scan
  may return a key on several pages, and then its driver is visited again.
\<close>

definition page_visits :: "'db ext \<Rightarrow> DriverService \<Rightarrow> 'db \<Rightarrow> string list \<Rightarrow> (string \<times> DriverStatus) list" where
  "page_visits X ds db keys = visits ds keys (map (str_at X db) keys)"

lemma set_visits_map:
  "set (visits ds keys (map f keys)) =
     {(TrimPrefix k (ds_keyPrefix ds @ '':status:''), s) | k s. k \<in> set keys \<and> f k = Some s}"
  by (induction keys) (auto simp: visits_def split: option.split)

lemma TrimPrefix_append [simp]: "TrimPrefix (p @ x) p = x"
  by (simp add: TrimPrefix_def)

context redis
begin

lemma mget_strings: "r_mget X ks db = Inr (map (str_at X db) ks)"
  by (simp add: mget_eq str_at_def)

lemma scan_loop_pages:
  assumes "scan_iter X db (scanPattern ds) 100 n c = Some pages"
  shows "scan_loop X ds c acc (quiet db) = Some ((None, acc @ concat (map (page_visits X ds db) pages)), quiet db)"
  using assms
proof (induction n arbitrary: c acc pages)
  case (Suc n)
  then obtain ks c' where s: "r_scan X c (scanPattern ds) 100 db = Inr (ks, c')"
    by (auto split: sum.splits)
  have vals: "(if ks = [] then (Inr [], quiet db) else run_state (call (rd (r_mget X ks))) (quiet db)) =
      (Inr (map (str_at X db) ks), quiet db)"
    by (simp add: run_call_quiet mget_strings)
  show ?case
  proof (cases "c' = 0")
    case True
    with Suc.prems s have "pages = [ks]" by simp
    then show ?thesis
      by (subst scan_loop.simps) (simp add: run_call_quiet s vals True page_visits_def)
  next
    case False
    with Suc.prems s obtain ps where ps: "scan_iter X db (scanPattern ds) 100 n c' = Some ps" "pages = ks # ps" by auto
    have "visits ds ks (map (str_at X db) ks) = page_visits X ds db ks" by (simp add: page_visits_def)
    with Suc.IH [OF ps(1)] show ?thesis
      by (subst scan_loop.simps) (simp add: run_call_quiet s vals False ps(2))
  qed
qed simp

text \<open>The scan ends, and visits exactly the drivers that have a status.\<close>

lemma scanStatuses_visits:
  assumes g: "glob_free (ds_keyPrefix ds @ '':status:'')"
  obtains visited where "scanStatuses X ds (quiet db) = Some ((None, visited), quiet db)"
    "set visited = {(v, s). str_at X db (statusKey ds v) = Some s}"
proof -
  let ?p = "ds_keyPrefix ds @ '':status:''"
  obtain n pages where it: "scan_iter X db (?p @ ''*'') 100 n 0 = Some pages"
      and ks: "set (concat pages) = {k. prefix ?p k \<and> view X db k \<noteq> None}"
    using scan_all [OF g] by blast
  let ?vs = "concat (map (page_visits X ds db) pages)"
  have "scan_iter X db (scanPattern ds) 100 n 0 = Some pages" using it by (simp add: scanPattern_def)
  from scan_loop_pages [OF this] have "scanStatuses X ds (quiet db) = Some ((None, ?vs), quiet db)"
    by (simp add: scanStatuses_def)
  moreover have "set ?vs = {(v, s). str_at X db (statusKey ds v) = Some s}"
  proof -
    have "set ?vs = {(TrimPrefix k ?p, s) | k s. k \<in> set (concat pages) \<and> str_at X db k = Some s}"
      by (auto simp: page_visits_def set_visits_map)
    also have "\<dots> = {(TrimPrefix k ?p, s) | k s. prefix ?p k \<and> str_at X db k = Some s}"
      unfolding ks by (auto simp: str_at_Some)
    also have "\<dots> = {(v, s). str_at X db (statusKey ds v) = Some s}"
    proof (intro equalityI subsetI; clarsimp simp: prefix_def)
      fix s y assume "str_at X db (ds_keyPrefix ds @ CHR '':'' # CHR ''s'' # CHR ''t'' # CHR ''a'' # CHR ''t'' # CHR ''u'' # CHR ''s'' # CHR '':'' # y) = Some s"
      then show "str_at X db (statusKey ds (TrimPrefix (ds_keyPrefix ds @ CHR '':'' # CHR ''s'' # CHR ''t'' # CHR ''a'' # CHR ''t'' # CHR ''u'' # CHR ''s'' # CHR '':'' # y)
          (ds_keyPrefix ds @ '':status:''))) = Some s"
        using TrimPrefix_append [of ?p y] by (simp add: statusKey_def)
    next
      fix v s assume "str_at X db (statusKey ds v) = Some s"
      then show "\<exists>k. v = TrimPrefix k (ds_keyPrefix ds @ '':status:'') \<and>
          (\<exists>zs. k = ds_keyPrefix ds @ CHR '':'' # CHR ''s'' # CHR ''t'' # CHR ''a'' # CHR ''t'' # CHR ''u'' # CHR ''s'' # CHR '':'' # zs) \<and>
          str_at X db k = Some s"
        using TrimPrefix_append [of ?p v] by (intro exI [of _ "?p @ v"]) (simp add: statusKey_def)
    qed
    finally show ?thesis .
  qed
  ultimately show ?thesis by (rule that)
qed

lemma GetAvailableDrivers_all:
  assumes "glob_free (ds_keyPrefix ds @ '':status:'')"
  shows "\<exists>vs. GetAvailableDrivers X ds (quiet db) = Some (Inr vs, quiet db) \<and>
    set vs = {v. str_at X db (statusKey ds v) = Some StatusAvailable}"
  by (rule scanStatuses_visits [OF assms, of db]) (force simp: GetAvailableDrivers_def)

lemma GetDriverStats_counts:
  assumes "glob_free (ds_keyPrefix ds @ '':status:'')"
  shows "\<exists>total available. GetDriverStats X ds (quiet db) = Some ((total, available, None), quiet db) \<and>
    available \<le> total \<and> card {v. str_at X db (statusKey ds v) \<noteq> None} \<le> total \<and>
    card {v. str_at X db (statusKey ds v) = Some StatusAvailable} \<le> available"
proof (rule scanStatuses_visits [OF assms, of db])
  fix visited
  assume r: "scanStatuses X ds (quiet db) = Some ((None, visited), quiet db)"
    and s: "set visited = {(v, s). str_at X db (statusKey ds v) = Some s}"
  have all: "{v. str_at X db (statusKey ds v) \<noteq> None} = fst ` set visited" unfolding s by force
  have av: "{v. str_at X db (statusKey ds v) = Some StatusAvailable} =
      fst ` set (filter (\<lambda>(d, s). s = StatusAvailable) visited)"
    using s by (force simp: set_filter)
  have "card (fst ` set xs) \<le> length xs" for xs :: "(string \<times> DriverStatus) list"
    by (metis card_length length_map set_map)
  from this [of visited] this [of "filter (\<lambda>(d, s). s = StatusAvailable) visited"] r
  show ?thesis unfolding all av by (simp add: GetDriverStats_def del: set_filter)
qed

end

end
