(* ===== verification/Lock_Discipline.thy ===== *)
theory Lock_Discipline
  imports Matching
begin

text \<open>
  The driver lock as an interface: what a client may rely on when it
  acquires, extends and releases locks, the mutual exclusion that follows
  for any sequence of such calls, and the lock manager as an instance.
\<close>

datatype lock_op = Acquire string string | Extend string string | Release string string

fun op_driver :: "lock_op \<Rightarrow> string" where
  "op_driver (Acquire v r) = v" | "op_driver (Extend v r) = v" | "op_driver (Release v r) = v"

fun op_request :: "lock_op \<Rightarrow> string" where
  "op_request (Acquire v r) = r" | "op_request (Extend v r) = r" | "op_request (Release v r) = r"

text \<open>Who holds each lock after one call, and whether the call answers success.\<close>

fun next_holder :: "(string \<Rightarrow> string option) \<Rightarrow> lock_op \<Rightarrow> string \<Rightarrow> string option" where
  "next_holder h (Acquire v r) = (if h v = None then h(v \<mapsto> r) else h)"
| "next_holder h (Extend v r) = h"
| "next_holder h (Release v r) = (if h v = Some r then h(v := None) else h)"

fun granted :: "(string \<Rightarrow> string option) \<Rightarrow> lock_op \<Rightarrow> bool" where
  "granted h (Acquire v r) \<longleftrightarrow> h v = None"
| "granted h (Extend v r) \<longleftrightarrow> h v = Some r"
| "granted h (Release v r) \<longleftrightarrow> h v = Some r"

locale exclusive_lock =
  fixes valid :: "'s \<Rightarrow> bool"
    and holder :: "'s \<Rightarrow> string \<Rightarrow> string option"
    and perform :: "lock_op \<Rightarrow> 's \<Rightarrow> bool \<times> 's"
  assumes stays_valid: "valid s \<Longrightarrow> valid (snd (perform x s))"
    and answer: "valid s \<Longrightarrow> fst (perform x s) = granted (holder s) x"
    and effect: "valid s \<Longrightarrow> holder (snd (perform x s)) = next_holder (holder s) x"
begin

fun run_ops :: "lock_op list \<Rightarrow> 's \<Rightarrow> bool list \<times> 's" where
  "run_ops [] s = ([], s)"
| "run_ops (x # xs) s = (let (b, s1) = perform x s; (bs, s2) = run_ops xs s1 in (b # bs, s2))"

text \<open>Until its holder releases it, a lock stays held and no other request is granted anything on it.\<close>

lemma step_holder:
  assumes "valid s" "holder s v = Some r" "x \<noteq> Release v r"
  shows "holder (snd (perform x s)) v = Some r"
    and "op_driver x = v \<Longrightarrow> op_request x \<noteq> r \<Longrightarrow> \<not> fst (perform x s)"
  using assms by (cases x; auto simp: effect answer)+

lemma held_until_released:
  assumes "valid s" "holder s v = Some r" "Release v r \<notin> set xs"
  shows "holder (snd (run_ops xs s)) v = Some r \<and>
    (\<forall>(x, b) \<in> set (zip xs (fst (run_ops xs s))). op_driver x = v \<longrightarrow> op_request x \<noteq> r \<longrightarrow> \<not> b)"
  using assms
proof (induction xs arbitrary: s)
  case (Cons x xs)
  let ?s1 = "snd (perform x s)"
  from Cons.prems(3) have n: "x \<noteq> Release v r" "Release v r \<notin> set xs" by auto
  note h1 = step_holder [OF Cons.prems(1,2) n(1)]
  from Cons.IH [OF stays_valid [OF Cons.prems(1)] h1(1) n(2)] h1(2)
  show ?case by (auto simp: case_prod_beta Let_def)
qed simp

end

section \<open>The lock manager\<close>

text \<open>One call of the lock manager without interference; any error counts as a refusal.\<close>

definition lock_call :: "'db ext \<Rightarrow> LockManager \<Rightarrow> lock_op \<Rightarrow> 'db \<Rightarrow> bool \<times> 'db" where
  "lock_call X lm x db =
     (case x of
        Acquire v r \<Rightarrow> (case run_state (TryLock X lm v r) (quiet db) of (res, w) \<Rightarrow> (res = Inr True, wdb w))
      | Extend v r \<Rightarrow> (case run_state (ExtendLock X lm v r) (quiet db) of (res, w) \<Rightarrow> (res = Inr (), wdb w))
      | Release v r \<Rightarrow> (case run_state (Unlock X lm v r) (quiet db) of (res, w) \<Rightarrow> (res = Inr (), wdb w)))"

definition lock_holder :: "'db ext \<Rightarrow> Dispatcher \<Rightarrow> 'db \<Rightarrow> string \<Rightarrow> string option" where
  "lock_holder X d db v = str_at X db (lock_key d v)"

text \<open>The call keeps the types of the keys, answers and does what the interface says.\<close>

definition call_correct :: "'db ext \<Rightarrow> Dispatcher \<Rightarrow> lock_op \<Rightarrow> 'db \<Rightarrow> bool" where
  "call_correct X d x db \<longleftrightarrow> typed X d (snd (lock_call X (d_lockManager d) x db)) \<and>
    fst (lock_call X (d_lockManager d) x db) = granted (lock_holder X d db) x \<and>
    lock_holder X d (snd (lock_call X (d_lockManager d) x db)) = next_holder (lock_holder X d db) x"

context deployment
begin

lemma Extend_answers:
  assumes "typed X d db"
  shows "answers X (ExtendLock X (d_lockManager d) v r) db
    (if str_at X db (lock_key d v) = Some r then Inr () else Inl (Lck ErrLockNotHeld))
    (if str_at X db (lock_key d v) = Some r
     then (view X db)(lock_key d v \<mapsto> (RStr r, until X db (lm_lockTTL (d_lockManager d)))) else view X db)"
  unfolding ExtendLock_def ttl_simps until_def
  by (rule answers_attempt [OF answers_call [OF extend_spec [OF assms], of v r, unfolded map_err_simps]])
    (auto intro!: answers_ok answers_fail)

text \<open>What one write of a lock does to the holders.\<close>

lemma lock_written:
  assumes ty: "typed X d db"
    and V: "view X db' = (if b then (view X db)(lock_key d v := map_option (\<lambda>q. (RStr q, dl)) w) else view X db)"
  shows "typed X d db'" "lock_holder X d db' = (if b then (lock_holder X d db)(v := w) else lock_holder X d db)"
proof -
  show "typed X d db'"
    by (rule keeps_typed [OF ty keeps_tripsI]) (use typedD [OF ty] in \<open>auto simp: V map_option_case split: option.split\<close>)
  show "lock_holder X d db' = (if b then (lock_holder X d db)(v := w) else lock_holder X d db)"
    by (auto simp: fun_eq_iff lock_holder_def str_at_def V split: option.split)
qed

lemma acquire_correct:
  assumes ty: "typed X d db"
  shows "call_correct X d (Acquire v r) db"
proof -
  from TryLock_answers [of v r db] obtain db' where run: "run_state (TryLock X (d_lockManager d) v r) (quiet db) =
      (Inr (view X db (lock_key d v) = None), quiet db')"
    and V: "view X db' = (if view X db (lock_key d v) = None
       then (view X db)(lock_key d v \<mapsto> (RStr r, until X db (lm_lockTTL (d_lockManager d)))) else view X db)"
    by (rule answersE)
  have holder: "view X db (lock_key d v) = None \<longleftrightarrow> lock_holder X d db v = None"
    using view_str_at(1) [OF ty] by (simp add: lock_holder_def)
  from lock_written [OF ty, where w = "Some r", unfolded option.map, OF V] run show ?thesis
    by (simp add: call_correct_def lock_call_def holder)
qed

lemma extend_correct:
  assumes ty: "typed X d db"
  shows "call_correct X d (Extend v r) db"
proof -
  from Extend_answers [OF ty, of v r] obtain db' where run: "run_state (ExtendLock X (d_lockManager d) v r) (quiet db) =
      (if str_at X db (lock_key d v) = Some r then Inr () else Inl (Lck ErrLockNotHeld), quiet db')"
    and V: "view X db' = (if str_at X db (lock_key d v) = Some r
       then (view X db)(lock_key d v \<mapsto> (RStr r, until X db (lm_lockTTL (d_lockManager d)))) else view X db)"
    by (rule answersE)
  from lock_written [OF ty, where w = "Some r", unfolded option.map, OF V] run show ?thesis
    by (auto simp: call_correct_def lock_call_def lock_holder_def)
qed

lemma release_correct:
  assumes ty: "typed X d db"
  shows "call_correct X d (Release v r) db"
proof -
  from Unlock_answers [OF ty, of v r] obtain db' where run: "run_state (Unlock X (d_lockManager d) v r) (quiet db) =
      (case str_at X db (lock_key d v) of None \<Rightarrow> Inl (Lck ErrLockExpired)
       | Some l \<Rightarrow> if l = r then Inr () else Inl (Lck ErrLockNotHeld), quiet db')"
    and V: "view X db' = (if str_at X db (lock_key d v) = Some r then (view X db)(lock_key d v := None) else view X db)"
    by (rule answersE)
  from lock_written [OF ty, where w = None, unfolded option.map, OF V] run show ?thesis
    by (auto simp: call_correct_def lock_call_def lock_holder_def split: option.splits)
qed

lemma lock_call_correct: "typed X d db \<Longrightarrow> call_correct X d x db"
  using acquire_correct extend_correct release_correct by (cases x) simp_all

end

sublocale deployment \<subseteq> driver_lock: exclusive_lock "typed X d" "lock_holder X d" "lock_call X (d_lockManager d)"
  by unfold_locales (use lock_call_correct [unfolded call_correct_def] in blast)+

text \<open>A sequence of calls, run one after the other on the store.\<close>

fun lock_calls :: "'db ext \<Rightarrow> LockManager \<Rightarrow> lock_op list \<Rightarrow> 'db \<Rightarrow> bool list \<times> 'db" where
  "lock_calls X lm [] db = ([], db)"
| "lock_calls X lm (x # xs) db =
     (let (b, db1) = lock_call X lm x db; (bs, db2) = lock_calls X lm xs db1 in (b # bs, db2))"

context deployment
begin

lemma run_ops_calls: "driver_lock.run_ops xs db = lock_calls X (d_lockManager d) xs db"
  by (induction xs arbitrary: db) (simp_all add: Let_def case_prod_beta)

lemmas lock_held_until_released = driver_lock.held_until_released [unfolded run_ops_calls]

end

end
