(* ===== verification/Great_Circle.thy ===== *)
theory Great_Circle
  imports Dispatcher
begin

text \<open>
  The distance of the arrival check: \<open>distanceKm\<close> is the great-circle
  distance, the angle between the two points seen from the centre times the
  radius. So it is symmetric, zero for equal points, and at most half a
  circumference. The statements are about real numbers; the rounding of the
  float evaluation is not modelled.
\<close>

lemma Atan2_quadrant:
  assumes "0 \<le> a" "a \<le> 1"
  shows "Atan2 (sqrt a) (sqrt (1 - a)) = arcsin (sqrt a)"
proof (cases "a = 1")
  case True
  then show ?thesis by (simp add: Atan2_def)
next
  case False
  with assms have "a < 1" by simp
  then have s: "-1 < sqrt a" "sqrt a < 1" using assms by (auto intro: less_le_trans [of _ 0])
  then have "arcsin (sqrt a) = arctan (sqrt a / sqrt (1 - (sqrt a)\<^sup>2))" by (rule arcsin_arctan)
  then show ?thesis using \<open>a < 1\<close> assms by (simp add: Atan2_def)
qed

definition latitude_ok :: "real \<Rightarrow> bool" where
  "latitude_ok lat \<longleftrightarrow> -90 \<le> lat \<and> lat \<le> 90"

lemma cos_latitude:
  assumes "latitude_ok lat"
  shows "0 \<le> cos (toRadians lat)"
proof (rule cos_ge_zero)
  have "(-90) * pi \<le> lat * pi" "lat * pi \<le> 90 * pi"
    using assms by (auto simp: latitude_ok_def intro!: mult_right_mono simp del: mult_minus_left)
  then show "- (pi / 2) \<le> toRadians lat" "toRadians lat \<le> pi / 2"
    by (simp_all add: toRadians_def)
qed

text \<open>The cosine of the central angle, by the spherical law of cosines.\<close>

definition cos_angle :: "real \<Rightarrow> real \<Rightarrow> real \<Rightarrow> real \<Rightarrow> real" where
  "cos_angle lon1 lat1 lon2 lat2 =
     sin (toRadians lat1) * sin (toRadians lat2) +
     cos (toRadians lat1) * cos (toRadians lat2) * cos (toRadians (lon2 - lon1))"

lemma sin_half_sq: "2 * (sin (x / 2) * sin (x / 2)) = 1 - cos (x::real)"
  using cos_double_sin [of "x / 2"] by (simp add: power2_eq_square)

lemma haversine_angle: "1 - 2 * haversine lon1 lat1 lon2 lat2 = cos_angle lon1 lat1 lon2 lat2"
proof -
  let ?p = "toRadians lat1" and ?q = "toRadians lat2" and ?l = "toRadians (lon2 - lon1)"
  have "2 * haversine lon1 lat1 lon2 lat2 =
      2 * (sin ((?q - ?p) / 2) * sin ((?q - ?p) / 2)) + cos ?p * cos ?q * (2 * (sin (?l / 2) * sin (?l / 2)))"
    by (simp add: haversine_def Let_def algebra_simps)
  also have "\<dots> = (1 - cos (?q - ?p)) + cos ?p * cos ?q * (1 - cos ?l)"
    by (simp only: sin_half_sq)
  finally show ?thesis by (simp add: cos_angle_def cos_diff algebra_simps)
qed

lemma haversine_range:
  assumes "latitude_ok lat1" "latitude_ok lat2"
  shows "0 \<le> haversine lon1 lat1 lon2 lat2" "haversine lon1 lat1 lon2 lat2 \<le> 1"
proof -
  let ?p = "toRadians lat1" and ?q = "toRadians lat2" and ?l = "toRadians (lon2 - lon1)"
  note c = cos_latitude [OF assms(1)] cos_latitude [OF assms(2)]
  have "0 \<le> cos ?p * cos ?q * (sin (?l / 2) * sin (?l / 2))" using c by simp
  then show "0 \<le> haversine lon1 lat1 lon2 lat2"
    by (simp add: haversine_def Let_def mult.assoc)
  have "- (cos ?p * cos ?q) \<le> cos ?p * cos ?q * cos ?l"
    using mult_left_mono [OF cos_ge_minus_one [of ?l], of "cos ?p * cos ?q"] c by simp
  then have "cos_angle lon1 lat1 lon2 lat2 \<ge> - cos (?p + ?q)"
    by (simp add: cos_angle_def cos_add)
  then have "cos_angle lon1 lat1 lon2 lat2 \<ge> -1"
    using cos_le_one [of "?p + ?q"] by linarith
  then show "haversine lon1 lat1 lon2 lat2 \<le> 1"
    using haversine_angle [of lon1 lat1 lon2 lat2] by linarith
qed

lemma distanceKm_angle:
  assumes "latitude_ok lat1" "latitude_ok lat2"
  shows "distanceKm lon1 lat1 lon2 lat2 = earthRadiusKm * arccos (cos_angle lon1 lat1 lon2 lat2)"
proof -
  let ?a = "haversine lon1 lat1 lon2 lat2"
  let ?t = "arcsin (sqrt ?a)"
  note a = haversine_range [OF assms, of lon1 lon2]
  have s: "0 \<le> sqrt ?a" "-1 \<le> sqrt ?a" "sqrt ?a \<le> 1" using a by (auto intro: order_trans [of _ 0])
  have t: "0 \<le> ?t" "?t \<le> pi / 2"
    using s arcsin_le_arcsin [of 0 "sqrt ?a"] arcsin_bounded [of "sqrt ?a"] by simp_all
  have "cos (2 * ?t) = 1 - 2 * (sin ?t)\<^sup>2" by (rule cos_double_sin)
  also have "\<dots> = 1 - 2 * ?a" using s a by simp
  finally have "arccos (cos_angle lon1 lat1 lon2 lat2) = 2 * ?t"
    using t arccos_cos [of "2 * ?t"] by (simp add: haversine_angle)
  then show ?thesis by (simp add: distanceKm_def Let_def Atan2_quadrant a)
qed

lemma haversine_sym: "haversine lon1 lat1 lon2 lat2 = haversine lon2 lat2 lon1 lat1"
proof -
  have "cos_angle lon1 lat1 lon2 lat2 = cos_angle lon2 lat2 lon1 lat1"
  proof -
    have "toRadians (lon1 - lon2) = - toRadians (lon2 - lon1)"
      by (simp add: toRadians_def left_diff_distrib diff_divide_distrib)
    then have "cos (toRadians (lon1 - lon2)) = cos (toRadians (lon2 - lon1))" by simp
    then show ?thesis by (simp add: cos_angle_def)
  qed
  then show ?thesis
    using haversine_angle [of lon1 lat1 lon2 lat2] haversine_angle [of lon2 lat2 lon1 lat1] by linarith
qed

lemma distanceKm_metric:
  "distanceKm lon1 lat1 lon2 lat2 = distanceKm lon2 lat2 lon1 lat1"
  "distanceKm lon1 lat1 lon1 lat1 = 0"
  by (simp_all add: distanceKm_def haversine_sym [of lon1 lat1 lon2] haversine_def [of lon1 lat1 lon1] Atan2_def toRadians_def)

lemma distanceKm_range:
  assumes "latitude_ok lat1" "latitude_ok lat2"
  shows "0 \<le> distanceKm lon1 lat1 lon2 lat2" "distanceKm lon1 lat1 lon2 lat2 \<le> pi * earthRadiusKm"
proof -
  have c: "-1 \<le> cos_angle lon1 lat1 lon2 lat2" "cos_angle lon1 lat1 lon2 lat2 \<le> 1"
    using haversine_range [OF assms, of lon1 lon2] haversine_angle [of lon1 lat1 lon2 lat2] by linarith+
  from arccos_bounded [OF c] show "0 \<le> distanceKm lon1 lat1 lon2 lat2"
    "distanceKm lon1 lat1 lon2 lat2 \<le> pi * earthRadiusKm"
    by (simp_all add: distanceKm_angle [OF assms] earthRadiusKm_def)
qed

end
