(* ===== verification/Sample.thy ===== *)
theory Sample
  imports Safety
begin

text \<open>
  One small run on the reference store, used by the witnesses: driver \<open>v1\<close>
  reports a position, a rider \<open>p1\<close> requests a trip and gets him. The stores
  along the run are written out; the run lemmas evaluate the service.
\<close>

definition start_store :: mem_db where
  "start_store = \<lparr>kv = [], time = 0\<rparr>"

definition driver_reports :: "(mem_db world, err + unit) state" where
  "driver_reports = UpdateDriverLocation mem server_dispatcher ''v1'' (Fin 0) (Fin 0)"

definition trip_request :: "string \<Rightarrow> string \<Rightarrow> DispatchRequest" where
  "trip_request r p = \<lparr>req_RequestID = r, req_RiderID = p, req_Longitude = Fin 0, req_Latitude = Fin 0,
     req_PickupLongitude = None, req_PickupLatitude = None, req_RadiusKm = Fin 0\<rparr>"

definition trip_dispatch :: "(mem_db world, DispatchResult) state" where
  "trip_dispatch = FindAndAssign mem server_dispatcher ''u1'' (trip_request ''r1'' ''p1'')"

definition idle_store :: mem_db where
  "idle_store = \<lparr>kv = [(''locations'', MGeo [(''v1'', 0, 0)], None),
     (''driver:status:v1'', MStr ''available'', Some 30000)], time = 0\<rparr>"

definition trip_record :: "(string \<times> string) list" where
  "trip_record = [(''status'', ''en_route''), (''pickup_latitude'', ''0/1''), (''pickup_longitude'', ''0/1''),
     (''driver_id'', ''v1''), (''rider_id'', ''p1''), (''request_id'', ''r1'')]"

definition trip_assignment :: Assignment where
  "trip_assignment = \<lparr>a_RequestID = ''r1'', a_RiderID = ''p1'', a_DriverID = ''v1'', a_PickupLongitude = Fin 0,
     a_PickupLatitude = Fin 0, a_Status = ''en_route''\<rparr>"

definition trip_store :: mem_db where
  "trip_store = \<lparr>kv = [(''locations'', MGeo [(''v1'', 0, 0)], None),
     (''driver:status:v1'', MStr ''busy'', Some 30000),
     (''dispatch:lock:v1'', MStr ''r1'', Some 10000),
     (''dispatch:assignment:r1'', MHash trip_record, Some 86400000),
     (''dispatch:rider-active:p1'', MStr ''r1'', Some 86400000),
     (''dispatch:driver-active:v1'', MStr ''r1'', Some 86400000)], time = 0\<rparr>"

lemma run_driver_reports: "wdb (snd (run_state driver_reports (quiet start_store))) = idle_store"
  by code_simp

lemma run_trip_dispatch: "wdb (snd (run_state trip_dispatch (quiet idle_store))) = trip_store"
  by code_simp

lemma env_stays_quiet [simp]: "env_stays P (quiet db)"
  by (simp add: env_stays_def)

lemma reachable_start: "reachable mem server_dispatcher start_store"
  unfolding reachable_def by (rule exI [of _ start_store]) (simp add: empty_store_def mem_view_def mem_find_def start_store_def)

lemma reachable_idle: "reachable mem server_dispatcher idle_store"
  unfolding run_driver_reports [symmetric] driver_reports_def
  by (rule reachable_run [OF stays_UpdateDriverLocation]) (simp_all add: reachable_start)

lemma reachable_trip: "reachable mem server_dispatcher trip_store"
  unfolding run_trip_dispatch [symmetric] trip_dispatch_def
  by (rule reachable_run [OF stays_FindAndAssign]) (simp_all add: reachable_idle)

lemma demo_reachable_trip: "demo_reachable mem server_dispatcher trip_store"
proof -
  obtain db0 where s: "empty_store mem db0" "(svc_step mem server_dispatcher)\<^sup>*\<^sup>* db0 trip_store"
    using reachable_trip by (auto simp: reachable_def)
  from s(2) have "(demo_step mem server_dispatcher)\<^sup>*\<^sup>* db0 trip_store"
    by (induction rule: rtranclp_induct) (auto intro: rtranclp.rtrancl_into_rtrancl demo_step.service)
  with s(1) show ?thesis by (auto simp: demo_reachable_def)
qed

lemma trip_assigned:
  "assigned {''en_route''} mem server_dispatcher trip_store ''r1'' ''driver_id'' ''v1''"
  "assigned {''en_route'', ''arrived''} mem server_dispatcher trip_store ''r1'' ''driver_id'' ''v1''"
  by code_simp+

text \<open>The reply to the seventh round trip of the search, the creation script, is lost.\<close>

definition lossy_world :: "mem_db world" where
  "lossy_world = \<lparr>wdb = idle_store, sched = replicate 6 (\<lambda>x. x, Delivered) @ [(\<lambda>x. x, ReplyLost)]\<rparr>"

text \<open>The same store shared with another process that renews the driver's status before every round trip.\<close>

definition other_beat :: "mem_db \<Rightarrow> mem_db" where
  "other_beat db = snd (run_state (r_expire mem (statusKey (d_driverService server_dispatcher) ''v1'')
     (dur_secs mem (ds_defaultTTL (d_driverService server_dispatcher)))) db)"

definition shared_world :: "mem_db world" where
  "shared_world = \<lparr>wdb = idle_store, sched = replicate 8 (other_beat, Delivered)\<rparr>"

lemma env_stays_shared: "env_stays (svc_step mem server_dispatcher) shared_world"
proof -
  have "svc_step mem server_dispatcher db (other_beat db)" for db
    unfolding other_beat_def by (rule svc_step.heartbeat)
  then show ?thesis by (simp add: env_stays_def shared_world_def r_into_rtranclp)
qed

end
