(* ===== verification/Trips.thy ===== *)
theory Trips
  imports Outcomes
begin

text \<open>
  The trips as an abstract machine. Its state is the assignment on record for
  each request; its steps create one, move it, or forget some. The store of
  the service, with all its keys and scripts, refines this machine: what is
  read back for the requests changes only as the machine allows.
\<close>

section \<open>The machine\<close>

type_synonym trips = "string \<rightharpoonup> Assignment"

text \<open>The rider or the driver has a trip whose status is one of \<open>A\<close>.\<close>

definition engaged :: "string set \<Rightarrow> trips \<Rightarrow> Assignment \<Rightarrow> bool" where
  "engaged A s a \<longleftrightarrow> (\<exists>r b. s r = Some b \<and> a_Status b \<in> A \<and>
     (a_RiderID b = a_RiderID a \<or> a_DriverID b = a_DriverID a))"

inductive trip_step :: "string set \<Rightarrow> trips \<Rightarrow> trips \<Rightarrow> bool" for A where
  assign: "s (a_RequestID a) = None \<Longrightarrow> \<not> engaged A s a \<Longrightarrow> a_Status a = AssignmentEnRoute \<Longrightarrow>
    trip_step A s (s(a_RequestID a \<mapsto> a))"
| arrive: "s r = Some a \<Longrightarrow> a_Status a = AssignmentEnRoute \<Longrightarrow>
    trip_step A s (s(r \<mapsto> a\<lparr>a_Status := AssignmentArrived\<rparr>))"
| cancel: "s r = Some a \<Longrightarrow> a_Status a = AssignmentEnRoute \<Longrightarrow>
    trip_step A s (s(r \<mapsto> a\<lparr>a_Status := AssignmentCancelled\<rparr>))"
| expire: "trip_step A s (s |` R)"

inductive_cases trip_stepE: "trip_step A s t"

lemma trip_stutter [intro]: "trip_step A s s"
  using trip_step.expire [of A s UNIV] by (simp add: restrict_map_def)

text \<open>No rider and no driver has two trips.\<close>

definition exclusive :: "string set \<Rightarrow> trips \<Rightarrow> bool" where
  "exclusive A s \<longleftrightarrow> (\<forall>r q a b. s r = Some a \<longrightarrow> s q = Some b \<longrightarrow> a_Status a \<in> A \<longrightarrow> a_Status b \<in> A \<longrightarrow>
     a_RiderID a = a_RiderID b \<or> a_DriverID a = a_DriverID b \<longrightarrow> r = q)"

lemma exclusive_empty: "exclusive A Map.empty"
  by (simp add: exclusive_def)

lemma exclusive_move:
  assumes "exclusive A s" "s r = Some a" "a_Status a \<in> A"
  shows "exclusive A (s(r \<mapsto> a\<lparr>a_Status := x\<rparr>))"
  using assms by (simp add: exclusive_def) blast

lemma exclusive_step:
  assumes "AssignmentEnRoute \<in> A" "trip_step A s t" "exclusive A s"
  shows "exclusive A t"
  using assms(2)
proof (rule trip_stepE)
  fix a assume "t = s(a_RequestID a \<mapsto> a)" "\<not> engaged A s a"
  with assms(3) show ?thesis unfolding exclusive_def engaged_def by (simp, metis)
next
  fix R assume "t = s |` R"
  with assms(3) show ?thesis by (auto simp: exclusive_def restrict_map_def split: if_splits)
qed (use assms exclusive_move in auto)

text \<open>Under way trips of the machine that counts arrived ones too, and of the one that does not.\<close>

interpretation machine: transition_invariant "trip_step {''en_route'', ''arrived''}" "exclusive {''en_route'', ''arrived''}"
  by unfold_locales (rule exclusive_step, simp_all)

interpretation demo_machine: transition_invariant "trip_step {''en_route''}" "exclusive {''en_route''}"
  by unfold_locales (rule exclusive_step, simp_all)

section \<open>Refinement\<close>

text \<open>A concrete system with an invariant that refines an abstract one, step by step.\<close>

locale simulation = transition_invariant step inv for step :: "'s \<Rightarrow> 's \<Rightarrow> bool" and inv +
  fixes astep :: "'a \<Rightarrow> 'a \<Rightarrow> bool" and abs :: "'s \<Rightarrow> 'a"
  assumes step_refines: "step s t \<Longrightarrow> inv s \<Longrightarrow> astep (abs s) (abs t)"
begin

lemma run_refines: "step\<^sup>*\<^sup>* s t \<Longrightarrow> inv s \<Longrightarrow> astep\<^sup>*\<^sup>* (abs s) (abs t)"
proof (induction rule: rtranclp_induct)
  case (step t u)
  have "inv t" by (rule run_keeps [OF step(1,4)])
  from step_refines [OF step(2) this] step show ?case by simp
qed simp

end

context deployment
begin

lemma stored_cong: "view X db' (asg_key d r) = view X db (asg_key d r) \<Longrightarrow> stored X d db' r = stored X d db r"
  by (simp add: stored_def hash_at_def)

lemma keeps_stored: "keeps_trips X d db db' \<Longrightarrow> stored X d db' = stored X d db"
  by (rule ext, rule stored_cong) (simp add: keeps_trips_def)

lemma elapse_stored:
  assumes "elapses X db db'"
  shows "\<exists>R. stored X d db' = stored X d db |` R"
proof
  show "stored X d db' = stored X d db |` {r. hash_at X db' (asg_key d r) \<noteq> None}"
  proof (rule ext)
    fix r
    have "hash_at X db' (asg_key d r) = hash_at X db (asg_key d r) \<or> hash_at X db' (asg_key d r) = None"
      using assms by (auto simp: elapses_def hash_at_def split: option.split rval.split)
    then show "stored X d db' r = (stored X d db |` {r. hash_at X db' (asg_key d r) \<noteq> None}) r"
      by (auto simp: stored_def restrict_map_def)
  qed
qed

lemma new_stored:
  assumes "validatePickup a = Inr ()"
  shows "assignment_of X (new_hash X a) = a\<lparr>a_Status := ''en_route''\<rparr>"
proof -
  obtain x y where "a_PickupLongitude a = Fin x" "a_PickupLatitude a = Fin y"
    using assms by (auto simp: validatePickup_def ValidateCoordinates_ok_iff)
  then show ?thesis by (simp add: assignment_of_def new_hash_def field_def parse_format)
qed

lemma engaged_keys:
  assumes inv: "store_inv A X d db"
    and free: "view X db (rider_key d (a_RiderID a)) = None" "view X db (owner_key d (a_DriverID a)) = None"
  shows "\<not> engaged A (stored X d db) a"
proof
  assume "engaged A (stored X d db) a"
  then obtain r h where h: "hash_at X db (asg_key d r) = Some h" "field h ''status'' \<in> A"
      "field h ''rider_id'' = a_RiderID a \<or> field h ''driver_id'' = a_DriverID a"
    by (auto simp: engaged_def stored_def)
  from live_keys [OF inv h(1,2)] h(3) free show False by (auto simp: str_at_def)
qed

lemma status_stored:
  assumes "hash_at X db (asg_key d r) = Some h"
    and "\<And>q. view X db' (asg_key d q) = (if q = r then Some (status_changed X db (asg_key d r) s, dl) else view X db (asg_key d q))"
  shows "stored X d db' = (stored X d db)(r \<mapsto> (assignment_of X h)\<lparr>a_Status := s\<rparr>)"
  using assms by (auto simp: fun_eq_iff stored_def hash_at_def [of X db'] status_changed_def assignment_of_def field_def
      hash_at_def split: if_splits)

lemma create_refines:
  assumes inv: "store_inv A X d db" and va: "validatePickup a = Inr ()"
  shows "trip_step A (stored X d db) (stored X d (snd (run_state (create_eval X (d_lifecycle d) a) db)))"
    (is "trip_step A _ (stored X d ?db)")
proof (cases "create_code X d db a = 1")
  case False
  then have "stored X d ?db = stored X d db"
    by (intro ext stored_cong) (simp add: yieldsD(2) [OF create_spec [OF inv_typed [OF inv]]])
  then show ?thesis by (simp add: trip_stutter)
next
  case True
  let ?a = "a\<lparr>a_Status := ''en_route''\<rparr>"
  note free = create_facts [OF inv True]
  have "stored X d ?db = (stored X d db)(a_RequestID ?a \<mapsto> ?a)"
    by (auto simp: fun_eq_iff stored_def hash_at_def yieldsD(2) [OF create_spec [OF inv_typed [OF inv]]] True new_stored [OF va])
  moreover have "stored X d db (a_RequestID ?a) = None" using free(1) by (simp add: stored_def hash_at_def)
  moreover have "\<not> engaged A (stored X d db) ?a" using free(2,3) by (intro engaged_keys [OF inv]) simp_all
  ultimately show ?thesis using trip_step.assign [of "stored X d db" ?a A] by simp
qed

lemma cancel_refines:
  assumes inv: "store_inv A X d db"
  shows "trip_step A (stored X d db) (stored X d (snd (run_state (cancel_eval X (d_lifecycle d) r a) db)))"
    (is "trip_step A _ (stored X d ?db)")
proof (cases "cancel_code X d db r a = 1")
  case False
  then have "stored X d ?db = stored X d db"
    by (intro ext stored_cong) (simp add: yieldsD(2) [OF cancel_spec [OF inv_typed [OF inv]]])
  then show ?thesis by (simp add: trip_stutter)
next
  case True
  then obtain h where h: "hash_at X db (asg_key d r) = Some h" "h ''status'' = Some ''en_route''"
    by (auto simp: cancel_code_def split: option.splits if_splits)
  have "stored X d ?db = (stored X d db)(r \<mapsto> (assignment_of X h)\<lparr>a_Status := ''cancelled''\<rparr>)"
    by (rule status_stored [OF h(1), where dl = "asg_deadline db"]) (simp add: yieldsD(2) [OF cancel_spec [OF inv_typed [OF inv]]] True)
  with h show ?thesis
    using trip_step.cancel [of "stored X d db" r "assignment_of X h" A] by (simp add: stored_def field_def)
qed

lemma arrive_refines:
  assumes inv: "store_inv A X d db"
  shows "trip_step A (stored X d db) (stored X d (snd (run_state (arrive_eval X (d_lifecycle d) a) db)))"
    (is "trip_step A _ (stored X d ?db)")
proof (cases "arrive_code X d db a = 1")
  case False
  then have "stored X d ?db = stored X d db"
    by (intro ext stored_cong) (simp add: yieldsD(2) [OF arrive_spec [OF inv_typed [OF inv]]])
  then show ?thesis by (simp add: trip_stutter)
next
  case True
  let ?r = "a_RequestID a"
  from True obtain h where h: "hash_at X db (asg_key d ?r) = Some h" "h ''status'' = Some ''en_route''"
    by (auto simp: arrive_code_def split: option.splits if_splits)
  have "stored X d ?db = (stored X d db)(?r \<mapsto> (assignment_of X h)\<lparr>a_Status := ''arrived''\<rparr>)"
    by (rule status_stored [OF h(1), where dl = "asg_deadline db"]) (simp add: yieldsD(2) [OF arrive_spec [OF inv_typed [OF inv]]] True)
  with h show ?thesis
    using trip_step.arrive [of "stored X d db" ?r "assignment_of X h" A] by (simp add: stored_def field_def)
qed

lemma svc_step_refines:
  assumes "svc_step X d db db'" and inv: "store_inv A X d db"
  shows "trip_step A (stored X d db) (stored X d db')"
  using assms(1) inv_typed [OF inv]
proof (cases rule: svc_step_kinds)
  case elapse
  then show ?thesis using elapse_stored trip_step.expire by metis
next
  case keeps
  then show ?thesis by (simp add: keeps_stored trip_stutter)
qed (simp_all add: create_refines [OF inv] cancel_refines [OF inv] arrive_refines [OF inv])

lemma demo_step_refines:
  assumes "demo_step X d db db'" and inv: "store_inv {''en_route''} X d db"
  shows "trip_step {''en_route''} (stored X d db) (stored X d db')"
  using assms(1)
proof cases
  case service
  then show ?thesis by (rule svc_step_refines [OF _ inv])
next
  case (clear_lock v)
  have "stored X d db' = stored X d db" unfolding clear_lock by (intro ext stored_cong) (simp add: del_view)
  then show ?thesis by (simp add: trip_stutter)
next
  case (clear_reset r p v)
  have "stored X d db' = stored X d db" unfolding clear_reset
    by (intro ext stored_cong) (simp add: yieldsD(2) [OF clear_reset_spec [OF inv_typed [OF inv]]])
  then show ?thesis by (simp add: trip_stutter)
next
  case (clear_active r p)
  obtain n where "yields X (clear_active_eval X (d_lifecycle d) p r) db (Inr n)
      (if str_at X db (rider_key d p) = Some r then (view X db)(rider_key d p := None) else view X db)"
    using clear_active_spec [OF inv_typed [OF inv]] by blast
  from yieldsD(2) [OF this] have "stored X d db' = stored X d db" unfolding clear_active(1)
    by (intro ext stored_cong) simp
  then show ?thesis by (simp add: trip_stutter)
qed

end

sublocale deployment \<subseteq> svc_trips: simulation "svc_step X d" "store_inv {''en_route'', ''arrived''} X d"
    "trip_step {''en_route'', ''arrived''}" "stored X d"
  by unfold_locales (rule svc_step_refines)

sublocale deployment \<subseteq> demo_trips: simulation "demo_step X d" "store_inv {''en_route''} X d"
    "trip_step {''en_route''}" "stored X d"
  by unfold_locales (rule demo_step_refines)

context deployment
begin

lemma stored_empty: "empty_store X db \<Longrightarrow> stored X d db = Map.empty"
  by (rule ext) (simp add: empty_store_def stored_def hash_at_def)

lemma reachable_trips:
  assumes "reachable X d db"
  shows "(trip_step {''en_route'', ''arrived''})\<^sup>*\<^sup>* Map.empty (stored X d db)"
  using assms svc_trips.run_refines [OF _ store_inv_empty] stored_empty unfolding reachable_def by metis

end

end
