(* ===== verification/Type_Safety.thy ===== *)
theory Type_Safety
  imports Sample
begin

text \<open>
  Type soundness of the store. Every family of keys keeps its type in every
  reachable store, so under any interleaving no operation of the service
  ever gets WRONGTYPE from Redis, finds a record it cannot parse, or meets an
  answer of a script it does not expect: the errors it can return are the
  documented ones.
\<close>

section \<open>Errors to expect\<close>

text \<open>
  A sentinel of a package, a lost message, a position outside the range of
  the index, or the refusal of a blank ID.
\<close>

definition expected :: "err \<Rightarrow> bool" where
  "expected e \<longleftrightarrow> (case e of Rdb r \<Rightarrow> r = NetError \<or> r = InvalidGeo | Plain s \<Rightarrow> s = ''id is required'' | _ \<Rightarrow> True)"

lemma expected_simps [simp]:
  "expected (Geo g)" "expected (Drv v)" "expected (Lck l)" "expected (Lif f)"
  "expected (Rdb r) \<longleftrightarrow> r = NetError \<or> r = InvalidGeo" "expected (Plain ''id is required'')"
  by (simp_all add: expected_def)

definition fine :: "('a \<Rightarrow> bool) \<Rightarrow> err + 'a \<Rightarrow> bool" where
  "fine V r \<longleftrightarrow> (case r of Inl e \<Rightarrow> expected e | Inr x \<Rightarrow> V x)"

lemma fine_simps [simp]: "fine V (Inl e) \<longleftrightarrow> expected e" "fine V (Inr x) \<longleftrightarrow> V x"
  by (simp_all add: fine_def)

text \<open>The errors a result of the search reports.\<close>

definition good_result :: "DispatchResult \<Rightarrow> bool" where
  "good_result r \<longleftrightarrow> (case res_Cause r of None \<Rightarrow> True | Some e \<Rightarrow> expected e) \<and>
     (res_Success r \<or> res_Error r = [] \<or> (\<exists>e. expected e \<and> res_Error r = Error e))"

lemma good_result_simps [simp]:
  "good_result (no_result r)" "good_result (matched req loc)"
  "expected e \<Longrightarrow> good_result (failed r e)" "expected e \<Longrightarrow> good_result (failed_cause r e)"
  by (auto simp: good_result_def no_result_def matched_def failed_def failed_cause_def)

section \<open>A logic for operations under interference\<close>

text \<open>
  \<open>sound X d Q m\<close>: from a reachable store, whatever the others and the
  network do, \<open>m\<close> stays in reachable stores and its result satisfies \<open>Q\<close>.
\<close>

named_theorems sound_intros \<open>operations that return expected errors only\<close>

definition under_way :: "'db ext \<Rightarrow> Dispatcher \<Rightarrow> 'db world \<Rightarrow> bool" where
  "under_way X d w \<longleftrightarrow> reachable X d (wdb w) \<and> env_stays (svc_step X d) w"

definition sound :: "'db ext \<Rightarrow> Dispatcher \<Rightarrow> ('r \<Rightarrow> bool) \<Rightarrow> ('db world, 'r) state \<Rightarrow> bool" where
  "sound X d Q m \<longleftrightarrow> (\<forall>w. under_way X d w \<longrightarrow> under_way X d (snd (run_state m w)) \<and> Q (fst (run_state m w)))"

abbreviation clean :: "'db ext \<Rightarrow> Dispatcher \<Rightarrow> ('db world, err + 'r) state \<Rightarrow> bool" where
  "clean X d m \<equiv> sound X d (fine (\<lambda>_. True)) m"

lemma soundD: "sound X d Q m \<Longrightarrow> under_way X d w \<Longrightarrow> Q (fst (run_state m w))"
  by (simp add: sound_def)

lemma sound_return [sound_intros]: "Q x \<Longrightarrow> sound X d Q (State_Monad.return x)"
  by (simp add: sound_def)

lemma sound_ok [sound_intros]: "V x \<Longrightarrow> sound X d (fine V) (ok x)"
  by (simp add: sound_def)

lemma sound_fail [sound_intros]: "expected e \<Longrightarrow> sound X d (fine V) (fail e)"
  by (simp add: sound_def)

lemma sound_bind:
  assumes "sound X d R m" "\<And>x. R x \<Longrightarrow> sound X d Q (f x)"
  shows "sound X d Q (State_Monad.bind m f)"
  using assms by (simp add: sound_def run_bind_split)

lemma sound_bind_sum [sound_intros]:
  assumes "sound X d (fine V) m" "\<And>e. expected e \<Longrightarrow> sound X d Q (f (Inl e))" "\<And>x. V x \<Longrightarrow> sound X d Q (f (Inr x))"
  shows "sound X d Q (State_Monad.bind m f)"
proof (rule sound_bind [OF assms(1)])
  show "sound X d Q (f x)" if "fine V x" for x using that assms(2,3) by (cases x) simp_all
qed

lemma sound_attempt [sound_intros]:
  assumes "sound X d (fine V) m" "\<And>x. V x \<Longrightarrow> sound X d (fine U) (f x)"
  shows "sound X d (fine U) (attempt m f)"
  unfolding attempt_def by (rule sound_bind_sum [OF assms(1)]) (simp_all add: sound_fail assms(2))

lemma sound_if [sound_intros]:
  "(b \<Longrightarrow> sound X d Q m) \<Longrightarrow> (\<not> b \<Longrightarrow> sound X d Q m') \<Longrightarrow> sound X d Q (if b then m else m')"
  by simp

lemma sound_case_sum [sound_intros]:
  "(\<And>e. r = Inl e \<Longrightarrow> sound X d Q (f e)) \<Longrightarrow> (\<And>x. r = Inr x \<Longrightarrow> sound X d Q (g x)) \<Longrightarrow>
   sound X d Q (case r of Inl e \<Rightarrow> f e | Inr x \<Rightarrow> g x)"
  by (cases r) auto

lemma sound_case_option [sound_intros]:
  "(r = None \<Longrightarrow> sound X d Q m) \<Longrightarrow> (\<And>x. r = Some x \<Longrightarrow> sound X d Q (g x)) \<Longrightarrow>
   sound X d Q (case r of None \<Rightarrow> m | Some x \<Rightarrow> g x)"
  by (cases r) auto

lemma sound_case_prod [sound_intros]:
  "(\<And>x y. p = (x, y) \<Longrightarrow> sound X d Q (f x y)) \<Longrightarrow> sound X d Q (case p of (x, y) \<Rightarrow> f x y)"
  by (cases p) auto

lemma sound_weaken: "sound X d (fine V) m \<Longrightarrow> clean X d m"
  by (fastforce simp: sound_def fine_def split: sum.splits)

text \<open>What a command may answer.\<close>

definition reply_ok :: "('a \<Rightarrow> bool) \<Rightarrow> rerr + 'a \<Rightarrow> bool" where
  "reply_ok V r \<longleftrightarrow> (case r of Inl e \<Rightarrow> e = InvalidGeo | Inr x \<Rightarrow> V x)"

lemma reply_ok_simps [simp]: "reply_ok V (Inl e) \<longleftrightarrow> e = InvalidGeo" "reply_ok V (Inr x) \<longleftrightarrow> V x"
  by (simp_all add: reply_ok_def)

lemma under_way_reachable: "under_way X d w \<Longrightarrow> stays (svc_step X d) m \<Longrightarrow> under_way X d (snd (run_state m w))"
  using reachable_run staysD(2) unfolding under_way_def by blast

lemma env_reachable:
  assumes "under_way X d w" "sched w = (env, flt) # rest"
  shows "reachable X d (env (wdb w))"
  using assms by (auto simp: under_way_def env_stays_def reachable_def intro: rtranclp_trans)

lemma sound_call:
  assumes "stays (svc_step X d) (call c)" "\<And>db. reachable X d db \<Longrightarrow> reply_ok V (fst (run_state c db))"
  shows "sound X d (fine V) (call c)"
  unfolding sound_def
proof (intro allI impI conjI)
  fix w assume w: "under_way X d w"
  show "under_way X d (snd (run_state (call c) w))" by (rule under_way_reachable [OF w assms(1)])
  have f: "fine V (map_err Rdb (fst (run_state c db)))" if "reachable X d db" for db
    using assms(2) [OF that] by (cases "fst (run_state c db)") simp_all
  show "fine V (fst (run_state (call c) w))"
  proof (cases "sched w")
    case Nil
    with f [of "wdb w"] w show ?thesis by (simp add: call_def rtt_def under_way_def run_bind_split case_prod_beta)
  next
    case (Cons s rest)
    obtain env flt where s: "s = (env, flt)" by fastforce
    from f [OF env_reachable [OF w Cons [unfolded s]]] show ?thesis
      by (cases flt) (simp_all add: call_def rtt_def run_bind_split case_prod_beta Cons s)
  qed
qed

lemma sound_call_rd: "(\<And>db. reachable X d db \<Longrightarrow> reply_ok V (f db)) \<Longrightarrow> sound X d (fine V) (call (rd f))"
  by (rule sound_call [OF stays_call_read]) simp

context deployment
begin

lemma reachable_typed: "reachable X d db \<Longrightarrow> typed X d db"
  by (rule inv_typed [OF reachable_inv])

lemma reachable_records: "reachable X d db \<Longrightarrow> hash_at X db (asg_key d r) = Some h \<Longrightarrow> record_ok X r h"
  using reachable_inv [of db] by (auto simp: store_inv_def records_ok_def hash_at_Some)

section \<open>The commands\<close>

lemma get_reply:
  assumes "reachable X d db"
  shows "reply_ok (\<lambda>_. True) (r_get X (rider_key d i) db)" "reply_ok (\<lambda>_. True) (r_get X (owner_key d i) db)"
    "reply_ok (\<lambda>_. True) (r_get X (stat_key d i) db)"
  using typedD [OF reachable_typed [OF assms]] by (simp_all add: get_typed)

text \<open>The record of a request comes back parseable, or not at all.\<close>

definition parses :: "string \<Rightarrow> (string \<times> string) list \<Rightarrow> bool" where
  "parses r vs \<longleftrightarrow> vs = [] \<or>
     (hash_field vs ''request_id'' = r \<and> ParseFloat X (hash_field vs ''pickup_longitude'') \<noteq> None \<and> ParseFloat X (hash_field vs ''pickup_latitude'') \<noteq> None)"

lemma hgetall_reply:
  assumes "reachable X d db"
  shows "reply_ok (parses r) (r_hgetall X (asg_key d r) db)"
proof (cases "view X db (asg_key d r)")
  case None
  then show ?thesis by (simp add: hgetall_none parses_def)
next
  case (Some e)
  with typedD(1) [OF reachable_typed [OF assms], of r] obtain h dl where h: "view X db (asg_key d r) = Some (RHash h, dl)"
    by (auto elim!: holds_hashE)
  then have "record_ok X r h" using reachable_records [OF assms] by (auto simp: hash_at_Some)
  moreover obtain fvs where "r_hgetall X (asg_key d r) db = Inr fvs" "map_of fvs = h" using hgetall_hash [OF h] by blast
  ultimately show ?thesis by (auto simp: record_ok_def parses_def hash_field_def)
qed

lemma geo_reply:
  assumes "reachable X d db"
  shows "reply_ok (\<lambda>_. True) (r_geopos X (geo_key d) m db)"
    and "ValidateCoordinates lon lat = Inr () \<Longrightarrow> ValidateRadius r = Inr () \<Longrightarrow>
      reply_ok (\<lambda>_. True) (r_georadius X (geo_key d) lon lat r db)"
    and "ValidateCoordinates lon lat = Inr () \<Longrightarrow> reply_ok (\<lambda>_. True) (fst (run_state (r_geoadd X (geo_key d) m lon lat) db))"
proof -
  from typedD(6) [OF reachable_typed [OF assms]] have g: "holds_drivers (view X db (geo_key d))" .
  then show "reply_ok (\<lambda>_. True) (r_geopos X (geo_key d) m db)" by (auto simp: geopos_eq elim!: holds_driversE)
  show "reply_ok (\<lambda>_. True) (fst (run_state (r_geoadd X (geo_key d) m lon lat) db))"
    if "ValidateCoordinates lon lat = Inr ()"
    using that g by (auto simp: ValidateCoordinates_ok_iff geoadd_res elim!: holds_driversE)
  show "reply_ok (\<lambda>_. True) (r_georadius X (geo_key d) lon lat r db)"
    if v: "ValidateCoordinates lon lat = Inr ()" "ValidateRadius r = Inr ()"
  proof -
    from v obtain x y q where q: "lon = Fin x" "lat = Fin y" "r = Fin q" "0 < q"
      by (auto simp: ValidateCoordinates_ok_iff ValidateRadius_ok_iff)
    show ?thesis
    proof (cases "geo_range x y")
      case True
      from g show ?thesis
        using georadius_none [OF True q(4)] georadius_geo [OF True q(4)] unfolding q
        by (elim holds_driversE) (force simp: reply_ok_def)+
    qed (simp add: q georadius_range)
  qed
qed

section \<open>The scripts\<close>

lemma script_reply:
  assumes "reachable X d db"
  shows "reply_ok (\<lambda>n. n \<in> {1, 0, -1, -2}) (fst (run_state (create_eval X (d_lifecycle d) a) db))"
    and "reply_ok (\<lambda>n. n \<in> {1, 0, -1, -2, -3, -4}) (fst (run_state (cancel_eval X (d_lifecycle d) r a) db))"
    and "reply_ok (\<lambda>n. n \<in> {1, 0, -1, -2}) (fst (run_state (arrive_eval X (d_lifecycle d) a) db))"
    and "reply_ok (\<lambda>_. True) (fst (run_state (refresh_eval X (d_lifecycle d) v) db))"
    and "reply_ok (\<lambda>_. True) (fst (run_state (setBusyScript X (stat_key d v) (ds_defaultTTL (d_driverService d) div Second)) db))"
    and "reply_ok (\<lambda>_. True) (fst (run_state (unlockScript X (lock_key d v) r) db))"
    and "reply_ok (\<lambda>_. True) (fst (run_state (extendLockScript X (lock_key d v) r (lm_lockTTL (d_lockManager d) div Second)) db))"
  using reachable_typed [OF assms]
  by (simp_all add: yieldsD(1) [OF create_spec] yieldsD(1) [OF cancel_spec] yieldsD(1) [OF arrive_spec]
      yieldsD(1) [OF refresh_spec] yieldsD(1) [OF set_busy_spec] yieldsD(1) [OF unlock_spec] yieldsD(1) [OF extend_spec]
      create_code_def cancel_code_def arrive_code_def split: option.split)

section \<open>The operations\<close>

lemma validate_expected:
  "ValidateCoordinates lon lat = Inl e \<Longrightarrow> expected e" "ValidateRadius r = Inl e \<Longrightarrow> expected e"
  "validatePickup a = Inl e \<Longrightarrow> expected e" "validateLifecycleID i = Inl e \<Longrightarrow> expected e"
  by (auto simp: ValidateCoordinates_def ValidateRadius_def validatePickup_def validateLifecycleID_def split: if_splits)

lemma clean_geospatial [sound_intros]:
  "clean X d (AddLocation X (d_geoService d) loc)" "clean X d (GetLocation X (d_geoService d) m)"
  "clean X d (FindNearby X (d_geoService d) lon lat r)"
  unfolding AddLocation_def GetLocation_def FindNearby_def
  by (auto intro!: sound_intros sound_call_rd sound_call stays_svc_call svc_step.geo_add geo_reply dest: validate_expected)

lemma clean_SetStatus [sound_intros]: "clean X d (SetStatus X (d_driverService d) v s)"
proof -
  have "clean X d (call (r_set X (statusKey (d_driverService d) v) s (dur_expiry X (ds_defaultTTL (d_driverService d)))))"
    by (rule sound_call [OF stays_svc_call [OF svc_step.set_status]]) (simp add: set_res)
  moreover have "clean X d (call (r_del X (statusKey (d_driverService d) v)))"
    by (rule sound_call [OF stays_svc_call [OF svc_step.set_offline]]) (simp add: del_res)
  ultimately show ?thesis unfolding SetStatus_def by (auto intro!: sound_intros)
qed

lemma clean_SetAvailable [sound_intros]: "clean X d (SetAvailable X (d_driverService d) v)"
  unfolding SetAvailable_def by (rule clean_SetStatus)

lemma clean_GetStatus [sound_intros]: "clean X d (GetStatus X (d_driverService d) v)"
  unfolding GetStatus_def by (auto intro!: sound_intros sound_call_rd get_reply)

lemma clean_GetStatuses [sound_intros]: "clean X d (GetStatuses X (d_driverService d) vs)"
  unfolding GetStatuses_def by (auto intro!: sound_intros sound_call_rd simp: mget_eq)

lemma clean_Heartbeat [sound_intros]: "clean X d (Heartbeat X (d_driverService d) v)"
proof -
  have "clean X d (call (r_expire X (statusKey (d_driverService d) v) (dur_secs X (ds_defaultTTL (d_driverService d)))))"
    by (rule sound_call [OF stays_svc_call [OF svc_step.heartbeat]]) (simp add: expire_res)
  then show ?thesis unfolding Heartbeat_def by (auto intro!: sound_intros)
qed

lemma clean_SetBusy [sound_intros]: "clean X d (SetBusy X (d_driverService d) v)"
proof -
  have "clean X d (call (setBusyScript X (statusKey (d_driverService d) v) (go_div (ds_defaultTTL (d_driverService d)) Second)))"
    by (rule sound_call [OF stays_svc_call [OF svc_step.set_busy]]) (simp add: script_reply)
  then show ?thesis unfolding SetBusy_def by (auto intro!: sound_intros)
qed

lemma clean_TryLock [sound_intros]: "clean X d (TryLock X (d_lockManager d) v r)"
  unfolding TryLock_def by (rule sound_call [OF stays_svc_call [OF svc_step.try_lock]]) (simp add: setnx_res)

lemma clean_Unlock [sound_intros]: "clean X d (Unlock X (d_lockManager d) v r)"
proof -
  have "clean X d (call (unlockScript X (lock_key d v) r))"
    by (rule sound_call [OF stays_svc_call [OF svc_step.unlock]]) (simp add: script_reply)
  then show ?thesis unfolding Unlock_def by (auto intro!: sound_intros)
qed

lemma clean_driverOwner [sound_intros]: "clean X d (driverOwner X (d_lifecycle d) v)"
  unfolding driverOwner_def by (auto intro!: sound_intros sound_call_rd get_reply)

lemma clean_refresh [sound_intros]: "clean X d (refreshActiveDriver X (d_lifecycle d) v)"
proof -
  have "clean X d (call (refresh_eval X (d_lifecycle d) v))"
    by (rule sound_call [OF stays_svc_call [OF svc_step.refresh]]) (simp add: script_reply)
  then show ?thesis unfolding refreshActiveDriver_def by (auto intro!: sound_intros)
qed

section \<open>The lifecycle\<close>

lemma get_sound: "sound X d (fine (\<lambda>a. a_RequestID a = r)) (lc_get X (d_lifecycle d) r)"
proof -
  have "sound X d (fine (parses r)) (call (rd (r_hgetall X (asg_key d r))))" by (rule sound_call_rd [OF hgetall_reply])
  then show ?thesis unfolding lc_get_def by (auto intro!: sound_intros simp: parses_def)
qed

lemma clean_get [sound_intros]: "clean X d (lc_get X (d_lifecycle d) r)"
  by (rule sound_weaken [OF get_sound])

lemma clean_active [sound_intros]: "clean X d (lc_active X (d_lifecycle d) p)"
  unfolding lc_active_def by (auto intro!: sound_intros sound_call_rd get_reply)

lemma clean_create:
  assumes "validatePickup a = Inr ()" "a_RequestID a \<noteq> []"
  shows "clean X d (lc_create X (d_lifecycle d) a)"
proof -
  have "sound X d (fine (\<lambda>n. n \<in> {1, 0, -1, -2})) (call (create_eval X (d_lifecycle d) a))"
    by (rule sound_call [OF stays_svc_call [OF svc_step.create [OF assms]]]) (rule script_reply)
  then show ?thesis unfolding lc_create_def by (rule sound_attempt) (auto intro!: sound_intros)
qed

lemma clean_cancel [sound_intros]: "clean X d (lc_cancel X (d_lifecycle d) r)"
proof -
  have script: "sound X d (fine (\<lambda>n. n \<in> {1, 0, -1, -2, -3, -4})) (call (cancel_eval X (d_lifecycle d) r a))" for a
    by (rule sound_call [OF stays_svc_call [OF svc_step.cancel]]) (rule script_reply)
  show ?thesis unfolding lc_cancel_def
    by (rule sound_attempt [OF clean_get], rule sound_if, rule sound_fail, simp, rule sound_attempt [OF script])
      (auto intro!: sound_intros)
qed

lemma clean_arrive [sound_intros]: "clean X d (lc_arrive X (d_lifecycle d) a)"
proof -
  have "sound X d (fine (\<lambda>n. n \<in> {1, 0, -1, -2})) (call (arrive_eval X (d_lifecycle d) a))"
    by (rule sound_call [OF stays_svc_call [OF svc_step.arrive]]) (rule script_reply)
  then show ?thesis unfolding lc_arrive_def by (rule sound_attempt) (auto intro!: sound_intros)
qed

section \<open>The dispatcher\<close>

lemma clean_ReleaseDriver [sound_intros]: "clean X d (ReleaseDriver X d v r)"
  unfolding ReleaseDriver_def by (auto intro!: sound_intros)

lemma clean_UpdateDriverLocation [sound_intros]: "clean X d (UpdateDriverLocation X d v lon lat)"
  unfolding UpdateDriverLocation_def stay_present_def by (auto intro!: sound_intros)

lemma clean_CancelAssignment [sound_intros]: "clean X d (CancelAssignment X d r)"
  unfolding CancelAssignment_def by (auto intro!: sound_intros dest: validate_expected)

lemma clean_ArriveAssignment [sound_intros]: "clean X d (ArriveAssignment X d r)"
  unfolding ArriveAssignment_def confirm_arrival_def by (auto intro!: sound_intros dest: validate_expected)

lemma undo_claim_sound: "expected e \<Longrightarrow> sound X d (fine (\<lambda>r. \<forall>x. r = Some x \<longrightarrow> good_result x)) (undo_claim X d v r e)"
  unfolding undo_claim_def by (auto intro!: sound_intros)

lemma record_assignment_sound:
  assumes "req_RequestID req \<noteq> []"
  shows "sound X d (fine (\<lambda>r. \<forall>x. r = Some x \<longrightarrow> good_result x)) (record_assignment X d req v)"
  unfolding record_assignment_def Let_def
  by (auto intro!: sound_intros clean_create undo_claim_sound simp: assms dest: validate_expected)

lemma tryAssignDriver_sound:
  assumes "req_RequestID req \<noteq> []"
  shows "sound X d (fine good_result) (tryAssignDriver X d req loc)"
proof -
  have "sound X d (fine good_result) (finish_assignment X d req loc)"
    unfolding finish_assignment_def
    by (rule sound_attempt [where V = "\<lambda>r. \<forall>x. r = Some x \<longrightarrow> good_result x"])
      (auto intro!: sound_intros record_assignment_sound assms)
  then have "sound X d (fine good_result) (claim_driver X d req loc)"
    unfolding claim_driver_def by (auto intro!: sound_intros)
  then show ?thesis unfolding tryAssignDriver_def Let_def by (auto intro!: sound_intros)
qed

lemma assign_first_sound:
  "req_RequestID req \<noteq> [] \<Longrightarrow> sound X d good_result (assign_first X d req sts locs)"
  by (induction locs) (auto intro!: sound_intros tryAssignDriver_sound)

lemma FindAndAssign_sound:
  assumes "uuid \<noteq> []"
  shows "sound X d good_result (FindAndAssign X d uuid req)"
  unfolding FindAndAssign_def assign_nearby_def Let_def
  by (auto intro!: sound_intros assign_first_sound with_defaults_ID assms)

end

end
