(* ===== verification/Success.thy ===== *)
theory Success
  imports Trips Type_Safety
begin

text \<open>
  Answers one can rely on. Under any schedule of other requests, of the
  clock and of lost messages, an operation that answers success has done
  what it says: its last round trip has left the record and the keys of the
  trip in the store. Weaker than the contracts of the undisturbed run, but
  it holds in every interleaving.
\<close>

section \<open>Results and the store they come with\<close>

text \<open>
  \<open>ensures X d P m Q\<close>: run under interference from a reachable store with \<open>P\<close>,
  \<open>m\<close> ends in a reachable store, and \<open>Q\<close> relates its result and that store.
\<close>

definition ensures :: "'db ext \<Rightarrow> Dispatcher \<Rightarrow> ('db \<Rightarrow> bool) \<Rightarrow> ('db world, 'r) state \<Rightarrow> ('r \<Rightarrow> 'db \<Rightarrow> bool) \<Rightarrow> bool" where
  "ensures X d P m Q \<longleftrightarrow> (\<forall>w. under_way X d w \<longrightarrow> P (wdb w) \<longrightarrow>
     under_way X d (snd (run_state m w)) \<and> Q (fst (run_state m w)) (wdb (snd (run_state m w))))"

text \<open>An operation that may fail, and \<open>G\<close> when it does not.\<close>

definition wins :: "('a \<Rightarrow> 'db \<Rightarrow> bool) \<Rightarrow> err + 'a \<Rightarrow> 'db \<Rightarrow> bool" where
  "wins G r db \<longleftrightarrow> (case r of Inl _ \<Rightarrow> True | Inr x \<Rightarrow> G x db)"

lemma wins_simps [simp]: "wins G (Inl e) db" "wins G (Inr x) db \<longleftrightarrow> G x db"
  by (simp_all add: wins_def)

abbreviation anyhow :: "'db \<Rightarrow> bool" where "anyhow \<equiv> \<lambda>_. True"

lemma ensuresD:
  "ensures X d P m Q \<Longrightarrow> under_way X d w \<Longrightarrow> P (wdb w) \<Longrightarrow> Q (fst (run_state m w)) (wdb (snd (run_state m w)))"
  by (simp add: ensures_def)

named_theorems ensures_intros \<open>composing operations that ensure something\<close>

lemma ensures_return [ensures_intros]: "(\<And>db. P db \<Longrightarrow> Q x db) \<Longrightarrow> ensures X d P (State_Monad.return x) Q"
  by (simp add: ensures_def)

lemma ensures_ok [ensures_intros]: "(\<And>db. P db \<Longrightarrow> G x db) \<Longrightarrow> ensures X d P (ok x) (wins G)"
  by (simp add: ensures_def)

lemma ensures_fail [ensures_intros]: "ensures X d P (fail e) (wins G)"
  by (simp add: ensures_def)

lemma ensures_if [ensures_intros]:
  "(b \<Longrightarrow> ensures X d P m Q) \<Longrightarrow> (\<not> b \<Longrightarrow> ensures X d P m' Q) \<Longrightarrow> ensures X d P (if b then m else m') Q"
  by simp

lemma ensures_case_sum [ensures_intros]:
  "(\<And>e. r = Inl e \<Longrightarrow> ensures X d P (f e) Q) \<Longrightarrow> (\<And>x. r = Inr x \<Longrightarrow> ensures X d P (g x) Q) \<Longrightarrow>
   ensures X d P (case r of Inl e \<Rightarrow> f e | Inr x \<Rightarrow> g x) Q"
  by (cases r) auto

lemma ensures_case_option [ensures_intros]:
  "(r = None \<Longrightarrow> ensures X d P m Q) \<Longrightarrow> (\<And>x. r = Some x \<Longrightarrow> ensures X d P (g x) Q) \<Longrightarrow>
   ensures X d P (case r of None \<Rightarrow> m | Some x \<Rightarrow> g x) Q"
  by (cases r) auto

lemma ensures_bind:
  assumes "ensures X d P m R" "\<And>x. ensures X d (R x) (f x) Q"
  shows "ensures X d P (State_Monad.bind m f) Q"
  using assms by (simp add: ensures_def run_bind_split)

lemma ensures_attempt:
  assumes "ensures X d P m (wins R)" "\<And>x. ensures X d (R x) (f x) (wins G)"
  shows "ensures X d P (attempt m f) (wins G)"
  unfolding attempt_def
proof (rule ensures_bind [OF assms(1)])
  show "ensures X d (wins R r) (case r of Inl e \<Rightarrow> fail e | Inr x \<Rightarrow> f x) (wins G)" for r
    using assms(2) by (cases r) (simp_all add: ensures_fail ensures_def)
qed

lemma ensures_weaken: "ensures X d P m R \<Longrightarrow> (\<And>x db. R x db \<Longrightarrow> Q x db) \<Longrightarrow> ensures X d P m Q"
  by (simp add: ensures_def)

text \<open>What is known of a result alone. After it, anything may have happened to the store.\<close>

lemma ensures_sound: "sound X d R m \<Longrightarrow> ensures X d P m (\<lambda>r _. R r)"
  by (simp add: ensures_def sound_def)

lemma bind_sound:
  assumes "sound X d R m" "\<And>x. R x \<Longrightarrow> ensures X d anyhow (f x) Q"
  shows "ensures X d P (State_Monad.bind m f) Q"
  using assms by (simp add: ensures_def sound_def run_bind_split)

lemma attempt_sound:
  assumes "sound X d (fine V) m" "\<And>x. V x \<Longrightarrow> ensures X d anyhow (f x) (wins G)"
  shows "ensures X d P (attempt m f) (wins G)"
  unfolding attempt_def
proof (rule bind_sound [OF assms(1)])
  show "ensures X d anyhow (case r of Inl e \<Rightarrow> fail e | Inr x \<Rightarrow> f x) (wins G)" if "fine V r" for r
    using that assms(2) by (cases r) (simp_all add: ensures_fail)
qed

text \<open>A command of the store, after what the others did.\<close>

lemma ensures_call:
  assumes "stays (svc_step X d) (call c)"
    and "\<And>db. reachable X d db \<Longrightarrow> Q (map_err Rdb (fst (run_state c db))) (snd (run_state c db))"
    and "\<And>db. Q (Inl (Rdb NetError)) db"
  shows "ensures X d P (call c) Q"
  unfolding ensures_def
proof (intro allI impI conjI)
  fix w assume w: "under_way X d w"
  show "under_way X d (snd (run_state (call c) w))" by (rule under_way_reachable [OF w assms(1)])
  show "Q (fst (run_state (call c) w)) (wdb (snd (run_state (call c) w)))"
  proof (cases "sched w")
    case Nil
    with assms(2) [of "wdb w"] w show ?thesis by (simp add: call_def rtt_def under_way_def run_bind_split case_prod_beta)
  next
    case (Cons s rest)
    obtain env flt where s: "s = (env, flt)" by fastforce
    from assms(2) [OF env_reachable [OF w Cons [unfolded s]]] assms(3) show ?thesis
      by (cases flt) (simp_all add: call_def rtt_def run_bind_split case_prod_beta Cons s)
  qed
qed

section \<open>Trips that are made\<close>

text \<open>The request has its trip: the record, and both ownership keys.\<close>

definition has_trip :: "'db ext \<Rightarrow> Dispatcher \<Rightarrow> Assignment \<Rightarrow> 'db \<Rightarrow> bool" where
  "has_trip X d a db \<longleftrightarrow> stored X d db (a_RequestID a) = Some a \<and>
     str_at X db (rider_key d (a_RiderID a)) = Some (a_RequestID a) \<and>
     str_at X db (owner_key d (a_DriverID a)) = Some (a_RequestID a)"

text \<open>A result of the search that reports success is about this request, and a rider's trip is made.\<close>

definition made :: "'db ext \<Rightarrow> Dispatcher \<Rightarrow> DispatchRequest \<Rightarrow> DispatchResult \<Rightarrow> 'db \<Rightarrow> bool" where
  "made X d req res db \<longleftrightarrow> (res_Success res \<longrightarrow> res_RequestID res = req_RequestID req \<and>
     (req_RiderID req \<noteq> [] \<longrightarrow> has_trip X d (new_assignment req (res_DriverID res)) db))"

text \<open>The record of the request says what the answer says, but perhaps for the pickup point.\<close>

definition says :: "'db ext \<Rightarrow> Dispatcher \<Rightarrow> Assignment \<Rightarrow> 'db \<Rightarrow> bool" where
  "says X d a db \<longleftrightarrow> (\<exists>b. stored X d db (a_RequestID a) = Some b \<and> a_Status b = a_Status a \<and>
     a_RiderID b = a_RiderID a \<and> a_DriverID b = a_DriverID a)"

text \<open>What a cancellation, and an arrival, that answers success has left in the store.\<close>

definition cancelled :: "'db ext \<Rightarrow> Dispatcher \<Rightarrow> string \<Rightarrow> Assignment \<Rightarrow> 'db \<Rightarrow> bool" where
  "cancelled X d r a db \<longleftrightarrow> a_RequestID a = r \<and> a_Status a = ''cancelled'' \<and> says X d a db \<and>
     str_at X db (owner_key d (a_DriverID a)) = None \<and> str_at X db (lock_key d (a_DriverID a)) = None"

definition arrived :: "'db ext \<Rightarrow> Dispatcher \<Rightarrow> string \<Rightarrow> Assignment \<Rightarrow> 'db \<Rightarrow> bool" where
  "arrived X d r a db \<longleftrightarrow> a_RequestID a = r \<and> a_Status a = ''arrived'' \<and> says X d a db \<and>
     str_at X db (owner_key d (a_DriverID a)) = Some r \<and> str_at X db (stat_key d (a_DriverID a)) = Some ''busy''"

context deployment
begin

lemma create_makes:
  assumes "reachable X d db" "validatePickup a = Inr ()" "a_Status a = ''en_route''" "create_code X d db a = 1"
  shows "has_trip X d a (snd (run_state (create_eval X (d_lifecycle d) a) db))"
  using assms(3)
  by (simp add: has_trip_def stored_def hash_at_def str_at_def new_stored [OF assms(2)] assms(4)
      yieldsD(2) [OF create_spec [OF reachable_typed [OF assms(1)]]])

lemma create_ensures:
  assumes "validatePickup a = Inr ()" "a_RequestID a \<noteq> []" "a_Status a = ''en_route''"
  shows "ensures X d P (lc_create X (d_lifecycle d) a) (wins (\<lambda>_. has_trip X d a))"
proof -
  have "ensures X d P (call (create_eval X (d_lifecycle d) a)) (wins (\<lambda>n db. n = 1 \<longrightarrow> has_trip X d a db))"
    by (rule ensures_call [OF stays_svc_call [OF svc_step.create [OF assms(1,2)]]])
      (simp_all add: yieldsD(1) [OF create_spec [OF reachable_typed]] create_makes assms)
  then show ?thesis
    unfolding lc_create_def by (rule ensures_attempt) (auto intro!: ensures_intros)
qed

text \<open>A claim that is undone never counts as a success.\<close>

lemma undo_claim_early: "expected e \<Longrightarrow> sound X d (fine (\<lambda>r. \<exists>x. r = Some x \<and> \<not> res_Success x)) (undo_claim X d v r e)"
  unfolding undo_claim_def by (auto intro!: sound_intros simp: no_result_def)

lemma record_ensures:
  assumes "req_RequestID req \<noteq> []"
  shows "ensures X d P (record_assignment X d req v)
    (wins (\<lambda>r db. case r of None \<Rightarrow> has_trip X d (new_assignment req v) db | Some x \<Rightarrow> \<not> res_Success x))"
  unfolding record_assignment_def Let_def
proof (rule ensures_case_sum, goal_cases)
  case (1 e)
  show ?case by (rule bind_sound [OF clean_ReleaseDriver]) (rule ensures_fail)
next
  case (2 u)
  then have va: "validatePickup (new_assignment req v) = Inr ()" by simp
  have rid: "a_RequestID (new_assignment req v) \<noteq> []" using assms by simp
  let ?Q = "wins (\<lambda>r db. case r of None \<Rightarrow> has_trip X d (new_assignment req v) db | Some x \<Rightarrow> \<not> res_Success x)"
  have "ensures X d P (lc_create X (d_lifecycle d) (new_assignment req v))
      (\<lambda>r db. fine (\<lambda>_. True) r \<and> wins (\<lambda>_. has_trip X d (new_assignment req v)) r db)"
    using create_ensures [OF va rid, of P] soundD [OF clean_create [OF va rid]] by (simp add: ensures_def)
  then show ?case
  proof (rule ensures_bind)
    fix r :: "err + unit"
    let ?R = "\<lambda>db. fine (\<lambda>_. True) r \<and> wins (\<lambda>_. has_trip X d (new_assignment req v)) r db"
    show "ensures X d ?R (case r of Inr _ \<Rightarrow> ok None | Inl e \<Rightarrow> undo_claim X d v (req_RequestID req) e) ?Q"
    proof (cases r)
      case (Inl e)
      show ?thesis
      proof (cases "expected e")
        case True
        show ?thesis
          unfolding Inl sum.case
          by (rule ensures_weaken [OF ensures_sound [OF undo_claim_early [OF True]]]) (auto simp: wins_def fine_def split: sum.splits)
      qed (simp add: Inl ensures_def)
    qed (simp add: ensures_ok)
  qed
qed

lemma made_simps [simp]:
  "made X d req (no_result r) db" "made X d req (failed r e) db" "made X d req (failed_cause r e) db"
  "made X d req (matched req loc) db \<longleftrightarrow> req_RiderID req \<noteq> [] \<longrightarrow> has_trip X d (new_assignment req (loc_ID loc)) db"
  by (simp_all add: made_def no_result_def failed_def failed_cause_def matched_def)

lemma finish_ensures:
  assumes "req_RequestID req \<noteq> []"
  shows "ensures X d P (finish_assignment X d req loc) (wins (made X d req))"
proof (cases "req_RiderID req = []")
  case True
  then show ?thesis by (simp add: finish_assignment_def ensures_ok)
next
  case False
  then show ?thesis
    unfolding finish_assignment_def if_P [OF False]
    by (intro ensures_attempt [OF record_ensures [OF assms]] ensures_case_option ensures_ok) (simp_all add: made_def matched_def)
qed

lemma claim_ensures:
  assumes "req_RequestID req \<noteq> []"
  shows "ensures X d P (claim_driver X d req loc) (wins (made X d req))"
  unfolding claim_driver_def
  by (rule bind_sound [OF clean_SetBusy])
    (auto intro!: ensures_intros finish_ensures [OF assms] bind_sound [OF clean_Unlock])

lemma try_ensures:
  assumes "req_RequestID req \<noteq> []"
  shows "ensures X d P (tryAssignDriver X d req loc) (wins (made X d req))"
  unfolding tryAssignDriver_def Let_def
  by (rule attempt_sound [OF clean_TryLock])
    (auto intro!: ensures_intros claim_ensures [OF assms] bind_sound [OF clean_driverOwner] bind_sound [OF clean_Unlock])

lemma assign_first_ensures:
  assumes "req_RequestID req \<noteq> []"
  shows "ensures X d P (assign_first X d req sts locs) (made X d req)"
proof (induction locs arbitrary: P)
  case (Cons loc locs)
  have "ensures X d P (tryAssignDriver X d req loc) (wins (made X d req))" by (rule try_ensures [OF assms])
  then have "ensures X d P (do { res \<leftarrow> tryAssignDriver X d req loc;
        (case res of
           Inl e \<Rightarrow> State_Monad.return (failed_cause (req_RequestID req) e)
         | Inr r \<Rightarrow> if res_Success r then State_Monad.return r else assign_first X d req sts locs) }) (made X d req)"
    by (rule ensures_bind) (auto intro!: ensures_intros Cons.IH)
  with Cons.IH show ?case by simp
qed (simp add: ensures_return)

lemma FindAndAssign_ensures:
  assumes "uuid \<noteq> []"
  shows "ensures X d P (FindAndAssign X d uuid req) (made X d (with_defaults uuid req))"
proof -
  note rest = assign_first_ensures [OF with_defaults_ID [OF assms]]
  have active: "clean X d (if req_RiderID q \<noteq> [] then lc_active X (d_lifecycle d) (req_RiderID q) else ok None)" for q
    by (auto intro!: sound_intros)
  show ?thesis
    unfolding FindAndAssign_def assign_nearby_def Let_def
    by (rule bind_sound [OF active])
      (auto intro!: ensures_intros rest bind_sound [OF clean_geospatial(3)] bind_sound [OF clean_GetStatuses])
qed

section \<open>Trips that move on\<close>

lemma cancel_ends:
  assumes "reachable X d db" "cancel_code X d db (a_RequestID a) a = 1"
    and "db' = snd (run_state (cancel_eval X (d_lifecycle d) (a_RequestID a) a) db)"
  shows "says X d (a\<lparr>a_Status := ''cancelled''\<rparr>) db'"
    "str_at X db' (owner_key d (a_DriverID a)) = None" "str_at X db' (lock_key d (a_DriverID a)) = None"
proof -
  from assms(2) obtain h where "hash_at X db (asg_key d (a_RequestID a)) = Some h" "h ''driver_id'' = Some (a_DriverID a)"
    "h ''rider_id'' = Some (a_RiderID a)" by (auto simp: cancel_code_def split: option.splits if_splits)
  then show "says X d (a\<lparr>a_Status := ''cancelled''\<rparr>) db'"
    "str_at X db' (owner_key d (a_DriverID a)) = None" "str_at X db' (lock_key d (a_DriverID a)) = None"
    unfolding assms(3)
    by (simp_all add: says_def stored_def hash_at_def [of X "snd _"] str_at_def
        yieldsD(2) [OF cancel_spec [OF reachable_typed [OF assms(1)]]] assms(2) status_changed_def field_def)
qed

lemma arrive_ends:
  assumes "reachable X d db" "arrive_code X d db a = 1" "db' = snd (run_state (arrive_eval X (d_lifecycle d) a) db)"
  shows "says X d (a\<lparr>a_Status := ''arrived''\<rparr>) db'" "str_at X db' (owner_key d (a_DriverID a)) = Some (a_RequestID a)"
    "str_at X db' (stat_key d (a_DriverID a)) = Some ''busy''"
proof -
  let ?r = "a_RequestID a"
  from assms(2) obtain h where h: "hash_at X db (asg_key d ?r) = Some h"
    "str_at X db (rider_key d (a_RiderID a)) = Some ?r" "str_at X db (owner_key d (a_DriverID a)) = Some ?r"
    by (auto simp: arrive_code_def split: option.splits if_splits)
  have "h ''rider_id'' = Some (a_RiderID a)" "h ''driver_id'' = Some (a_DriverID a)"
    using h reachable_inv [OF assms(1)]
    by (auto simp: str_at_Some hash_at_Some store_inv_def linked_def names_def dest!: spec)
  with h(1) show "says X d (a\<lparr>a_Status := ''arrived''\<rparr>) db'" "str_at X db' (owner_key d (a_DriverID a)) = Some (a_RequestID a)"
    "str_at X db' (stat_key d (a_DriverID a)) = Some ''busy''"
    unfolding assms(3)
    by (simp_all add: says_def stored_def hash_at_def [of X "snd _"] str_at_def
        yieldsD(2) [OF arrive_spec [OF reachable_typed [OF assms(1)]]] assms(2) status_changed_def field_def)
qed

lemma cancel_ensures: "ensures X d P (lc_cancel X (d_lifecycle d) r) (wins (cancelled X d r))"
proof -
  have script: "ensures X d anyhow (call (cancel_eval X (d_lifecycle d) r a))
      (wins (\<lambda>n db. n = 1 \<longrightarrow> cancelled X d r (a\<lparr>a_Status := ''cancelled''\<rparr>) db))" if "a_RequestID a = r" for a
    using cancel_ends [of _ a]
    by (intro ensures_call [OF stays_svc_call [OF svc_step.cancel]])
      (simp_all add: that yieldsD(1) [OF cancel_spec [OF reachable_typed]] cancelled_def)
  show ?thesis
    unfolding lc_cancel_def
    by (rule attempt_sound [OF get_sound], rule ensures_if, rule ensures_fail, rule ensures_attempt [OF script])
      (auto intro!: ensures_intros)
qed

lemma CancelAssignment_ensures: "ensures X d P (CancelAssignment X d r) (wins (cancelled X d r))"
  unfolding CancelAssignment_def by (auto intro!: ensures_intros cancel_ensures)

lemma arrive_ensures:
  assumes "a_RequestID a = r"
  shows "ensures X d P (lc_arrive X (d_lifecycle d) a) (wins (arrived X d r))"
proof -
  have "ensures X d P (call (arrive_eval X (d_lifecycle d) a)) (wins (\<lambda>n db. n = 1 \<longrightarrow> arrived X d r (a\<lparr>a_Status := ''arrived''\<rparr>) db))"
    using arrive_ends [of _ a]
    by (intro ensures_call [OF stays_svc_call [OF svc_step.arrive]])
      (simp_all add: assms yieldsD(1) [OF arrive_spec [OF reachable_typed]] arrived_def)
  then show ?thesis unfolding lc_arrive_def by (rule ensures_attempt) (auto intro!: ensures_intros)
qed

lemma ArriveAssignment_ensures: "ensures X d P (ArriveAssignment X d r) (wins (arrived X d r))"
  unfolding ArriveAssignment_def confirm_arrival_def
  by (auto intro!: ensures_intros attempt_sound [OF get_sound] attempt_sound [OF clean_geospatial(2)] arrive_ensures)

end

end
