(* ===== verification/Demo_Race.thy ===== *)
theory Demo_Race
  imports Sample
begin

text \<open>
  The reset of the demo among other requests. It reads the record of a
  rider's request in one round trip and clears its ownership keys in a later
  one, and in between anything may happen. What makes this safe is that a
  request ID is used once: the service draws fresh ones. This theory states the
  reset with both round trips and shows that, with such IDs, its clearing
  steps are the ones of \<open>demo_step\<close>, which have a look at the record and clear at once.
\<close>

section \<open>Both round trips\<close>

text \<open>
  The store, with the request IDs used so far, the ones a reset has found
  under a rider's key, and of these the ones whose record it has since seen
  out of the way, with a status that is not \<^verbatim>\<open>en_route\<close>, or missing.
\<close>

record 'db ledger =
  l_db :: 'db
  l_used :: "string set"
  l_found :: "string set"
  l_settled :: "string set"
  l_missing :: "string set"

definition has_record :: "'db ext \<Rightarrow> Dispatcher \<Rightarrow> 'db \<Rightarrow> string \<Rightarrow> bool" where
  "has_record X d db r \<longleftrightarrow> hash_at X db (asg_key d r) \<noteq> None"

definition settled :: "'db ext \<Rightarrow> Dispatcher \<Rightarrow> 'db \<Rightarrow> string \<Rightarrow> bool" where
  "settled X d db r \<longleftrightarrow> (\<forall>h. hash_at X db (asg_key d r) = Some h \<longrightarrow> h ''status'' \<noteq> Some AssignmentEnRoute)"

text \<open>Nobody makes a record for an ID that was used before.\<close>

definition fresh_ids :: "'db ext \<Rightarrow> Dispatcher \<Rightarrow> string set \<Rightarrow> 'db \<Rightarrow> 'db \<Rightarrow> bool" where
  "fresh_ids X d U db db' \<longleftrightarrow> (\<forall>r \<in> U. has_record X d db' r \<longrightarrow> has_record X d db r)"

inductive reset_step :: "'db ext \<Rightarrow> Dispatcher \<Rightarrow> 'db ledger \<Rightarrow> 'db ledger \<Rightarrow> bool" for X d where
  service: "svc_step X d (l_db l) db' \<Longrightarrow> fresh_ids X d (l_used l) (l_db l) db' \<Longrightarrow>
    reset_step X d l (l\<lparr>l_db := db', l_used := l_used l \<union> {r. has_record X d db' r}\<rparr>)"
| find_request: "str_at X (l_db l) (rider_key d p) = Some r \<Longrightarrow> reset_step X d l (l\<lparr>l_found := insert r (l_found l)\<rparr>)"
| see_settled: "r \<in> l_found l \<Longrightarrow> has_record X d (l_db l) r \<Longrightarrow> settled X d (l_db l) r \<Longrightarrow>
    reset_step X d l (l\<lparr>l_settled := insert r (l_settled l)\<rparr>)"
| see_missing: "r \<in> l_found l \<Longrightarrow> \<not> has_record X d (l_db l) r \<Longrightarrow>
    reset_step X d l (l\<lparr>l_missing := insert r (l_missing l)\<rparr>)"
| clear_lock: "reset_step X d l (l\<lparr>l_db := snd (run_state (r_del X (lock_key d v)) (l_db l))\<rparr>)"
| clear_reset: "r \<in> l_settled l \<Longrightarrow>
    reset_step X d l (l\<lparr>l_db := snd (run_state (clear_reset_eval X (d_lifecycle d) p v r) (l_db l))\<rparr>)"
| clear_active: "r \<in> l_missing l \<Longrightarrow>
    reset_step X d l (l\<lparr>l_db := snd (run_state (clear_active_eval X (d_lifecycle d) p r) (l_db l))\<rparr>)"

definition new_ledger :: "'db \<Rightarrow> 'db ledger" where
  "new_ledger db = \<lparr>l_db = db, l_used = {}, l_found = {}, l_settled = {}, l_missing = {}\<rparr>"

definition reset_reachable :: "'db ext \<Rightarrow> Dispatcher \<Rightarrow> 'db ledger \<Rightarrow> bool" where
  "reset_reachable X d l \<longleftrightarrow> (\<exists>db0. empty_store X db0 \<and> (reset_step X d)\<^sup>*\<^sup>* (new_ledger db0) l)"

section \<open>What the reset has seen stays true\<close>

definition ledger_ok :: "'db ext \<Rightarrow> Dispatcher \<Rightarrow> 'db ledger \<Rightarrow> bool" where
  "ledger_ok X d l \<longleftrightarrow> store_inv {''en_route''} X d (l_db l) \<and>
     {r. has_record X d (l_db l) r} \<subseteq> l_used l \<and> l_found l \<subseteq> l_used l \<and>
     l_settled l \<subseteq> l_found l \<and> l_missing l \<subseteq> l_found l \<and>
     (\<forall>r \<in> l_settled l. settled X d (l_db l) r) \<and> (\<forall>r \<in> l_missing l. \<not> has_record X d (l_db l) r)"

context deployment
begin

lemma settled_stays:
  assumes "svc_step X d db db'" "store_inv A X d db" "fresh_ids X d U db db'" "r \<in> U" "settled X d db r"
  shows "settled X d db' r"
  using svc_step_record [OF assms(1,2), of r]
proof cases
  case (created h)
  with assms(3,4) have "has_record X d db r" by (auto simp: fresh_ids_def has_record_def)
  with created show ?thesis by (simp add: has_record_def)
qed (use assms(5) in \<open>auto simp: settled_def\<close>)

text \<open>The demo's own steps leave the records alone.\<close>

lemma demo_records:
  assumes "typed X d db"
  shows "hash_at X (snd (run_state (r_del X (lock_key d v)) db)) (asg_key d q) = hash_at X db (asg_key d q)"
    and "hash_at X (snd (run_state (clear_reset_eval X (d_lifecycle d) p v r) db)) (asg_key d q) = hash_at X db (asg_key d q)"
    and "hash_at X (snd (run_state (clear_active_eval X (d_lifecycle d) p r) db)) (asg_key d q) = hash_at X db (asg_key d q)"
proof -
  obtain n where "yields X (clear_active_eval X (d_lifecycle d) p r) db (Inr n)
      (if str_at X db (rider_key d p) = Some r then (view X db)(rider_key d p := None) else view X db)"
    using clear_active_spec [OF assms] by blast
  from yieldsD(2) [OF this]
  show "hash_at X (snd (run_state (clear_active_eval X (d_lifecycle d) p r) db)) (asg_key d q) = hash_at X db (asg_key d q)"
    by (simp add: hash_at_def)
qed (simp_all add: hash_at_def del_view yieldsD(2) [OF clear_reset_spec [OF assms]])

text \<open>So each step is a step of the demo, or leaves the store alone, and keeps the ledger.\<close>

lemma reset_step_demo:
  assumes "reset_step X d l l'" "ledger_ok X d l"
  shows "demo_step X d (l_db l) (l_db l') \<or> l_db l' = l_db l"
  using assms
proof cases
  case (clear_reset r p v)
  with assms(2) show ?thesis
    by (auto simp: ledger_ok_def settled_def intro!: demo_step.clear_reset)
next
  case (clear_active r p)
  with assms(2) show ?thesis by (auto simp: ledger_ok_def has_record_def intro!: demo_step.clear_active)
qed (auto intro: demo_step.intros)

lemma reset_step_ok:
  assumes "reset_step X d l l'" and ok: "ledger_ok X d l"
  shows "ledger_ok X d l'"
proof -
  have inv: "store_inv {''en_route''} X d (l_db l)" using ok by (simp add: ledger_ok_def)
  have inv': "store_inv {''en_route''} X d (l_db l')"
    using reset_step_demo [OF assms] demo_step_inv inv by metis
  note same = demo_records [OF inv_typed [OF inv]]
  from assms(1) show ?thesis
  proof cases
    case (service db')
    have "settled X d db' r" if "r \<in> l_settled l" for r
      using settled_stays [OF service(2) inv service(3)] that ok by (auto simp: ledger_ok_def)
    moreover have "\<not> has_record X d db' r" if "r \<in> l_missing l" for r
      using service(3) that ok unfolding ledger_ok_def fresh_ids_def by blast
    ultimately show ?thesis using ok inv' service(1) by (auto simp: ledger_ok_def)
  next
    case (find_request p r)
    then obtain dl where "view X (l_db l) (rider_key d p) = Some (RStr r, dl)" by (auto simp: str_at_Some)
    then obtain h where "view X (l_db l) (asg_key d r) = Some (RHash h, dl)" by (rule linked_riderD [OF inv])
    then have "has_record X d (l_db l) r" by (auto simp: has_record_def hash_at_Some)
    with ok find_request(1) show ?thesis by (auto simp: ledger_ok_def)
  qed (use ok inv' in \<open>auto simp: ledger_ok_def settled_def has_record_def same\<close>)
qed

lemma ledger_ok_new: "empty_store X db \<Longrightarrow> ledger_ok X d (new_ledger db)"
  using store_inv_empty by (auto simp: ledger_ok_def new_ledger_def has_record_def hash_at_def empty_store_def)

end

sublocale deployment \<subseteq> reset: transition_invariant "reset_step X d" "ledger_ok X d"
  by unfold_locales (rule reset_step_ok)

context deployment
begin

lemma reset_run:
  assumes "(reset_step X d)\<^sup>*\<^sup>* l l'" "ledger_ok X d l"
  shows "(demo_step X d)\<^sup>*\<^sup>* (l_db l) (l_db l')"
  using assms
proof (induction rule: rtranclp_induct)
  case (step m n)
  from reset_step_demo [OF step(2) reset.run_keeps [OF step(1,4)]] step(3) [OF step(4)] show ?case
    by (metis rtranclp.rtrancl_into_rtrancl)
qed simp

lemma reset_reachable_demo:
  assumes "reset_reachable X d l"
  shows "demo_reachable X d (l_db l)"
proof -
  obtain db0 where "empty_store X db0" "(reset_step X d)\<^sup>*\<^sup>* (new_ledger db0) l"
    using assms by (auto simp: reset_reachable_def)
  with reset_run [OF _ ledger_ok_new] have "(demo_step X d)\<^sup>*\<^sup>* (l_db (new_ledger db0)) (l_db l)" by blast
  with \<open>empty_store X db0\<close> show ?thesis by (auto simp: demo_reachable_def new_ledger_def)
qed

end

section \<open>The sample run with its ledger\<close>

lemma no_records:
  assumes "\<forall>(k, v) \<in> set (kv db). take 20 k \<noteq> ''dispatch:assignment:''"
  shows "\<not> has_record mem server_dispatcher db r"
proof -
  have k: "asg_key server_dispatcher r = ''dispatch:assignment:'' @ r"
    by (simp add: assignmentKey_def sprintf_key_def server_dispatcher_def NewDispatcher_def newLifecycleManager_def
        zeroLifecycleConfig_def)
  have "map_of (kv db) (''dispatch:assignment:'' @ r) = None"
  proof (rule ccontr)
    assume "map_of (kv db) (''dispatch:assignment:'' @ r) \<noteq> None"
    then obtain v where "(''dispatch:assignment:'' @ r, v) \<in> set (kv db)" by (auto dest: map_of_SomeD)
    with assms have "take 20 (''dispatch:assignment:'' @ r) \<noteq> ''dispatch:assignment:''" by blast
    then show False by simp
  qed
  then show ?thesis by (simp add: has_record_def hash_at_def mem_def mem_view_def mem_find_def k)
qed

lemma early_step:
  assumes "svc_step mem server_dispatcher db db'" "\<forall>(k, v) \<in> set (kv db'). take 20 k \<noteq> ''dispatch:assignment:''"
  shows "reset_step mem server_dispatcher (new_ledger db) (new_ledger db')"
  using reset_step.service [of mem server_dispatcher "new_ledger db" db'] assms(1) no_records [OF assms(2)]
  by (simp add: new_ledger_def fresh_ids_def)

definition positioned_store :: mem_db where
  "positioned_store = \<lparr>kv = [(''locations'', MGeo [(''v1'', 0, 0)], None)], time = 0\<rparr>"

definition locked_store :: mem_db where
  "locked_store = \<lparr>kv = [(''locations'', MGeo [(''v1'', 0, 0)], None),
     (''driver:status:v1'', MStr ''available'', Some 30000), (''dispatch:lock:v1'', MStr ''r1'', Some 10000)], time = 0\<rparr>"

definition claimed_store :: mem_db where
  "claimed_store = \<lparr>kv = [(''locations'', MGeo [(''v1'', 0, 0)], None),
     (''driver:status:v1'', MStr ''busy'', Some 30000), (''dispatch:lock:v1'', MStr ''r1'', Some 10000)], time = 0\<rparr>"

lemma early_runs:
  "snd (run_state (r_geoadd mem (geo_key server_dispatcher) ''v1'' (Fin 0) (Fin 0)) start_store) = positioned_store"
  "snd (run_state (r_set mem (statusKey (d_driverService server_dispatcher) ''v1'') ''available''
     (dur_expiry mem (ds_defaultTTL (d_driverService server_dispatcher)))) positioned_store) = idle_store"
  "snd (run_state (r_setnx mem (lock_key server_dispatcher ''v1'') ''r1''
     (dur_expiry mem (lm_lockTTL (d_lockManager server_dispatcher)))) idle_store) = locked_store"
  "snd (run_state (setBusyScript mem (statusKey (d_driverService server_dispatcher) ''v1'')
     (go_div (ds_defaultTTL (d_driverService server_dispatcher)) Second)) locked_store) = claimed_store"
  "snd (run_state (create_eval mem (d_lifecycle server_dispatcher) trip_assignment) claimed_store) = trip_store"
  by code_simp+

definition trip_ledger :: "mem_db ledger" where
  "trip_ledger = \<lparr>l_db = trip_store, l_used = {r. has_record mem server_dispatcher trip_store r}, l_found = {},
     l_settled = {}, l_missing = {}\<rparr>"

lemma reset_reachable_trip: "reset_reachable mem server_dispatcher trip_ledger"
proof -
  let ?step = "reset_step mem server_dispatcher"
  have "?step (new_ledger start_store) (new_ledger positioned_store)"
    unfolding early_runs(1) [symmetric]
    by (rule early_step [OF svc_step.geo_add], code_simp, code_simp) (unfold early_runs(1), code_simp)
  moreover have "?step (new_ledger positioned_store) (new_ledger idle_store)"
    unfolding early_runs(2) [symmetric] by (rule early_step [OF svc_step.set_status]) (unfold early_runs(2), code_simp)
  moreover have "?step (new_ledger idle_store) (new_ledger locked_store)"
    unfolding early_runs(3) [symmetric] by (rule early_step [OF svc_step.try_lock]) (unfold early_runs(3), code_simp)
  moreover have "?step (new_ledger locked_store) (new_ledger claimed_store)"
    unfolding early_runs(4) [symmetric] by (rule early_step [OF svc_step.set_busy]) (unfold early_runs(4), code_simp)
  moreover have "?step (new_ledger claimed_store) trip_ledger"
  proof -
    have "validatePickup trip_assignment = Inr ()" "a_RequestID trip_assignment \<noteq> []" by code_simp+
    then have "svc_step mem server_dispatcher claimed_store trip_store"
      unfolding early_runs(5) [symmetric] by (rule svc_step.create)
    from reset_step.service [of mem server_dispatcher "new_ledger claimed_store", OF _ _] this show ?thesis
      by (simp add: new_ledger_def trip_ledger_def fresh_ids_def)
  qed
  ultimately have "?step\<^sup>*\<^sup>* (new_ledger start_store) trip_ledger"
    by (meson converse_rtranclp_into_rtranclp r_into_rtranclp)
  moreover have "empty_store mem start_store" by (simp add: empty_store_def mem_view_def mem_find_def start_store_def)
  ultimately show ?thesis by (auto simp: reset_reachable_def)
qed

end
