(* ===== verification/Worker_Pool.thy ===== *)
theory Worker_Pool
  imports Steps "HOL-Library.Multiset"
begin

text \<open>
  \<^verbatim>\<open>internal/server/worker.go\<close>: a pool of workers between two channels, as a
  transition system. A channel is its buffer; a send or a receive that
  finds the other side waiting on an empty buffer hands the value over
  directly, which is how an unbuffered channel works. The caller is
  \<^verbatim>\<open>SubmitAndWait\<close> with its collector goroutine. The processor is an argument;
  it may look at the context, so its result can depend on the cancellation.
\<close>

record 'p Job =
  j_ID :: string
  j_Payload :: 'p

record 'o Result =
  r_JobID :: string
  r_Output :: 'o
  r_Error :: "string option"

datatype ('j, 'r) worker = Idle | Running 'j | Sending 'r | Exited

record ('j, 'r) WorkerPool =
  wp_cap :: nat
  wp_jobs :: "'j list"
  wp_jobs_closed :: bool
  wp_results :: "'r list"
  wp_results_closed :: bool
  wp_workers :: "('j, 'r) worker list"
  wp_cancelled :: bool
  wp_todo :: "'j list"
  wp_awaited :: nat
  wp_collected :: "'r list"

text \<open>
  \<open>NewWorkerPool\<close>, then \<open>Start\<close>, then \<open>SubmitAndWait\<close> entered with its jobs.
\<close>

definition NewWorkerPool :: "nat \<Rightarrow> ('j, 'r) WorkerPool" where
  "NewWorkerPool bufferSize = \<lparr>wp_cap = bufferSize, wp_jobs = [], wp_jobs_closed = False, wp_results = [],
     wp_results_closed = False, wp_workers = [], wp_cancelled = False, wp_todo = [], wp_awaited = 0, wp_collected = []\<rparr>"

definition StartWorkers :: "nat \<Rightarrow> ('j, 'r) WorkerPool \<Rightarrow> ('j, 'r) WorkerPool" where
  "StartWorkers workerCount p = p\<lparr>wp_workers := wp_workers p @ replicate workerCount Idle\<rparr>"

definition SubmitAndWait :: "'j list \<Rightarrow> ('j, 'r) WorkerPool \<Rightarrow> ('j, 'r) WorkerPool" where
  "SubmitAndWait jobs p = p\<lparr>wp_todo := jobs, wp_awaited := length jobs, wp_collected := []\<rparr>"

text \<open>\<open>SubmitAndWait\<close> returns when it has submitted everything and its collector is done.\<close>

definition returned :: "('j, 'r) WorkerPool \<Rightarrow> bool" where
  "returned p \<longleftrightarrow> wp_todo p = [] \<and> wp_awaited p = 0"

text \<open>\<^verbatim>\<open>wg.Wait()\<close> returns when every worker has returned.\<close>

definition workers_done :: "('j, 'r) WorkerPool \<Rightarrow> bool" where
  "workers_done p \<longleftrightarrow> set (wp_workers p) \<subseteq> {Exited}"

text \<open>
  One step of the caller, of the collector, of a worker, or of \<open>Stop\<close> at its
  end. Receiving from a closed channel that is empty yields the zero value \<open>z\<close>.
\<close>

inductive pool_step :: "'r \<Rightarrow> (bool \<Rightarrow> 'j \<Rightarrow> 'r) \<Rightarrow> ('j, 'r) WorkerPool \<Rightarrow> ('j, 'r) WorkerPool \<Rightarrow> bool" for z f where
  submit: "wp_todo p = j # js \<Longrightarrow> \<not> wp_jobs_closed p \<Longrightarrow> length (wp_jobs p) < wp_cap p \<Longrightarrow>
    pool_step z f p (p\<lparr>wp_todo := js, wp_jobs := wp_jobs p @ [j]\<rparr>)"
| submit_handover: "wp_todo p = j # js \<Longrightarrow> \<not> wp_jobs_closed p \<Longrightarrow> wp_jobs p = [] \<Longrightarrow>
    i < length (wp_workers p) \<Longrightarrow> wp_workers p ! i = Idle \<Longrightarrow>
    pool_step z f p (p\<lparr>wp_todo := js, wp_workers := (wp_workers p)[i := Running j]\<rparr>)"
| submit_refused: "wp_todo p = j # js \<Longrightarrow> wp_cancelled p \<Longrightarrow> pool_step z f p (p\<lparr>wp_todo := js\<rparr>)"
| take_job: "wp_jobs p = j # js \<Longrightarrow> i < length (wp_workers p) \<Longrightarrow> wp_workers p ! i = Idle \<Longrightarrow>
    pool_step z f p (p\<lparr>wp_jobs := js, wp_workers := (wp_workers p)[i := Running j]\<rparr>)"
| quit_idle: "i < length (wp_workers p) \<Longrightarrow> wp_workers p ! i = Idle \<Longrightarrow>
    wp_cancelled p \<or> wp_jobs_closed p \<and> wp_jobs p = [] \<Longrightarrow>
    pool_step z f p (p\<lparr>wp_workers := (wp_workers p)[i := Exited]\<rparr>)"
| process: "i < length (wp_workers p) \<Longrightarrow> wp_workers p ! i = Running j \<Longrightarrow>
    pool_step z f p (p\<lparr>wp_workers := (wp_workers p)[i := Sending (f (wp_cancelled p) j)]\<rparr>)"
| deliver: "i < length (wp_workers p) \<Longrightarrow> wp_workers p ! i = Sending r \<Longrightarrow> length (wp_results p) < wp_cap p \<Longrightarrow>
    pool_step z f p (p\<lparr>wp_workers := (wp_workers p)[i := Idle], wp_results := wp_results p @ [r]\<rparr>)"
| deliver_handover: "i < length (wp_workers p) \<Longrightarrow> wp_workers p ! i = Sending r \<Longrightarrow> wp_results p = [] \<Longrightarrow>
    wp_awaited p = Suc n \<Longrightarrow>
    pool_step z f p (p\<lparr>wp_workers := (wp_workers p)[i := Idle], wp_awaited := n, wp_collected := wp_collected p @ [r]\<rparr>)"
| quit_sending: "i < length (wp_workers p) \<Longrightarrow> wp_workers p ! i = Sending r \<Longrightarrow> wp_cancelled p \<Longrightarrow>
    pool_step z f p (p\<lparr>wp_workers := (wp_workers p)[i := Exited]\<rparr>)"
| collect: "wp_results p = r # rs \<Longrightarrow> wp_awaited p = Suc n \<Longrightarrow>
    pool_step z f p (p\<lparr>wp_results := rs, wp_awaited := n, wp_collected := wp_collected p @ [r]\<rparr>)"
| collect_closed: "wp_results p = [] \<Longrightarrow> wp_results_closed p \<Longrightarrow> wp_awaited p = Suc n \<Longrightarrow>
    pool_step z f p (p\<lparr>wp_awaited := n, wp_collected := wp_collected p @ [z]\<rparr>)"
| finish_stop: "wp_jobs_closed p \<Longrightarrow> workers_done p \<Longrightarrow> \<not> wp_results_closed p \<Longrightarrow>
    pool_step z f p (p\<lparr>wp_results_closed := True\<rparr>)"

text \<open>
  The process as a whole: a send on the closed channel of jobs panics, which
  ends the process (\<open>None\<close>).
\<close>

inductive process_step :: "'r \<Rightarrow> (bool \<Rightarrow> 'j \<Rightarrow> 'r) \<Rightarrow> ('j, 'r) WorkerPool option \<Rightarrow> ('j, 'r) WorkerPool option \<Rightarrow> bool" for z f where
  runs: "pool_step z f p q \<Longrightarrow> process_step z f (Some p) (Some q)"
| send_closed: "wp_todo p = j # js \<Longrightarrow> wp_jobs_closed p \<Longrightarrow> process_step z f (Some p) None"

inductive_simps panics: "process_step z f (Some p) None"
inductive_simps goes_on: "process_step z f (Some p) (Some q)"

text \<open>
  \<open>Shutdown\<close> cancels the context. \<open>Stop\<close> closes the channel of jobs, which
  panics when it is closed already; its end is the step \<open>finish_stop\<close>.
\<close>

definition Shutdown :: "('j, 'r) WorkerPool \<Rightarrow> ('j, 'r) WorkerPool" where
  "Shutdown p = p\<lparr>wp_cancelled := True\<rparr>"

definition StopPool :: "('j, 'r) WorkerPool \<Rightarrow> ('j, 'r) WorkerPool option" where
  "StopPool p = (if wp_jobs_closed p then None else Some (p\<lparr>wp_jobs_closed := True\<rparr>))"

section \<open>Termination\<close>

text \<open>Every step uses up some of the work that is left.\<close>

fun worker_weight :: "('j, 'r) worker \<Rightarrow> nat" where
  "worker_weight Idle = 1"
| "worker_weight (Running j) = 4"
| "worker_weight (Sending r) = 3"
| "worker_weight Exited = 0"

definition work_left :: "('j, 'r) WorkerPool \<Rightarrow> nat" where
  "work_left p = 5 * length (wp_todo p) + 4 * length (wp_jobs p) + length (wp_results p) + wp_awaited p +
     (if wp_results_closed p then 0 else 1) + sum_list (map worker_weight (wp_workers p))"

lemma sum_list_replace:
  fixes g :: "'a \<Rightarrow> nat"
  shows "i < length xs \<Longrightarrow> sum_list (map g (xs[i := x])) + g (xs ! i) = sum_list (map g xs) + g x"
proof (induction xs arbitrary: i)
  case (Cons a xs)
  then show ?case by (cases i) auto
qed simp

lemma weight_replace:
  "i < length (wp_workers p) \<Longrightarrow> wp_workers p ! i = w \<Longrightarrow>
   sum_list (map worker_weight ((wp_workers p)[i := x])) + worker_weight w =
   sum_list (map worker_weight (wp_workers p)) + worker_weight x"
  using sum_list_replace [of i "wp_workers p" worker_weight x] by simp

lemma pool_step_decreases:
  assumes "pool_step z f p q"
  shows "work_left q < work_left p"
  using assms
proof cases
  case (submit_handover j js i)
  then show ?thesis using weight_replace [of i p Idle "Running j"] by (simp add: work_left_def)
next
  case (take_job j js i)
  then show ?thesis using weight_replace [of i p Idle "Running j"] by (simp add: work_left_def)
next
  case (quit_idle i)
  then show ?thesis using weight_replace [of i p Idle Exited] by (simp add: work_left_def)
next
  case (process i j)
  then show ?thesis using weight_replace [of i p "Running j" "Sending (f (wp_cancelled p) j)"] by (simp add: work_left_def)
next
  case (deliver i r)
  then show ?thesis using weight_replace [of i p "Sending r" Idle] by (simp add: work_left_def)
next
  case (deliver_handover i r n)
  then show ?thesis using weight_replace [of i p "Sending r" Idle] by (simp add: work_left_def)
next
  case (quit_sending i r)
  then show ?thesis using weight_replace [of i p "Sending r" Exited] by (simp add: work_left_def)
qed (simp_all add: work_left_def)

lemma pool_terminates: "wfP (\<lambda>q p. pool_step z f p q)"
  by (rule wfp_if_convertible_to_nat [of _ work_left]) (rule pool_step_decreases)

section \<open>Nothing is lost while the pool runs\<close>

fun held :: "('j \<Rightarrow> 'r) \<Rightarrow> ('j, 'r) worker \<Rightarrow> 'r multiset" where
  "held g (Running j) = {#g j#}"
| "held g (Sending r) = {#r#}"
| "held g _ = {#}"

definition account :: "('j \<Rightarrow> 'r) \<Rightarrow> ('j, 'r) WorkerPool \<Rightarrow> 'r multiset" where
  "account g p = image_mset g (mset (wp_todo p)) + image_mset g (mset (wp_jobs p)) +
     sum_list (map (held g) (wp_workers p)) + mset (wp_results p) + mset (wp_collected p)"

lemma held_replace:
  fixes h :: "'a \<Rightarrow> 'b multiset"
  shows "i < length xs \<Longrightarrow> sum_list (map h (xs[i := x])) + h (xs ! i) = sum_list (map h xs) + h x"
proof (induction xs arbitrary: i)
  case (Cons a xs)
  then show ?case by (cases i) (auto simp: ac_simps)
qed simp

lemma held_nth:
  fixes h :: "'a \<Rightarrow> 'b multiset"
  shows "i < length xs \<Longrightarrow> h (xs ! i) \<subseteq># sum_list (map h xs)"
proof (induction xs arbitrary: i)
  case (Cons a xs)
  then show ?case by (cases i) (auto intro: subset_mset.add_increasing)
qed simp

lemma held_none: "sum_list (replicate n {#}) = {#}"
  by (induction n) simp_all

lemma held_workers:
  "i < length (wp_workers p) \<Longrightarrow> wp_workers p ! i = w \<Longrightarrow>
   sum_list (map (held g) ((wp_workers p)[i := x])) + held g w = sum_list (map (held g) (wp_workers p)) + held g x"
  using held_replace [of i "wp_workers p" "held g" x] by simp

text \<open>What holds between \<open>SubmitAndWait\<close> and its return, as long as nobody shuts the pool down.\<close>

definition pool_inv :: "(bool \<Rightarrow> 'j \<Rightarrow> 'r) \<Rightarrow> 'j list \<Rightarrow> ('j, 'r) WorkerPool \<Rightarrow> bool" where
  "pool_inv f js p \<longleftrightarrow> \<not> wp_cancelled p \<and> \<not> wp_jobs_closed p \<and> \<not> wp_results_closed p \<and> Exited \<notin> set (wp_workers p) \<and> wp_workers p \<noteq> [] \<and>
     account (f False) p = image_mset (f False) (mset js) \<and> wp_awaited p + length (wp_collected p) = length js \<and>
     length (wp_jobs p) \<le> wp_cap p \<and> length (wp_results p) \<le> wp_cap p"

lemma set_update_mem: "y \<notin> set xs \<Longrightarrow> x \<noteq> y \<Longrightarrow> y \<notin> set (xs[i := x])"
  using set_update_subset_insert [of xs i x] by auto

lemma pool_inv_step:
  assumes "pool_step z f p q" "pool_inv f js p"
  shows "pool_inv f js q"
  using assms(1)
proof cases
  case (submit_handover j rest i)
  with assms(2) held_workers [of i p Idle "f False" "Running j"] show ?thesis
    by (auto simp: pool_inv_def account_def set_update_mem ac_simps)
next
  case (take_job j rest i)
  with assms(2) held_workers [of i p Idle "f False" "Running j"] show ?thesis
    by (auto simp: pool_inv_def account_def set_update_mem ac_simps)
next
  case (process i j)
  with assms(2) held_workers [of i p "Running j" "f False" "Sending (f False j)"] show ?thesis
    by (auto simp: pool_inv_def account_def set_update_mem)
next
  case (deliver i r)
  have "sum_list (map (held (f False)) (wp_workers p)) =
      add_mset r (sum_list (map (held (f False)) ((wp_workers p)[i := Idle])))"
    using held_workers [of i p "Sending r" "f False" Idle] deliver by simp
  with deliver assms(2) show ?thesis
    by (auto simp: pool_inv_def account_def set_update_mem)
next
  case (deliver_handover i r n)
  have "sum_list (map (held (f False)) (wp_workers p)) =
      add_mset r (sum_list (map (held (f False)) ((wp_workers p)[i := Idle])))"
    using held_workers [of i p "Sending r" "f False" Idle] deliver_handover by simp
  with deliver_handover assms(2) show ?thesis
    by (auto simp: pool_inv_def account_def set_update_mem)
qed (use assms(2) in \<open>auto simp: pool_inv_def account_def ac_simps\<close>)

lemma pool_inv_start:
  "0 < n \<Longrightarrow> pool_inv f js (SubmitAndWait js (StartWorkers n (NewWorkerPool b)))"
  by (auto simp: pool_inv_def account_def SubmitAndWait_def StartWorkers_def NewWorkerPool_def held_none)

text \<open>The invariant as an instance of the interface of transition invariants.\<close>

interpretation pool: transition_invariant "pool_step z f" "pool_inv f js" for z f js
  by unfold_locales (rule pool_inv_step)

text \<open>
  While \<open>SubmitAndWait\<close> has not returned, some step is possible: a job or
  a result somewhere in the pool means that the collector still waits.
\<close>

lemma account_collected:
  "pool_inv f js p \<Longrightarrow> wp_awaited p = 0 \<Longrightarrow> size (account (f False) p) = length (wp_collected p)"
  by (simp add: pool_inv_def)

lemma awaited_result:
  assumes "pool_inv f js p" "wp_results p \<noteq> []"
  obtains n where "wp_awaited p = Suc n"
  using account_collected [OF assms(1)] assms(2) that by (cases "wp_awaited p") (auto simp: account_def)

lemma awaited_held:
  assumes "pool_inv f js p" "i < length (wp_workers p)" "held (f False) (wp_workers p ! i) \<noteq> {#}"
  obtains n where "wp_awaited p = Suc n"
proof (cases "wp_awaited p")
  case 0
  from account_collected [OF assms(1) this] have "sum_list (map (held (f False)) (wp_workers p)) = {#}"
    by (simp add: account_def)
  with held_nth [OF assms(2), of "held (f False)"] assms(3) show ?thesis by simp
qed (rule that)

lemma stuck_results:
  assumes "pool_inv f js p" "\<nexists>q. pool_step z f p q"
  shows "wp_results p = []"
proof (cases "wp_results p")
  case (Cons r rs)
  then obtain n where "wp_awaited p = Suc n" using awaited_result [OF assms(1)] by auto
  with Cons assms(2) show ?thesis by (blast intro: pool_step.collect)
qed

lemma stuck_idle:
  assumes inv: "pool_inv f js p" and stuck: "\<nexists>q. pool_step z f p q" and i: "i < length (wp_workers p)"
  shows "wp_workers p ! i = Idle"
proof (cases "wp_workers p ! i")
  case (Running j)
  with i stuck show ?thesis by (blast intro: pool_step.process)
next
  case (Sending r)
  then obtain n where "wp_awaited p = Suc n" using awaited_held [OF inv i] by auto
  with Sending i stuck stuck_results [OF inv stuck] show ?thesis by (blast intro: pool_step.deliver_handover)
next
  case Exited
  with i inv show ?thesis by (auto simp: pool_inv_def in_set_conv_nth)
qed simp

lemma pool_progress:
  assumes inv: "pool_inv f js p" and stuck: "\<nexists>q. pool_step z f p q"
  shows "returned p"
proof -
  note idle = stuck_idle [OF inv stuck]
  have w0: "0 < length (wp_workers p)" using inv by (simp add: pool_inv_def)
  have jobs: "wp_jobs p = []"
    using stuck w0 idle [OF w0] by (cases "wp_jobs p") (blast intro: pool_step.take_job)+
  have todo: "wp_todo p = []"
    using stuck w0 idle [OF w0] jobs inv by (cases "wp_todo p") (auto simp: pool_inv_def intro: pool_step.submit_handover)
  have "map (held (f False)) (wp_workers p) = replicate (length (wp_workers p)) {#}"
    using idle by (intro nth_equalityI) auto
  with jobs todo stuck_results [OF inv stuck] have "account (f False) p = mset (wp_collected p)"
    by (simp add: account_def held_none)
  with inv have "mset (wp_collected p) = image_mset (f False) (mset js)" by (simp add: pool_inv_def)
  then have "length (wp_collected p) = length js" by (metis size_image_mset size_mset)
  with inv todo show ?thesis by (simp add: pool_inv_def returned_def)
qed

section \<open>What \<open>SubmitAndWait\<close> returns\<close>

lemma pool_result:
  assumes "0 < n" "(pool_step z f)\<^sup>*\<^sup>* (SubmitAndWait js (StartWorkers n (NewWorkerPool b))) p"
  shows "(\<nexists>q. pool_step z f p q) \<Longrightarrow> returned p"
    and "returned p \<Longrightarrow> mset (wp_collected p) = image_mset (f False) (mset js)"
proof -
  have inv: "pool_inv f js p"
    by (rule pool.run_keeps [OF assms(2) pool_inv_start [OF assms(1)]])
  show "(\<nexists>q. pool_step z f p q) \<Longrightarrow> returned p" by (rule pool_progress [OF inv])
  assume "returned p"
  then have aw: "wp_awaited p = 0" by (simp add: returned_def)
  let ?rest = "image_mset (f False) (mset (wp_todo p)) + image_mset (f False) (mset (wp_jobs p)) +
     sum_list (map (held (f False)) (wp_workers p)) + mset (wp_results p)"
  have acc: "?rest + mset (wp_collected p) = image_mset (f False) (mset js)"
    using inv by (simp add: pool_inv_def account_def)
  then have "size (?rest + mset (wp_collected p)) = length js" by simp
  then have "size ?rest = 0" using inv aw by (simp add: pool_inv_def)
  then have "?rest = {#}" by (simp only: size_eq_0_iff_empty)
  with acc show "mset (wp_collected p) = image_mset (f False) (mset js)" by (simp only: empty_neutral)
qed

lemma runs_to_stuck:
  obtains q where "(pool_step z f)\<^sup>*\<^sup>* p q" "\<nexists>r. pool_step z f q r"
proof -
  have "\<exists>q. (pool_step z f)\<^sup>*\<^sup>* p q \<and> (\<nexists>r. pool_step z f q r)"
  proof (induction "work_left p" arbitrary: p rule: less_induct)
    case less
    show ?case
    proof (cases "\<exists>r. pool_step z f p r")
      case True
      then obtain r where r: "pool_step z f p r" by blast
      from less [OF pool_step_decreases [OF r]] r show ?thesis
        by (meson converse_rtranclp_into_rtranclp)
    qed blast
  qed
  with that show ?thesis by blast
qed

section \<open>After a shutdown\<close>

text \<open>Nothing left to submit or to deliver, but the collector still waits.\<close>

definition abandoned :: "nat \<Rightarrow> ('j, 'r) WorkerPool \<Rightarrow> bool" where
  "abandoned k p \<longleftrightarrow> wp_todo p = [] \<and> wp_jobs p = [] \<and> wp_results p = [] \<and>
     set (wp_workers p) \<subseteq> {Idle, Exited} \<and> wp_awaited p = k \<and> \<not> wp_jobs_closed p \<and> \<not> wp_results_closed p"

lemma worker_kind: "set (wp_workers p) \<subseteq> {Idle, Exited} \<Longrightarrow> i < length (wp_workers p) \<Longrightarrow>
    wp_workers p ! i = Idle \<or> wp_workers p ! i = Exited"
  using nth_mem by blast

lemma abandoned_step: "pool_step z f p q \<Longrightarrow> abandoned k p \<Longrightarrow> abandoned k q"
proof (induction rule: pool_step.induct)
  case (quit_idle i p)
  then show ?case using set_update_subset_insert [of "wp_workers p" i Exited] by (auto simp: abandoned_def)
next
  case (process i p j)
  then show ?case using worker_kind [of p i] by (auto simp: abandoned_def)
next
  case (deliver i p r)
  then show ?case using worker_kind [of p i] by (auto simp: abandoned_def)
next
  case (deliver_handover i p r n)
  then show ?case using worker_kind [of p i] by (auto simp: abandoned_def)
next
  case (quit_sending i p r)
  then show ?case using worker_kind [of p i] by (auto simp: abandoned_def)
qed (auto simp: abandoned_def)

interpretation abandoned: transition_invariant "pool_step z f" "abandoned k" for z f k
  by unfold_locales (rule abandoned_step)

lemma refuse_all: "wp_cancelled p \<Longrightarrow> (pool_step z f)\<^sup>*\<^sup>* p (p\<lparr>wp_todo := []\<rparr>)"
proof (induction "wp_todo p" arbitrary: p)
  case Nil
  then have "p\<lparr>wp_todo := []\<rparr> = p" by simp
  then show ?case by simp
next
  case (Cons j js)
  have step: "pool_step z f p (p\<lparr>wp_todo := js\<rparr>)"
    by (rule pool_step.submit_refused [OF Cons(2) [symmetric] Cons(3)])
  from Cons(1) [of "p\<lparr>wp_todo := js\<rparr>"] Cons(3) have "(pool_step z f)\<^sup>*\<^sup>* (p\<lparr>wp_todo := js\<rparr>) (p\<lparr>wp_todo := []\<rparr>)"
    by simp
  with step show ?case by (rule converse_rtranclp_into_rtranclp)
qed

lemma shutdown_hangs:
  assumes "js \<noteq> []"
  shows "\<exists>p. (pool_step z f)\<^sup>*\<^sup>* (SubmitAndWait js (Shutdown (StartWorkers n (NewWorkerPool b)))) p \<and>
    (\<nexists>q. pool_step z f p q) \<and> \<not> returned p"
proof -
  let ?p = "SubmitAndWait js (Shutdown (StartWorkers n (NewWorkerPool b)))"
  have "(pool_step z f)\<^sup>*\<^sup>* ?p (?p\<lparr>wp_todo := []\<rparr>)"
    by (rule refuse_all) (simp add: SubmitAndWait_def Shutdown_def)
  moreover obtain q where q: "(pool_step z f)\<^sup>*\<^sup>* (?p\<lparr>wp_todo := []\<rparr>) q" "\<nexists>r. pool_step z f q r"
    by (rule runs_to_stuck)
  moreover have "abandoned (length js) (?p\<lparr>wp_todo := []\<rparr>)"
    by (auto simp: abandoned_def SubmitAndWait_def Shutdown_def StartWorkers_def NewWorkerPool_def)
  with q(1) have "abandoned (length js) q" by (rule abandoned.run_keeps)
  with assms have "\<not> returned q" by (simp add: abandoned_def returned_def)
  ultimately show ?thesis by (meson rtranclp_trans)
qed

section \<open>Shutdown and Stop\<close>



interpretation closed: transition_invariant "pool_step z f" wp_jobs_closed for z f
  by unfold_locales (erule pool_step.cases; simp)


text \<open>After \<open>Stop\<close> in a pool with nothing left to do: it panics never and stops.\<close>

fun drained :: "('j, 'r) WorkerPool option \<Rightarrow> bool" where
  "drained None \<longleftrightarrow> False"
| "drained (Some p) \<longleftrightarrow> wp_jobs_closed p \<and> wp_todo p = [] \<and> wp_jobs p = [] \<and> wp_awaited p = 0 \<and>
     set (wp_workers p) \<subseteq> {Idle, Exited}"

lemma drained_step:
  assumes "process_step z f P Q" "drained P"
  shows "drained Q"
proof (cases P; cases Q)
  fix p q assume PQ: "P = Some p" "Q = Some q"
  with assms(1) have "pool_step z f p q" by (simp add: goes_on)
  from this assms(2) show ?thesis unfolding PQ
  proof (induction rule: pool_step.induct)
    case (quit_idle i p)
    then show ?case using set_update_subset_insert [of "wp_workers p" i Exited] by auto
  qed (use worker_kind in fastforce)+
qed (use assms in \<open>auto simp: panics\<close>)

interpretation drained: transition_invariant "process_step z f" drained for z f
  by unfold_locales (rule drained_step)



text \<open>
  C23: the pool returns every result. From \<open>SubmitAndWait\<close> on at least one
  worker, every run of the pool is finite, a run can only end with the call
  returned, and then the results are exactly those of the jobs, in some order.
\<close>

theorem pool_total:
  assumes "0 < n" "(pool_step z f)\<^sup>*\<^sup>* (SubmitAndWait js (StartWorkers n (NewWorkerPool b))) p"
  shows "wfP (\<lambda>q p. pool_step z f p q) \<and> ((\<exists>q. pool_step z f p q) \<or> returned p) \<and>
    (returned p \<longrightarrow> mset (wp_collected p) = image_mset (f False) (mset js))"
  using pool_terminates [of z f] pool_result [OF assms] by blast

definition two_jobs :: "(nat, nat) WorkerPool" where
  "two_jobs = SubmitAndWait [1, 2] (StartWorkers 1 (NewWorkerPool 1))"

theorem pool_total_witness:
  "(\<exists>q. pool_step 0 (\<lambda>_ j. j + 10) two_jobs q) \<or> returned two_jobs"
  using pool_total [of 1 0 "\<lambda>_ j. j + 10" "[1, 2]" 1 two_jobs] by (simp add: two_jobs_def)



text \<open>
  C25: \<open>SubmitAndWait\<close> on a pool that has ended. With any job to do, after a
  \<open>Shutdown\<close> the pool can run into a state in which no step is possible and
  the call still waits for results that will not come; after a \<open>Stop\<close> the call
  can panic at its first job.
\<close>

theorem submit_after_shutdown:
  assumes "js \<noteq> []"
  shows "(\<exists>p. (pool_step z f)\<^sup>*\<^sup>* (SubmitAndWait js (Shutdown (StartWorkers n (NewWorkerPool b)))) p \<and>
      (\<nexists>q. pool_step z f p q) \<and> \<not> returned p) \<and>
    (\<forall>p q. StopPool p = Some q \<longrightarrow> process_step z f (Some (SubmitAndWait js q)) None)"
proof (intro conjI allI impI shutdown_hangs [OF assms])
  fix p q :: "('a, 'b) WorkerPool" assume "StopPool p = Some q"
  with assms show "process_step z f (Some (SubmitAndWait js q)) None"
    by (cases js) (auto simp: panics StopPool_def SubmitAndWait_def split: if_splits)
qed

theorem submit_after_shutdown_witness:
  "(\<exists>p. (pool_step 0 (\<lambda>_ j. j))\<^sup>*\<^sup>* (SubmitAndWait [1::nat] (Shutdown (StartWorkers 2 (NewWorkerPool 0)))) p \<and> \<not> returned p) \<and>
   process_step 0 (\<lambda>_ j. j) (Some (SubmitAndWait [1::nat] (the (StopPool (StartWorkers 2 (NewWorkerPool 0)))))) None"
proof -
  have "StopPool (StartWorkers 2 (NewWorkerPool 0)) = Some (the (StopPool (StartWorkers 2 (NewWorkerPool 0 :: (nat, nat) WorkerPool))))"
    by (simp add: StopPool_def StartWorkers_def NewWorkerPool_def)
  with submit_after_shutdown [of "[1::nat]" 0 "\<lambda>_ j. j" 2 0] show ?thesis by blast
qed

end
