(* ===== verification/Ratelimiter.thy ===== *)
theory Ratelimiter
  imports Outcomes Decimal Redis_Reference
begin

text \<open>
  Package \<^verbatim>\<open>internal/ratelimiter\<close>: a budget per key, spent by a Lua script.
  Lua computes on floats, so an int64 budget is first rounded to a float.
  What Lua and Redis do with numbers (\<^verbatim>\<open>tonumber\<close>, subtraction, a number as a
  command argument, a number as a reply) is the record \<open>lua\<close>; the locale
  \<open>lua_numbers\<close> states what is documented about integers. \<open>double_int\<close> is
  the float nearest to an integer: 53 significant bits, ties to even.
\<close>

section \<open>Integers as floats\<close>

fun bit_length :: "nat \<Rightarrow> nat" where
  "bit_length n = (if n = 0 then 0 else Suc (bit_length (n div 2)))"

declare bit_length.simps [simp del]

definition round_bits :: "nat \<Rightarrow> nat \<Rightarrow> nat" where
  "round_bits k n =
     (let m = n div 2 ^ k; r = n mod 2 ^ k
      in (if 2 * r > 2 ^ k \<or> (2 * r = 2 ^ k \<and> odd m) then m + 1 else m) * 2 ^ k)"

definition double_int :: "int \<Rightarrow> int" where
  "double_int i =
     (if \<bar>i\<bar> \<le> 2 ^ 53 then i else sgn i * int (round_bits (bit_length (nat \<bar>i\<bar>) - 53) (nat \<bar>i\<bar>)))"

lemma double_int_exact [simp]: "\<bar>i\<bar> \<le> 2 ^ 53 \<Longrightarrow> double_int i = i"
  by (simp add: double_int_def)

section \<open>The limiter\<close>

record lua =
  tonumber :: "string \<Rightarrow> float64 option"
  float_sub :: "float64 \<Rightarrow> float64 \<Rightarrow> float64"
  number_arg :: "float64 \<Rightarrow> string"
  number_reply :: "float64 \<Rightarrow> int"

definition deductBudget :: "'db ext \<Rightarrow> lua \<Rightarrow> string \<Rightarrow> string \<Rightarrow> ('db, rerr + int) state" where
  "deductBudget X L key1 argv1 =
     attempt (rd (r_get X key1)) (\<lambda>current.
     case current of
       None \<Rightarrow> ok (-1)
     | Some s \<Rightarrow>
         (case (tonumber L s, tonumber L argv1) of
            (Some current, Some cost) \<Rightarrow>
              if cost \<le> current then
                (let remaining = float_sub L current cost in
                 attempt (r_set X key1 (number_arg L remaining) NoExpiry) (\<lambda>_. ok (number_reply L remaining)))
              else ok (-1)
          | _ \<Rightarrow> fail (OtherError ''attempt to compare nil with number'')))"

definition budgetKey :: "string \<Rightarrow> err + string" where
  "budgetKey key =
     (let key = TrimSpace key in
      if key = [] then Inl (Rate ErrInvalidKey) else Inr (''ratelimit:budget:'' @ key))"

definition SetBudget :: "'db ext \<Rightarrow> string \<Rightarrow> int \<Rightarrow> ('db world, err + unit) state" where
  "SetBudget X key amount =
     (if amount < 0 then fail (Rate ErrInvalidAmount)
      else case budgetKey key of
          Inl e \<Rightarrow> fail e
        | Inr redisKey \<Rightarrow> call (r_set X redisKey (Itoa amount) (dur_expiry X 0)))"

definition GetBudget :: "'db ext \<Rightarrow> string \<Rightarrow> ('db world, err + int) state" where
  "GetBudget X key =
     (case budgetKey key of
        Inl e \<Rightarrow> fail e
      | Inr redisKey \<Rightarrow>
          attempt (call (rd (r_get X redisKey))) (\<lambda>val.
            case val of
              None \<Rightarrow> ok 0
            | Some s \<Rightarrow> (case ParseInt s of
                  None \<Rightarrow> fail (Plain ''strconv.ParseInt: invalid value'') | Some i \<Rightarrow> ok i)))"

definition AllowAtomic :: "'db ext \<Rightarrow> lua \<Rightarrow> string \<Rightarrow> int \<Rightarrow> ('db world, err + bool \<times> int) state" where
  "AllowAtomic X L key cost =
     (if cost < 0 then fail (Rate ErrInvalidAmount)
      else case budgetKey key of
          Inl e \<Rightarrow> fail e
        | Inr redisKey \<Rightarrow>
            attempt (call (deductBudget X L redisKey (Itoa cost))) (\<lambda>result.
              if result = -1 then ok (False, 0) else ok (True, result)))"

definition Allow :: "'db ext \<Rightarrow> lua \<Rightarrow> string \<Rightarrow> int \<Rightarrow> ('db world, err + bool) state" where
  "Allow X L key cost = attempt (AllowAtomic X L key cost) (\<lambda>(allowed, _). ok allowed)"

section \<open>What is relied on of Lua's numbers\<close>

locale lua_numbers =
  fixes L :: lua
  assumes tonumber_int: "tonumber L (Itoa i) = Some (Fin (of_int (double_int i)))"
    and float_sub_int: "\<bar>a\<bar> \<le> 2 ^ 63 \<Longrightarrow> \<bar>b\<bar> \<le> 2 ^ 63 \<Longrightarrow> double_int a = a \<Longrightarrow> double_int b = b \<Longrightarrow>
        float_sub L (Fin (of_int a)) (Fin (of_int b)) = Fin (of_int (double_int (a - b)))"
    and number_arg_int: "\<bar>i\<bar> < 10 ^ 17 \<Longrightarrow> number_arg L (Fin (of_int i)) = Itoa i"
    and number_reply_int: "\<bar>i\<bar> < 2 ^ 63 \<Longrightarrow> number_reply L (Fin (of_int i)) = i"

text \<open>An instance, for the witnesses.\<close>

definition mem_lua :: lua where
  "mem_lua = \<lparr>tonumber = (\<lambda>s. map_option (\<lambda>i. Fin (of_int (double_int i))) (mem_int s)),
     float_sub = (\<lambda>x y. Fin (of_int (double_int (\<lfloor>fin x\<rfloor> - \<lfloor>fin y\<rfloor>)))),
     number_arg = (\<lambda>x. Itoa \<lfloor>fin x\<rfloor>), number_reply = (\<lambda>x. \<lfloor>fin x\<rfloor>)\<rparr>"

interpretation mem_lua: lua_numbers mem_lua
  by unfold_locales (simp_all add: mem_lua_def mem_int_Itoa)

section \<open>What the limiter does\<close>

text \<open>The key holds a budget.\<close>

definition budget_at :: "'db ext \<Rightarrow> 'db \<Rightarrow> string \<Rightarrow> int \<Rightarrow> bool" where
  "budget_at X db k b \<longleftrightarrow> (\<exists>dl. view X db k = Some (RStr (Itoa b), dl))"

locale limiter = redis X + lua_numbers L for X :: "'db ext" and L
begin

lemma deduct_floats:
  assumes "view X db k = Some (RStr s, dl)" "tonumber L s = Some x" "tonumber L a = Some y" "y \<le> x"
    "number_arg L (float_sub L x y) = t" "number_reply L (float_sub L x y) = n"
  shows "yields X (deductBudget X L k a) db (Inr n) ((view X db)(k \<mapsto> (RStr t, None)))"
  using assms
  by (simp add: yields_def deductBudget_def run_attempt_rd run_attempt get_eq set_res set_view set_clock expiry_ok.simps)

lemma deduct_yields:
  assumes b: "view X db k = Some (RStr (Itoa b), dl)" and bound: "\<bar>b\<bar> \<le> 2 ^ 53" "0 \<le> c" "c \<le> 2 ^ 53"
  shows "yields X (deductBudget X L k (Itoa c)) db (Inr (if c \<le> b then b - c else -1))
    (if c \<le> b then (view X db)(k \<mapsto> (RStr (Itoa (b - c)), None)) else view X db)"
proof -
  have n: "tonumber L (Itoa b) = Some (Fin (of_int b))" "tonumber L (Itoa c) = Some (Fin (of_int c))"
    using bound by (simp_all add: tonumber_int)
  show ?thesis
  proof (cases "c \<le> b")
    case True
    then have sub: "float_sub L (Fin (of_int b)) (Fin (of_int c)) = Fin (of_int (b - c))"
      using bound float_sub_int [of b c] by simp
    have out: "number_arg L (Fin (of_int (b - c))) = Itoa (b - c)" "number_reply L (Fin (of_int (b - c))) = b - c"
      using True bound number_arg_int [of "b - c"] number_reply_int [of "b - c"] by simp_all
    show ?thesis
      using deduct_floats [OF b n, unfolded sub, OF _ out] True by simp
  next
    case False
    with n b show ?thesis by (simp add: yields_def deductBudget_def run_attempt_rd get_eq)
  qed
qed

lemma deduct_missing:
  "view X db k = None \<Longrightarrow> yields X (deductBudget X L k a) db (Inr (-1)) (view X db)"
  by (simp add: yields_def deductBudget_def run_attempt_rd get_eq)

lemma AllowAtomic_answers:
  assumes k: "budgetKey key = Inr k" and b: "view X db k = Some (RStr (Itoa b), dl)"
    and bound: "0 \<le> b" "b \<le> 2 ^ 53" "0 \<le> c" "c \<le> 2 ^ 53"
  shows "answers X (AllowAtomic X L key c) db (Inr (if c \<le> b then (True, b - c) else (False, 0)))
    (if c \<le> b then (view X db)(k \<mapsto> (RStr (Itoa (b - c)), None)) else view X db)"
proof -
  note d = answers_call [OF deduct_yields [OF b _ bound(3,4)], unfolded map_err_simps]
  show ?thesis
    unfolding AllowAtomic_def
    using k bound
    by simp (rule conjI impI answers_attempt [OF d]; auto intro!: answers_ok)+
qed

lemma AllowAtomic_missing:
  assumes "budgetKey key = Inr k" "view X db k = None" "0 \<le> c"
  shows "answers X (AllowAtomic X L key c) db (Inr (False, 0)) (view X db)"
proof -
  note d = answers_call [OF deduct_missing [OF assms(2)], unfolded map_err_simps]
  show ?thesis
    unfolding AllowAtomic_def using assms(1,3)
    by simp (rule answers_attempt [OF d], auto intro!: answers_ok)
qed

lemma SetBudget_answers:
  assumes k: "budgetKey key = Inr k" and a: "0 \<le> amount"
  shows "answers X (SetBudget X key amount) db (Inr ()) ((view X db)(k \<mapsto> (RStr (Itoa amount), None)))"
proof -
  have "yields X (r_set X k (Itoa amount) (dur_expiry X 0)) db (Inr ()) ((view X db)(k \<mapsto> (RStr (Itoa amount), None)))"
    by (simp add: yields_def dur_expiry_zero set_res set_view set_clock expiry_ok.simps)
  from answers_call [OF this] show ?thesis using k a by (simp add: SetBudget_def)
qed

lemma run_GetBudget:
  assumes k: "budgetKey key = Inr k" and b: "view X db k = Some (RStr (Itoa b), dl)" "int64_range b"
  shows "run_state (GetBudget X key) (quiet db) = (Inr b, quiet db)"
  using assms by (simp add: GetBudget_def run_attempt run_call_quiet get_eq ParseInt_Itoa)

text \<open>
  Beyond the floats' integers: at a budget of $2^{54}$ a request of cost 1 is
  allowed, and the budget does not change.
\<close>

lemma double_int_54: "double_int (2 ^ 54) = 2 ^ 54" "double_int (2 ^ 54 - 1) = 2 ^ 54"
  by (simp_all add: double_int_def round_bits_def bit_length.simps)

lemma AllowAtomic_stuck:
  assumes k: "budgetKey key = Inr k" and b: "view X db k = Some (RStr (Itoa (2 ^ 54)), dl)"
  shows "answers X (AllowAtomic X L key 1) db (Inr (True, 2 ^ 54)) ((view X db)(k \<mapsto> (RStr (Itoa (2 ^ 54)), None)))"
proof -
  have n: "tonumber L (Itoa (2 ^ 54)) = Some (Fin (of_int (2 ^ 54)))" "tonumber L (Itoa 1) = Some (Fin (of_int 1))"
    using tonumber_int [of "2 ^ 54"] tonumber_int [of 1] unfolding double_int_54 by simp_all
  have sub: "float_sub L (Fin (of_int (2 ^ 54))) (Fin (of_int 1)) = Fin (of_int (2 ^ 54))"
    using float_sub_int [of "2 ^ 54" 1] unfolding double_int_54 by simp
  have out: "number_arg L (Fin (of_int (2 ^ 54))) = Itoa (2 ^ 54)" "number_reply L (Fin (of_int (2 ^ 54))) = 2 ^ 54"
    by (rule number_arg_int, simp, rule number_reply_int, simp)
  have "Fin (of_int 1) \<le> Fin (of_int (2 ^ 54))" by simp
  from deduct_floats [OF b n this, unfolded sub, OF out]
  have "yields X (deductBudget X L k (Itoa 1)) db (Inr (2 ^ 54)) ((view X db)(k \<mapsto> (RStr (Itoa (2 ^ 54)), None)))" .
  note d = answers_call [OF this, unfolded map_err_simps]
  show ?thesis
    unfolding AllowAtomic_def using k
    by simp (rule answers_attempt [OF d], auto intro!: answers_ok)
qed

end

section \<open>A series of requests\<close>

text \<open>Requests of the given costs, one after the other: which of them were allowed, and the store after.\<close>

fun charge :: "'db ext \<Rightarrow> lua \<Rightarrow> string \<Rightarrow> int list \<Rightarrow> 'db \<Rightarrow> bool list \<times> 'db" where
  "charge X L key [] db = ([], db)"
| "charge X L key (c # cs) db =
     (case run_state (Allow X L key c) (quiet db) of (res, w) \<Rightarrow>
      (case charge X L key cs (wdb w) of (bs, db') \<Rightarrow> ((res = Inr True) # bs, db')))"

definition granted_cost :: "int list \<Rightarrow> bool list \<Rightarrow> int" where
  "granted_cost cs bs = sum_list (map fst (filter snd (zip cs bs)))"

context limiter
begin

lemma run_Allow:
  assumes "budgetKey key = Inr k" "view X db k = Some (RStr (Itoa b), dl)"
    "0 \<le> b" "b \<le> 2 ^ 53" "0 \<le> c" "c \<le> 2 ^ 53"
  obtains db' dl' where "run_state (Allow X L key c) (quiet db) = (Inr (c \<le> b), quiet db')"
    "view X db' k = Some (RStr (Itoa (if c \<le> b then b - c else b)), dl')"
proof (rule answersE [OF AllowAtomic_answers [OF assms]])
  fix db' assume r: "run_state (AllowAtomic X L key c) (quiet db) = (Inr (if c \<le> b then (True, b - c) else (False, 0)), quiet db')"
    "view X db' = (if c \<le> b then (view X db)(k \<mapsto> (RStr (Itoa (b - c)), None)) else view X db)"
  show ?thesis
    by (rule that [of db' "if c \<le> b then None else dl"]) (use r assms(2) in \<open>simp_all add: Allow_def run_attempt\<close>)
qed

lemma charge_budget:
  assumes "budgetKey key = Inr k" "view X db k = Some (RStr (Itoa b), dl)"
    "0 \<le> b" "b \<le> 2 ^ 53" "\<forall>c \<in> set cs. 0 \<le> c \<and> c \<le> 2 ^ 53"
  shows "\<exists>b'. budget_at X (snd (charge X L key cs db)) k b' \<and> 0 \<le> b' \<and>
    b' + granted_cost cs (fst (charge X L key cs db)) = b"
  using assms(2-)
proof (induction cs arbitrary: db b dl)
  case Nil
  then show ?case by (auto simp: budget_at_def granted_cost_def)
next
  case (Cons c cs)
  from Cons.prems(4) have c: "0 \<le> c" "c \<le> 2 ^ 53" by auto
  let ?b = "if c \<le> b then b - c else b"
  obtain db1 dl1 where r: "run_state (Allow X L key c) (quiet db) = (Inr (c \<le> b), quiet db1)"
      "view X db1 k = Some (RStr (Itoa ?b), dl1)"
    using run_Allow [OF assms(1) Cons.prems(1-3) c] .
  have "0 \<le> ?b" "?b \<le> 2 ^ 53" using Cons.prems(2,3) c by auto
  from Cons.IH [OF r(2) this] Cons.prems(4) obtain b' where
    b': "budget_at X (snd (charge X L key cs db1)) k b'" "0 \<le> b'" "b' + granted_cost cs (fst (charge X L key cs db1)) = ?b"
    by auto
  have run: "charge X L key (c # cs) db = ((c \<le> b) # fst (charge X L key cs db1), snd (charge X L key cs db1))"
    by (simp add: r(1) case_prod_beta)
  show ?case
    unfolding run using b' by (intro exI [of _ b']) (auto simp: granted_cost_def split: if_splits)
qed

end

interpretation lim: limiter mem mem_lua
  by (rule limiter.intro [OF mem.redis_axioms mem_lua.lua_numbers_axioms])

section \<open>The limiter's contract\<close>

text \<open>The answer to a check and the store after it, for budgets the floats of Lua hold exactly.\<close>

definition check_answer :: "'db ext \<Rightarrow> 'db \<Rightarrow> string \<Rightarrow> int \<Rightarrow> err + bool \<times> int" where
  "check_answer X db key c =
     (if c < 0 then Inl (Rate ErrInvalidAmount)
      else case budgetKey key of
          Inl e \<Rightarrow> Inl e
        | Inr k \<Rightarrow>
            (case map_option ParseInt (str_at X db k) of
               Some (Some b) \<Rightarrow> if c \<le> b then Inr (True, b - c) else Inr (False, 0)
             | _ \<Rightarrow> Inr (False, 0)))"

definition check_effect :: "'db ext \<Rightarrow> 'db \<Rightarrow> string \<Rightarrow> int \<Rightarrow> string \<Rightarrow> (rval \<times> int option) option" where
  "check_effect X db key c =
     (case (check_answer X db key c, budgetKey key) of
        (Inr (True, left), Inr k) \<Rightarrow> (view X db)(k \<mapsto> (RStr (Itoa left), None))
      | _ \<Rightarrow> view X db)"

text \<open>The key holds nothing or a budget.\<close>

definition budget_ok :: "'db ext \<Rightarrow> 'db \<Rightarrow> string \<Rightarrow> bool" where
  "budget_ok X db key \<longleftrightarrow> (case budgetKey key of Inl _ \<Rightarrow> True
     | Inr k \<Rightarrow> view X db k = None \<or> (\<exists>b dl. 0 \<le> b \<and> b \<le> 2 ^ 53 \<and> view X db k = Some (RStr (Itoa b), dl)))"

context limiter
begin

lemma AllowAtomic_contract:
  assumes "budget_ok X db key" "c \<le> 2 ^ 53"
  shows "answers X (AllowAtomic X L key c) db (check_answer X db key c) (check_effect X db key c)"
proof (cases "0 \<le> c")
  case False
  then show ?thesis by (intro answersI) (auto simp: AllowAtomic_def check_answer_def check_effect_def split: sum.split)
next
  case c: True
  show ?thesis
  proof (cases "budgetKey key")
    case (Inl e)
    with c show ?thesis by (intro answersI) (simp_all add: AllowAtomic_def check_answer_def check_effect_def)
  next
    case k: (Inr k)
    show ?thesis
    proof (cases "view X db k")
      case None
      with AllowAtomic_missing [OF k None c] c k show ?thesis by (simp add: check_answer_def check_effect_def str_at_def)
    next
      case (Some e)
      with assms(1) k obtain b dl where b: "0 \<le> b" "b \<le> 2 ^ 53" "view X db k = Some (RStr (Itoa b), dl)"
        by (auto simp: budget_ok_def)
      have "ParseInt (Itoa b) = Some b" using b by (intro ParseInt_Itoa) (simp add: int64_range_def)
      with AllowAtomic_answers [OF k b(3,1,2) c assms(2)] b c k show ?thesis
        by (simp add: check_answer_def check_effect_def str_at_def split: if_splits)
    qed
  qed
qed

end

text \<open>
  C20: a budget check refines its contract. \<open>AllowAtomic\<close> refuses a negative
  cost and a blank key; without a budget, or with too small a one, it
  answers no and changes nothing; otherwise it answers yes with what is left
  and stores exactly that.
\<close>

theorem check_contract:
  assumes "redis X" "lua_numbers L" "budget_ok X db key" "c \<le> 2 ^ 53"
  shows "answers X (AllowAtomic X L key c) db (check_answer X db key c) (check_effect X db key c)"
  by (rule limiter.AllowAtomic_contract [OF limiter.intro [OF assms(1,2)] assms(3,4)])

text \<open>One budget of 5 under the key \<open>k\<close>.\<close>

definition budget_store :: mem_db where
  "budget_store = \<lparr>kv = [(''ratelimit:budget:k'', MStr ''5'', None)], time = 0\<rparr>"

lemma budget_store_view: "view mem budget_store ''ratelimit:budget:k'' = Some (RStr (Itoa 5), None)"
proof -
  have "Itoa 5 = ''5''" by code_simp
  then show ?thesis by (simp add: mem_def mem_view_def mem_find_def alive_def budget_store_def)
qed

theorem check_contract_witness:
  "answers mem (AllowAtomic mem mem_lua ''k'' 3) budget_store
     (check_answer mem budget_store ''k'' 3) (check_effect mem budget_store ''k'' 3) \<and>
   check_answer mem budget_store ''k'' 3 = Inr (True, 2)"
proof
  have k: "budgetKey ''k'' = Inr ''ratelimit:budget:k''" by code_simp
  have "0 \<le> (5::int) \<and> (5::int) \<le> 2 ^ 53" by simp
  then have "budget_ok mem budget_store ''k''"
    unfolding budget_ok_def k sum.case using budget_store_view by blast
  then show "answers mem (AllowAtomic mem mem_lua ''k'' 3) budget_store
     (check_answer mem budget_store ''k'' 3) (check_effect mem budget_store ''k'' 3)"
    by (rule check_contract [OF mem.redis_axioms mem_lua.lua_numbers_axioms]) simp
  show "check_answer mem budget_store ''k'' 3 = Inr (True, 2)" by code_simp
qed

text \<open>
  C21: a budget is never overspent. Over any series of requests the costs of
  those that were allowed and what is left add up to the budget set, and
  what is left is never negative.
\<close>

theorem budget_never_overspent:
  assumes "redis X" "lua_numbers L" "budgetKey key = Inr k" "view X db k = Some (RStr (Itoa b), dl)"
    and "0 \<le> b" "b \<le> 2 ^ 53" "\<forall>c \<in> set cs. 0 \<le> c \<and> c \<le> 2 ^ 53"
  shows "\<exists>b'. budget_at X (snd (charge X L key cs db)) k b' \<and> 0 \<le> b' \<and>
    b' + granted_cost cs (fst (charge X L key cs db)) = b"
  by (rule limiter.charge_budget [OF limiter.intro [OF assms(1,2)] assms(3-7)])

theorem budget_never_overspent_witness:
  "\<exists>b'. budget_at mem (snd (charge mem mem_lua ''k'' [3, 4, 2] budget_store)) ''ratelimit:budget:k'' b' \<and> 0 \<le> b' \<and>
    b' + granted_cost [3, 4, 2] (fst (charge mem mem_lua ''k'' [3, 4, 2] budget_store)) = 5"
proof (rule budget_never_overspent [OF mem.redis_axioms mem_lua.lua_numbers_axioms _ budget_store_view])
  show "budgetKey ''k'' = Inr ''ratelimit:budget:k''" by code_simp
qed simp_all

text \<open>
  C22: beyond the integers of a float. A budget of $2^{54}$ allows a request
  of cost 1 and stays at $2^{54}$, so it is never used up.
\<close>

theorem budget_stuck:
  assumes "redis X" "lua_numbers L" "budgetKey key = Inr k" "view X db k = Some (RStr (Itoa (2 ^ 54)), dl)"
  shows "answers X (AllowAtomic X L key 1) db (Inr (True, 2 ^ 54)) ((view X db)(k \<mapsto> (RStr (Itoa (2 ^ 54)), None)))"
  by (rule limiter.AllowAtomic_stuck [OF limiter.intro [OF assms(1,2)] assms(3,4)])

theorem budget_stuck_witness:
  "fst (run_state (AllowAtomic mem mem_lua ''k'' 1)
     (quiet \<lparr>kv = [(''ratelimit:budget:k'', MStr (Itoa (2 ^ 54)), None)], time = 0\<rparr>)) = Inr (True, 2 ^ 54)"
proof -
  let ?db = "\<lparr>kv = [(''ratelimit:budget:k'', MStr (Itoa (2 ^ 54)), None)], time = 0\<rparr>"
  have k: "budgetKey ''k'' = Inr ''ratelimit:budget:k''" by code_simp
  have "view mem ?db ''ratelimit:budget:k'' = Some (RStr (Itoa (2 ^ 54)), None)"
    by (simp add: mem_def mem_view_def mem_find_def alive_def)
  from budget_stuck [OF mem.redis_axioms mem_lua.lua_numbers_axioms k this] show ?thesis
    by (auto simp: answers_def)
qed

end
