(* ===== verification/Realtime.thy ===== *)
theory Realtime
  imports Errors Steps
begin

text \<open>
  Package \<^verbatim>\<open>internal/realtime\<close>: the hub of connected WebSocket clients. Clients
  live in a heap and are named by their address, so that a pointer
  comparison of the code is a comparison of addresses. The two maps of the
  hub are association lists, in the order a range over them visits. One
  iteration of the hub's loop is one event; where a Go \<^verbatim>\<open>select\<close> may choose
  between two ready cases, the choice is an argument. The network behind a
  client is its queue of outgoing messages; JSON decoding is an argument.
\<close>

section \<open>Messages\<close>

type_synonym MessageType = string

abbreviation TypeLocationUpdate :: MessageType where "TypeLocationUpdate \<equiv> ''location_update''"
abbreviation TypeSubscribe :: MessageType where "TypeSubscribe \<equiv> ''subscribe''"
abbreviation TypeUnsubscribe :: MessageType where "TypeUnsubscribe \<equiv> ''unsubscribe''"
abbreviation TypeHeartbeat :: MessageType where "TypeHeartbeat \<equiv> ''heartbeat''"
abbreviation TypeDriverLocation :: MessageType where "TypeDriverLocation \<equiv> ''driver_location''"
abbreviation TypeError :: MessageType where "TypeError \<equiv> ''error''"
abbreviation TypeAck :: MessageType where "TypeAck \<equiv> ''ack''"

record LocationPayload =
  lp_DriverID :: string
  lp_Longitude :: float64
  lp_Latitude :: float64
  lp_Heading :: float64
  lp_Speed :: float64
  lp_Accuracy :: float64

text \<open>
  The payload of an outgoing message. \<^verbatim>\<open>json.Marshal\<close> refuses a float that is
  not finite; the code ignores the error and sends no payload.
\<close>

datatype payload =
    NoPayload
  | DriverLocationPayload string float64 float64 float64 float64
  | ErrorPayload string string
  | AckPayload string

record Message =
  m_Type :: MessageType
  m_Payload :: payload
  m_Timestamp :: int

text \<open>An incoming message: its type and the raw payload.\<close>

record Incoming =
  i_Type :: MessageType
  i_Payload :: string

record codec =
  decode_message :: "string \<Rightarrow> Incoming option"
  decode_location :: "string \<Rightarrow> LocationPayload option"
  decode_subscribe :: "string \<Rightarrow> string option"

definition location_payload :: "LocationPayload \<Rightarrow> payload" where
  "location_payload loc =
     (if list_all (\<lambda>x. \<not> IsNaN x \<and> \<not> IsInf x) [lp_Longitude loc, lp_Latitude loc, lp_Heading loc, lp_Speed loc]
      then DriverLocationPayload (lp_DriverID loc) (lp_Longitude loc) (lp_Latitude loc) (lp_Heading loc) (lp_Speed loc)
      else NoPayload)"

section \<open>Clients\<close>

type_synonym ClientType = string

abbreviation ClientTypeDriver :: ClientType where "ClientTypeDriver \<equiv> ''driver''"
abbreviation ClientTypeRider :: ClientType where "ClientTypeRider \<equiv> ''rider''"

datatype hub_err = ErrClientBufferFull | ErrHubClosed

record Client =
  c_ID :: string
  c_Type :: ClientType
  c_send :: "Message list"
  c_done :: bool
  c_subscribed :: "string set"

definition NewClient :: "string \<Rightarrow> ClientType \<Rightarrow> Client" where
  "NewClient ident clientType =
     \<lparr>c_ID = ident, c_Type = clientType, c_send = [], c_done = False, c_subscribed = {}\<rparr>"

definition send_capacity :: nat where
  "send_capacity = 256"

text \<open>
  \<^verbatim>\<open>SendBytes\<close>: of the ready cases of its select one is taken, the default
  only when none is. With the client closed and room in the buffer both are
  ready and \<open>pick\<close> decides.
\<close>

definition SendBytes :: "bool \<Rightarrow> Message \<Rightarrow> Client \<Rightarrow> hub_err option \<times> Client" where
  "SendBytes pick msg c =
     (let room = length (c_send c) < send_capacity in
      if c_done c \<and> (pick \<or> \<not> room) then (Some ErrHubClosed, c)
      else if room then (None, c\<lparr>c_send := c_send c @ [msg]\<rparr>)
      else (Some ErrClientBufferFull, c))"

definition CloseClient :: "Client \<Rightarrow> Client" where
  "CloseClient c = c\<lparr>c_done := True\<rparr>"

definition isDone :: "Client \<Rightarrow> bool" where
  "isDone c = c_done c"

definition IsSubscribedTo :: "Client \<Rightarrow> string \<Rightarrow> bool" where
  "IsSubscribedTo c driverID \<longleftrightarrow> driverID \<in> c_subscribed c"

definition sendError :: "bool \<Rightarrow> int \<Rightarrow> string \<Rightarrow> string \<Rightarrow> Client \<Rightarrow> Client" where
  "sendError pick now code message c =
     snd (SendBytes pick \<lparr>m_Type = TypeError, m_Payload = ErrorPayload code message, m_Timestamp = now\<rparr> c)"

definition sendAck :: "bool \<Rightarrow> int \<Rightarrow> string \<Rightarrow> Client \<Rightarrow> Client" where
  "sendAck pick now status c =
     snd (SendBytes pick \<lparr>m_Type = TypeAck, m_Payload = AckPayload status, m_Timestamp = now\<rparr> c)"

text \<open>One turn of \<^verbatim>\<open>WritePump\<close> that takes a queued message to the network.\<close>

definition write_next :: "Client \<Rightarrow> (Message \<times> Client) option" where
  "write_next c = (case c_send c of [] \<Rightarrow> None | m # ms \<Rightarrow> Some (m, c\<lparr>c_send := ms\<rparr>))"

section \<open>The hub\<close>

record HubStats =
  hs_TotalDrivers :: nat
  hs_TotalRiders :: nat
  hs_MessagesPerSec :: nat
  hs_TotalMessages :: nat

record Hub =
  h_heap :: "Client list"
  h_drivers :: "(string \<times> nat) list"
  h_riders :: "(string \<times> nat) list"
  h_broadcast :: "LocationPayload list"
  h_done :: bool
  h_running :: bool
  h_stats :: HubStats
  h_second :: nat

definition NewHub :: Hub where
  "NewHub = \<lparr>h_heap = [], h_drivers = [], h_riders = [], h_broadcast = [], h_done = False, h_running = False,
     h_stats = \<lparr>hs_TotalDrivers = 0, hs_TotalRiders = 0, hs_MessagesPerSec = 0, hs_TotalMessages = 0\<rparr>,
     h_second = 0\<rparr>"

definition broadcast_capacity :: nat where
  "broadcast_capacity = 256"

definition update_client :: "nat \<Rightarrow> (Client \<Rightarrow> Client) \<Rightarrow> Hub \<Rightarrow> Hub" where
  "update_client a g h = (if a < length (h_heap h) then h\<lparr>h_heap := (h_heap h)[a := g (h_heap h ! a)]\<rparr> else h)"

text \<open>\<^verbatim>\<open>NewClient\<close> in the heap of the process: the address of the fresh client.\<close>

definition alloc :: "Client \<Rightarrow> Hub \<Rightarrow> nat \<times> Hub" where
  "alloc c h = (length (h_heap h), h\<lparr>h_heap := h_heap h @ [c]\<rparr>)"

definition close_old :: "nat option \<Rightarrow> Hub \<Rightarrow> Hub" where
  "close_old old h = (case old of None \<Rightarrow> h | Some a \<Rightarrow> update_client a CloseClient h)"

definition registerClient :: "nat \<Rightarrow> Hub \<Rightarrow> Hub" where
  "registerClient a h =
     (let c = h_heap h ! a in
      if c_Type c = ClientTypeDriver then
        (let h1 = close_old (map_of (h_drivers h) (c_ID c)) h;
             ds = AList.update (c_ID c) a (h_drivers h1)
         in h1\<lparr>h_drivers := ds, h_stats := (h_stats h1)\<lparr>hs_TotalDrivers := length ds\<rparr>\<rparr>)
      else
        (let h1 = close_old (map_of (h_riders h) (c_ID c)) h;
             rs = AList.update (c_ID c) a (h_riders h1)
         in h1\<lparr>h_riders := rs, h_stats := (h_stats h1)\<lparr>hs_TotalRiders := length rs\<rparr>\<rparr>))"

definition unregisterClient :: "nat \<Rightarrow> Hub \<Rightarrow> Hub" where
  "unregisterClient a h =
     (let c = h_heap h ! a in
      if c_Type c = ClientTypeDriver then
        (if map_of (h_drivers h) (c_ID c) = Some a then
           (let ds = AList.delete (c_ID c) (h_drivers h); h1 = update_client a CloseClient (h\<lparr>h_drivers := ds\<rparr>)
            in h1\<lparr>h_stats := (h_stats h1)\<lparr>hs_TotalDrivers := length ds\<rparr>\<rparr>)
         else h)
      else
        (if map_of (h_riders h) (c_ID c) = Some a then
           (let rs = AList.delete (c_ID c) (h_riders h); h1 = update_client a CloseClient (h\<lparr>h_riders := rs\<rparr>)
            in h1\<lparr>h_stats := (h_stats h1)\<lparr>hs_TotalRiders := length rs\<rparr>\<rparr>)
         else h))"

definition deliver_location :: "(nat \<Rightarrow> bool) \<Rightarrow> int \<Rightarrow> LocationPayload \<Rightarrow> nat \<Rightarrow> Client \<Rightarrow> Client" where
  "deliver_location pick now loc a rider =
     (if IsSubscribedTo rider (lp_DriverID loc)
      then snd (SendBytes (pick a) \<lparr>m_Type = TypeDriverLocation, m_Payload = location_payload loc, m_Timestamp = now\<rparr> rider)
      else rider)"

definition handleLocationBroadcast :: "(nat \<Rightarrow> bool) \<Rightarrow> int \<Rightarrow> LocationPayload \<Rightarrow> Hub \<Rightarrow> Hub" where
  "handleLocationBroadcast pick now loc h =
     fold (\<lambda>(_, a). update_client a (deliver_location pick now loc a)) (h_riders h) h"

definition closeAllClients :: "Hub \<Rightarrow> Hub" where
  "closeAllClients h =
     (let h1 = fold (\<lambda>(_, a). update_client a CloseClient) (h_drivers h) h;
          h2 = fold (\<lambda>(_, a). update_client a CloseClient) (h_riders h) h1
      in h2\<lparr>h_drivers := [], h_riders := [],
          h_stats := (h_stats h2)\<lparr>hs_TotalDrivers := 0, hs_TotalRiders := 0\<rparr>\<rparr>)"

text \<open>One iteration of \<^verbatim>\<open>Run\<close>: the case its select takes.\<close>

datatype hub_event = Registered nat | Unregistered nat | Broadcast | Tick | Done

fun run_event :: "(nat \<Rightarrow> bool) \<Rightarrow> int \<Rightarrow> hub_event \<Rightarrow> Hub \<Rightarrow> Hub" where
  "run_event pick now (Registered a) h = registerClient a h"
| "run_event pick now (Unregistered a) h = unregisterClient a h"
| "run_event pick now Broadcast h =
     (case h_broadcast h of
        [] \<Rightarrow> h
      | loc # rest \<Rightarrow>
          (let h1 = handleLocationBroadcast pick now loc (h\<lparr>h_broadcast := rest\<rparr>)
           in h1\<lparr>h_second := Suc (h_second h1),
                h_stats := (h_stats h1)\<lparr>hs_TotalMessages := Suc (hs_TotalMessages (h_stats h1))\<rparr>\<rparr>))"
| "run_event pick now Tick h = h\<lparr>h_stats := (h_stats h)\<lparr>hs_MessagesPerSec := h_second h\<rparr>, h_second := 0\<rparr>"
| "run_event pick now Done h = (closeAllClients h)\<lparr>h_running := False\<rparr>"

text \<open>
  \<^verbatim>\<open>go hub.Run()\<close>, as \<^verbatim>\<open>Server.StartHub\<close> does it: from now on the loop takes
  events. \<^verbatim>\<open>Stop\<close> cancels the context of the hub.
\<close>

definition StartHub :: "Hub \<Rightarrow> Hub" where
  "StartHub h = h\<lparr>h_running := True\<rparr>"

definition StopHub :: "Hub \<Rightarrow> Hub" where
  "StopHub h = h\<lparr>h_done := True\<rparr>"

text \<open>
  \<^verbatim>\<open>Register\<close> and \<^verbatim>\<open>Unregister\<close> as calls: the unbuffered channel hands the client
  to the running loop, or the closed context is taken; when both are ready,
  \<open>pick\<close> decides. A call that neither case can serve yet does not return.
\<close>

definition Register :: "bool \<Rightarrow> nat \<Rightarrow> Hub \<Rightarrow> Hub option" where
  "Register pick a h =
     (if h_running h \<and> (pick \<or> \<not> h_done h) then Some (registerClient a h)
      else if h_done h then Some (update_client a CloseClient h) else None)"

definition Unregister :: "bool \<Rightarrow> nat \<Rightarrow> Hub \<Rightarrow> Hub option" where
  "Unregister pick a h =
     (if h_running h \<and> (pick \<or> \<not> h_done h) then Some (unregisterClient a h)
      else if h_done h then Some (update_client a CloseClient h) else None)"

definition GetHubStats :: "Hub \<Rightarrow> HubStats" where
  "GetHubStats h = h_stats h"

definition GetDriverCount :: "Hub \<Rightarrow> nat" where
  "GetDriverCount h = length (h_drivers h)"

definition GetRiderCount :: "Hub \<Rightarrow> nat" where
  "GetRiderCount h = length (h_riders h)"

definition send_to :: "(string \<times> nat) list \<Rightarrow> string \<Rightarrow> bool \<Rightarrow> string \<Rightarrow> Message \<Rightarrow> Hub \<Rightarrow> (string + hub_err option) \<times> Hub" where
  "send_to clients missing pick ident msg h =
     (case map_of clients ident of
        None \<Rightarrow> (Inl missing, h)
      | Some a \<Rightarrow> (Inr (fst (SendBytes pick msg (h_heap h ! a))), update_client a (snd \<circ> SendBytes pick msg) h))"

definition SendToDriver :: "bool \<Rightarrow> string \<Rightarrow> Message \<Rightarrow> Hub \<Rightarrow> (string + hub_err option) \<times> Hub" where
  "SendToDriver pick driverID msg h = send_to (h_drivers h) ''driver not connected'' pick driverID msg h"

definition SendToRider :: "bool \<Rightarrow> string \<Rightarrow> Message \<Rightarrow> Hub \<Rightarrow> (string + hub_err option) \<times> Hub" where
  "SendToRider pick riderID msg h = send_to (h_riders h) ''rider not connected'' pick riderID msg h"

section \<open>Messages from clients\<close>

text \<open>
  The handlers reach the backend, a state \<open>'w\<close>, through two functions given
  to the hub, which may be nil. \<open>Blocked\<close> is a caller that waits for room in the queue of
  broadcasts; its location is already persisted.
\<close>

record 'w handlers =
  locationHandler :: "(LocationPayload \<Rightarrow> ('w, err + unit) state) option"
  heartbeatHandler :: "(string \<Rightarrow> ('w, err + unit) state) option"

datatype publish = Rejected err | Queued | Closed | Blocked

definition PublishLocation :: "bool \<Rightarrow> 'w handlers \<Rightarrow> LocationPayload \<Rightarrow> Hub \<Rightarrow> 'w \<Rightarrow> publish \<times> Hub \<times> 'w" where
  "PublishLocation pick hs loc h w =
     (case (case locationHandler hs of None \<Rightarrow> (Inr (), w) | Some f \<Rightarrow> run_state (f loc) w) of
        (Inl e, w') \<Rightarrow> (Rejected e, h, w')
      | (Inr _, w') \<Rightarrow>
          (let room = length (h_broadcast h) < broadcast_capacity in
           if h_done h \<and> (pick \<or> \<not> room) then (Closed, h, w')
           else if room then (Queued, h\<lparr>h_broadcast := h_broadcast h @ [loc]\<rparr>, w')
           else (Blocked, h, w')))"

definition HeartbeatDriver :: "'w handlers \<Rightarrow> string \<Rightarrow> Hub \<Rightarrow> 'w \<Rightarrow> (string option) \<times> 'w" where
  "HeartbeatDriver hs driverID h w =
     (case heartbeatHandler hs of
        None \<Rightarrow> (None, w)
      | Some f \<Rightarrow>
          if h_done h then (Some ''hub is closed'', w)
          else case run_state (f driverID) w of
              (Inl e, w') \<Rightarrow> (Some (Error e), w')
            | (Inr _, w') \<Rightarrow> (None, w'))"

definition handleLocationUpdate :: "bool \<Rightarrow> bool \<Rightarrow> int \<Rightarrow> codec \<Rightarrow> 'w handlers \<Rightarrow> nat \<Rightarrow> Incoming \<Rightarrow> Hub \<Rightarrow> 'w \<Rightarrow> Hub \<times> 'w" where
  "handleLocationUpdate pick pick2 now cd hs a msg h w =
     (let c = h_heap h ! a in
      if c_Type c \<noteq> ClientTypeDriver then
        (update_client a (sendError pick now ''permission_denied'' ''Only drivers can send location updates'') h, w)
      else case decode_location cd (i_Payload msg) of
          None \<Rightarrow> (update_client a (sendError pick now ''invalid_payload'' ''Invalid location payload'') h, w)
        | Some loc \<Rightarrow>
            (case PublishLocation pick2 hs (loc\<lparr>lp_DriverID := c_ID c\<rparr>) h w of
               (Rejected e, h', w') \<Rightarrow> (update_client a (sendError pick now ''location_update_failed'' (Error e)) h', w')
             | (Closed, h', w') \<Rightarrow> (update_client a (sendError pick now ''location_update_failed'' ''hub is closed'') h', w')
             | (_, h', w') \<Rightarrow> (h', w')))"

definition handleSubscribe :: "bool \<Rightarrow> int \<Rightarrow> codec \<Rightarrow> nat \<Rightarrow> Incoming \<Rightarrow> Hub \<Rightarrow> Hub" where
  "handleSubscribe pick now cd a msg h =
     (let c = h_heap h ! a in
      if c_Type c \<noteq> ClientTypeRider then
        update_client a (sendError pick now ''permission_denied'' ''Only riders can subscribe'') h
      else case decode_subscribe cd (i_Payload msg) of
          None \<Rightarrow> update_client a (sendError pick now ''invalid_payload'' ''Invalid subscribe payload'') h
        | Some driverID \<Rightarrow>
            update_client a (\<lambda>c. sendAck pick now ''subscribed'' (c\<lparr>c_subscribed := insert driverID (c_subscribed c)\<rparr>)) h)"

definition handleUnsubscribe :: "bool \<Rightarrow> int \<Rightarrow> codec \<Rightarrow> nat \<Rightarrow> Incoming \<Rightarrow> Hub \<Rightarrow> Hub" where
  "handleUnsubscribe pick now cd a msg h =
     (let c = h_heap h ! a in
      if c_Type c \<noteq> ClientTypeRider then
        update_client a (sendError pick now ''permission_denied'' ''Only riders can unsubscribe'') h
      else case decode_subscribe cd (i_Payload msg) of
          None \<Rightarrow> update_client a (sendError pick now ''invalid_payload'' ''Invalid unsubscribe payload'') h
        | Some driverID \<Rightarrow>
            update_client a (\<lambda>c. sendAck pick now ''unsubscribed'' (c\<lparr>c_subscribed := c_subscribed c - {driverID}\<rparr>)) h)"

definition handleHeartbeat :: "bool \<Rightarrow> int \<Rightarrow> 'w handlers \<Rightarrow> nat \<Rightarrow> Hub \<Rightarrow> 'w \<Rightarrow> Hub \<times> 'w" where
  "handleHeartbeat pick now hs a h w =
     (let c = h_heap h ! a in
      if c_Type c \<noteq> ClientTypeDriver then
        (update_client a (sendError pick now ''permission_denied'' ''Only drivers can send heartbeats'') h, w)
      else case HeartbeatDriver hs (c_ID c) h w of
          (Some e, w') \<Rightarrow> (update_client a (sendError pick now ''heartbeat_failed'' e) h, w')
        | (None, w') \<Rightarrow> (update_client a (sendAck pick now ''heartbeat'') h, w'))"

definition handleMessage :: "bool \<Rightarrow> bool \<Rightarrow> int \<Rightarrow> codec \<Rightarrow> 'w handlers \<Rightarrow> nat \<Rightarrow> Incoming \<Rightarrow> Hub \<Rightarrow> 'w \<Rightarrow> Hub \<times> 'w" where
  "handleMessage pick pick2 now cd hs a msg h w =
     (if i_Type msg = TypeLocationUpdate then handleLocationUpdate pick pick2 now cd hs a msg h w
      else if i_Type msg = TypeSubscribe then (handleSubscribe pick now cd a msg h, w)
      else if i_Type msg = TypeUnsubscribe then (handleUnsubscribe pick now cd a msg h, w)
      else if i_Type msg = TypeHeartbeat then handleHeartbeat pick now hs a h w
      else (h, w))"

section \<open>The steps of the hub and its clients\<close>

inductive hub_step :: "codec \<Rightarrow> 'w handlers \<Rightarrow> Hub \<times> 'w \<Rightarrow> Hub \<times> 'w \<Rightarrow> bool" for cd hs where
  connected: "hub_step cd hs (h, w) (snd (alloc (NewClient i t) h), w)"
| registered: "a < length (h_heap h) \<Longrightarrow> Register pick a h = Some h' \<Longrightarrow> hub_step cd hs (h, w) (h', w)"
| unregistered: "a < length (h_heap h) \<Longrightarrow> Unregister pick a h = Some h' \<Longrightarrow> hub_step cd hs (h, w) (h', w)"
| closed: "hub_step cd hs (h, w) (update_client a CloseClient h, w)"
| broadcast: "h_running h \<Longrightarrow> hub_step cd hs (h, w) (run_event picks now Broadcast h, w)"
| tick: "h_running h \<Longrightarrow> hub_step cd hs (h, w) (run_event picks now Tick h, w)"
| started: "hub_step cd hs (h, w) (StartHub h, w)"
| stopped: "hub_step cd hs (h, w) (StopHub h, w)"
| finished: "h_running h \<Longrightarrow> h_done h \<Longrightarrow> hub_step cd hs (h, w) (run_event picks now Done h, w)"
| message: "a < length (h_heap h) \<Longrightarrow> hub_step cd hs (h, w) (handleMessage pick pick2 now cd hs a msg h w)"
| written: "a < length (h_heap h) \<Longrightarrow> write_next (h_heap h ! a) = Some (m, c) \<Longrightarrow>
    hub_step cd hs (h, w) (update_client a (\<lambda>_. c) h, w)"
| backend: "hub_step cd hs (h, w) (h, w')"

section \<open>The pumps\<close>

text \<open>
  The reader and the writer of a connection. What the network does is a list
  of events, each with the choices its step makes; an empty list is a pump
  that still waits. Deadlines, the read limit and the ticker's period only
  decide which events come and are not modelled.
\<close>

datatype read_event = ReadMessage string bool bool int | ReadError bool

text \<open>\<open>None\<close> is a reader that waits in \<open>Unregister\<close>.\<close>

fun ReadPump :: "codec \<Rightarrow> 'w handlers \<Rightarrow> nat \<Rightarrow> read_event list \<Rightarrow> Hub \<Rightarrow> 'w \<Rightarrow> Hub option \<times> 'w" where
  "ReadPump cd hs a [] h w = (Some h, w)"
| "ReadPump cd hs a (ReadError pick # evs) h w = (map_option (update_client a CloseClient) (Unregister pick a h), w)"
| "ReadPump cd hs a (ReadMessage raw pick pick2 now # evs) h w =
     (case decode_message cd raw of
        None \<Rightarrow> ReadPump cd hs a evs h w
      | Some msg \<Rightarrow> (case handleMessage pick pick2 now cd hs a msg h w of (h', w') \<Rightarrow> ReadPump cd hs a evs h' w'))"

text \<open>
  Why a read fails: a close frame of the peer with its code, or anything
  else. Whether the reader's end is worth a line in the log.
\<close>

datatype read_error = CloseError nat | OtherReadError

abbreviation CloseNormalClosure :: nat where "CloseNormalClosure \<equiv> 1000"
abbreviation CloseGoingAway :: nat where "CloseGoingAway \<equiv> 1001"

definition isExpectedReadClose :: "read_error \<Rightarrow> bool" where
  "isExpectedReadClose err = (case err of CloseError code \<Rightarrow> code = CloseNormalClosure \<or> code = CloseGoingAway | _ \<Rightarrow> False)"

definition shouldLogReadError :: "read_error \<Rightarrow> bool \<Rightarrow> bool" where
  "shouldLogReadError err clientDone \<longleftrightarrow> \<not> clientDone \<and> \<not> isExpectedReadClose err"

lemma quiet_ends:
  "\<not> shouldLogReadError err (isDone (CloseClient c))" "\<not> shouldLogReadError (CloseError CloseNormalClosure) b"
  "\<not> isDone c \<Longrightarrow> shouldLogReadError OtherReadError (isDone c)"
  by (simp_all add: shouldLogReadError_def isExpectedReadClose_def isDone_def CloseClient_def)

text \<open>The payload of a close frame: a code and a reason.\<close>

definition normalCloseMessage :: "nat \<times> string" where
  "normalCloseMessage = (CloseNormalClosure, ''Server closing'')"

datatype write_event = WriteClose | WriteQueued bool | WritePing bool

datatype frame = TextFrame Message | PingFrame | CloseFrame "nat \<times> string"

text \<open>The frames written, and the client after; \<open>None\<close> for an event that is not ready.\<close>

fun WritePump :: "write_event list \<Rightarrow> Client \<Rightarrow> (frame list \<times> Client) option" where
  "WritePump [] c = Some ([], c)"
| "WritePump (WriteClose # evs) c = (if c_done c then Some ([CloseFrame normalCloseMessage], c) else None)"
| "WritePump (WriteQueued sent # evs) c =
     (case write_next c of
        None \<Rightarrow> None
      | Some (m, c') \<Rightarrow> if sent then map_option (\<lambda>(fs, c''). (TextFrame m # fs, c'')) (WritePump evs c') else Some ([], c'))"
| "WritePump (WritePing sent # evs) c =
     (if sent then map_option (\<lambda>(fs, c'). (PingFrame # fs, c')) (WritePump evs c) else Some ([], c))"

text \<open>A client as far as the hub's maps are concerned, and a bounded queue.\<close>

definition entry_ok :: "Client list \<Rightarrow> bool \<Rightarrow> string \<times> nat \<Rightarrow> bool" where
  "entry_ok heap drv e \<longleftrightarrow> snd e < length heap \<and> c_ID (heap ! snd e) = fst e \<and>
     (c_Type (heap ! snd e) = ClientTypeDriver) = drv"

definition hub_ok :: "Hub \<Rightarrow> bool" where
  "hub_ok h \<longleftrightarrow> distinct (map fst (h_drivers h)) \<and> distinct (map fst (h_riders h)) \<and>
     list_all (entry_ok (h_heap h) True) (h_drivers h) \<and> list_all (entry_ok (h_heap h) False) (h_riders h) \<and>
     hs_TotalDrivers (h_stats h) = length (h_drivers h) \<and> hs_TotalRiders (h_stats h) = length (h_riders h) \<and>
     list_all (\<lambda>c. length (c_send c) \<le> send_capacity) (h_heap h) \<and>
     length (h_broadcast h) \<le> broadcast_capacity \<and>
     (\<not> h_running h \<longrightarrow> h_drivers h = [] \<and> h_riders h = [])"

text \<open>What an update of a client may do without the hub noticing.\<close>

definition benign :: "(Client \<Rightarrow> Client) \<Rightarrow> bool" where
  "benign g \<longleftrightarrow> (\<forall>c. c_ID (g c) = c_ID c \<and> c_Type (g c) = c_Type c \<and>
     (length (c_send c) \<le> send_capacity \<longrightarrow> length (c_send (g c)) \<le> send_capacity))"

lemma SendBytes_fields [simp]:
  "c_ID (snd (SendBytes pick msg c)) = c_ID c" "c_Type (snd (SendBytes pick msg c)) = c_Type c"
  "c_done (snd (SendBytes pick msg c)) = c_done c" "c_subscribed (snd (SendBytes pick msg c)) = c_subscribed c"
  "length (c_send c) \<le> send_capacity \<Longrightarrow> length (c_send (snd (SendBytes pick msg c))) \<le> send_capacity"
  by (simp_all add: SendBytes_def Let_def)

lemma benign_simps [simp]:
  "benign CloseClient" "benign (sendError pick now code text)" "benign (sendAck pick now code)"
  "benign (deliver_location picks now loc a)"
  "benign (\<lambda>c. c\<lparr>c_subscribed := F (c_subscribed c)\<rparr>)"
  by (simp_all add: benign_def CloseClient_def sendError_def sendAck_def deliver_location_def)

lemma benign_subscribed: "benign (\<lambda>c. sendAck pick now t (c\<lparr>c_subscribed := F c\<rparr>))"
  using benign_simps(3) [of pick now t] by (auto simp: benign_def)

lemma update_client_fields [simp]:
  "h_drivers (update_client a g h) = h_drivers h" "h_riders (update_client a g h) = h_riders h"
  "h_stats (update_client a g h) = h_stats h" "h_broadcast (update_client a g h) = h_broadcast h"
  "h_running (update_client a g h) = h_running h" "h_done (update_client a g h) = h_done h"
  "h_second (update_client a g h) = h_second h"
  "length (h_heap (update_client a g h)) = length (h_heap h)"
  by (simp_all add: update_client_def)

lemma update_client_nth:
  "h_heap (update_client a g h) ! b = (if b = a \<and> a < length (h_heap h) then g (h_heap h ! a) else h_heap h ! b)"
  by (auto simp: update_client_def)

lemma entry_ok_update [simp]:
  "benign g \<Longrightarrow> entry_ok (h_heap (update_client a g h)) drv = entry_ok (h_heap h) drv"
  by (rule ext) (auto simp: entry_ok_def update_client_nth benign_def)

lemma bounded_update:
  assumes "benign g" "list_all (\<lambda>c. length (c_send c) \<le> send_capacity) (h_heap h)"
  shows "list_all (\<lambda>c. length (c_send c) \<le> send_capacity) (h_heap (update_client a g h))"
  using assms by (auto simp: list_all_length update_client_nth benign_def)

lemma hub_ok_update: "benign g \<Longrightarrow> hub_ok h \<Longrightarrow> hub_ok (update_client a g h)"
  by (simp add: hub_ok_def bounded_update)

lemma hub_ok_fold:
  "(\<And>a. benign (g a)) \<Longrightarrow> hub_ok h \<Longrightarrow> hub_ok (fold (\<lambda>(_, a). update_client a (g a)) es h)"
  by (induction es arbitrary: h) (auto simp: hub_ok_update)

lemma fold_update_fields [simp]:
  "h_drivers (fold (\<lambda>(_, a). update_client a (g a)) es h) = h_drivers h"
  "h_riders (fold (\<lambda>(_, a). update_client a (g a)) es h) = h_riders h"
  "h_stats (fold (\<lambda>(_, a). update_client a (g a)) es h) = h_stats h"
  "h_broadcast (fold (\<lambda>(_, a). update_client a (g a)) es h) = h_broadcast h"
  "h_running (fold (\<lambda>(_, a). update_client a (g a)) es h) = h_running h"
  "length (h_heap (fold (\<lambda>(_, a). update_client a (g a)) es h)) = length (h_heap h)"
  by (induction es arbitrary: h) auto

lemma hub_ok_register:
  assumes ok: "hub_ok h" and a: "a < length (h_heap h)" and run: "h_running h"
  shows "hub_ok (registerClient a h)"
proof -
  let ?c = "h_heap h ! a"
  have old: "hub_ok (close_old old h)" "h_drivers (close_old old h) = h_drivers h" "h_riders (close_old old h) = h_riders h"
    "h_running (close_old old h) = h_running h" "length (h_heap (close_old old h)) = length (h_heap h)"
    "c_ID (h_heap (close_old old h) ! a) = c_ID ?c" "c_Type (h_heap (close_old old h) ! a) = c_Type ?c"
    "h_stats (close_old old h) = h_stats h" for old
    using ok by (auto simp: close_old_def hub_ok_update update_client_nth CloseClient_def split: option.split)
  have upd: "list_all (entry_ok heap drv) (AList.update (c_ID ?c) a es)"
    if "list_all (entry_ok heap drv) es" "distinct (map fst es)" "a < length heap" "c_ID (heap ! a) = c_ID ?c"
      "(c_Type (heap ! a) = ClientTypeDriver) = drv" for heap drv es
    using that by (induction es) (auto simp: entry_ok_def)
  show ?thesis
    using old [of "map_of (h_drivers h) (c_ID ?c)"] old [of "map_of (h_riders h) (c_ID ?c)"] a run
    by (auto simp: registerClient_def Let_def hub_ok_def intro!: upd distinct_update)
qed

lemma update_client_maps:
  "update_client a g (h\<lparr>h_drivers := ds\<rparr>) = (update_client a g h)\<lparr>h_drivers := ds\<rparr>"
  "update_client a g (h\<lparr>h_riders := rs\<rparr>) = (update_client a g h)\<lparr>h_riders := rs\<rparr>"
  by (simp_all add: update_client_def)

lemma hub_ok_delete:
  assumes "hub_ok h"
  shows "hub_ok (h\<lparr>h_drivers := AList.delete i (h_drivers h),
      h_stats := (h_stats h)\<lparr>hs_TotalDrivers := length (AList.delete i (h_drivers h))\<rparr>\<rparr>)"
    "hub_ok (h\<lparr>h_riders := AList.delete i (h_riders h),
      h_stats := (h_stats h)\<lparr>hs_TotalRiders := length (AList.delete i (h_riders h))\<rparr>\<rparr>)"
proof -
  have del: "list_all P (AList.delete i es)" if "list_all P es" for P :: "string \<times> nat \<Rightarrow> bool" and es
    using that by (auto simp: list_all_iff AList.delete_eq)
  have nil: "es = [] \<Longrightarrow> AList.delete i es = []" for es :: "(string \<times> nat) list" by simp
  show "hub_ok (h\<lparr>h_drivers := AList.delete i (h_drivers h),
      h_stats := (h_stats h)\<lparr>hs_TotalDrivers := length (AList.delete i (h_drivers h))\<rparr>\<rparr>)"
    "hub_ok (h\<lparr>h_riders := AList.delete i (h_riders h),
      h_stats := (h_stats h)\<lparr>hs_TotalRiders := length (AList.delete i (h_riders h))\<rparr>\<rparr>)"
    using assms by (simp_all add: hub_ok_def del nil distinct_delete)
qed

lemma hub_ok_unregister:
  assumes "hub_ok h"
  shows "hub_ok (unregisterClient a h)"
proof -
  have "hub_ok (update_client a CloseClient h)" using assms by (simp add: hub_ok_update)
  from hub_ok_delete [OF this] assms show ?thesis
    by (simp add: unregisterClient_def Let_def update_client_maps)
qed

lemma hub_ok_broadcast: "hub_ok h \<Longrightarrow> hub_ok (run_event picks now Broadcast h)"
proof (cases "h_broadcast h")
  case (Cons loc rest)
  assume "hub_ok h"
  with Cons have "hub_ok (h\<lparr>h_broadcast := rest\<rparr>)" by (simp add: hub_ok_def)
  then have "hub_ok (handleLocationBroadcast picks now loc (h\<lparr>h_broadcast := rest\<rparr>))"
    unfolding handleLocationBroadcast_def by (rule hub_ok_fold [rotated]) simp
  then show ?thesis by (simp add: Cons Let_def hub_ok_def)
qed simp

lemma hub_ok_close_all: "hub_ok h \<Longrightarrow> hub_ok (closeAllClients h)"
proof -
  assume "hub_ok h"
  then have "hub_ok (fold (\<lambda>(_, a). update_client a CloseClient) (h_riders (fold (\<lambda>(_, a). update_client a CloseClient) (h_drivers h) h))
      (fold (\<lambda>(_, a). update_client a CloseClient) (h_drivers h) h))"
    by (intro hub_ok_fold) simp_all
  then show ?thesis by (simp add: closeAllClients_def Let_def hub_ok_def)
qed

lemma hub_ok_publish:
  assumes "hub_ok h"
  shows "hub_ok (fst (snd (PublishLocation pick hs loc h w)))"
  using assms
  by (auto simp: PublishLocation_def hub_ok_def Let_def split: prod.split sum.split option.split)

lemma hub_ok_message:
  assumes "hub_ok h"
  shows "hub_ok (fst (handleMessage pick pick2 now cd hs a msg h w))"
proof -
  have upd: "hub_ok (update_client a g h')" if "hub_ok h'" "benign g" for g h'
    using that by (simp add: hub_ok_update)
  have loc: "hub_ok (fst (handleLocationUpdate pick pick2 now cd hs a msg h w))"
    using assms hub_ok_publish [OF assms, of pick2 hs _ w]
    by (auto simp: handleLocationUpdate_def Let_def upd split: option.split prod.split publish.split)
      (metis fst_conv snd_conv upd benign_simps(2))+
  show ?thesis
    using assms loc
    by (auto simp: handleMessage_def handleSubscribe_def handleUnsubscribe_def handleHeartbeat_def Let_def
        intro!: upd benign_subscribed split: option.split prod.split)
qed

lemma hub_ok_step:
  assumes "hub_step cd hs s s'" "hub_ok (fst s)"
  shows "hub_ok (fst s')"
  using assms
proof (induction rule: hub_step.induct)
  case (connected h w i t)
  then show ?case
    by (auto simp: alloc_def hub_ok_def entry_ok_def list_all_iff nth_append NewClient_def)
next
  case (registered a h pick h' w)
  then show ?case
    by (auto simp: Register_def hub_ok_register hub_ok_update split: if_splits)
next
  case (unregistered a h pick h' w)
  then show ?case
    by (auto simp: Unregister_def hub_ok_unregister hub_ok_update split: if_splits)
next
  case (closed h w a)
  then show ?case by (simp add: hub_ok_update)
next
  case (broadcast h w picks now)
  then show ?case using hub_ok_broadcast by simp
next
  case (finished h w picks now)
  then have "hub_ok (closeAllClients h)" by (simp add: hub_ok_close_all)
  then show ?case by (simp add: hub_ok_def closeAllClients_def Let_def)
next
  case (message a h w pick pick2 now msg)
  then show ?case using hub_ok_message by simp
next
  case (written a h m c w)
  have "hub_ok (update_client a (\<lambda>c. c\<lparr>c_send := tl (c_send c)\<rparr>) h)"
    using written by (intro hub_ok_update) (auto simp: benign_def)
  moreover have "update_client a (\<lambda>c. c\<lparr>c_send := tl (c_send c)\<rparr>) h = update_client a (\<lambda>_. c) h"
    using written by (auto simp: update_client_def write_next_def split: list.splits)
  ultimately show ?case by simp
qed (auto simp: StartHub_def StopHub_def hub_ok_def)

lemma hub_ok_new: "hub_ok NewHub"
  by (simp add: hub_ok_def NewHub_def)

interpretation hub: transition_invariant "hub_step cd hs" "\<lambda>s. hub_ok (fst s)" for cd hs
  by unfold_locales (rule hub_ok_step)

section \<open>Who receives a location\<close>

lemma fold_update_nth:
  assumes "distinct (map snd es)" "b < length (h_heap h)"
  shows "h_heap (fold (\<lambda>(_, a). update_client a (g a)) es h) ! b =
    (if b \<in> set (map snd es) then g b (h_heap h ! b) else h_heap h ! b)"
  using assms
proof (induction es arbitrary: h)
  case (Cons e es)
  then show ?case by (cases e) (auto simp: update_client_nth)
qed simp

lemma distinct_addresses:
  assumes "distinct (map fst es)" "list_all (entry_ok heap drv) es"
  shows "distinct (map snd es)"
  using assms by (induction es) (force simp: entry_ok_def list_all_iff)+

lemma broadcast_delivery:
  assumes ok: "hub_ok h" and b: "b < length (h_heap h)"
  shows "h_heap (handleLocationBroadcast picks now loc h) ! b =
    (if b \<in> set (map snd (h_riders h)) \<and> IsSubscribedTo (h_heap h ! b) (lp_DriverID loc)
     then snd (SendBytes (picks b) \<lparr>m_Type = TypeDriverLocation, m_Payload = location_payload loc, m_Timestamp = now\<rparr> (h_heap h ! b))
     else h_heap h ! b)"
proof -
  have "distinct (map snd (h_riders h))" using ok by (auto simp: hub_ok_def intro: distinct_addresses)
  from fold_update_nth [OF this b, of "deliver_location picks now loc"]
  show ?thesis by (auto simp: handleLocationBroadcast_def deliver_location_def)
qed

section \<open>Reconnecting\<close>

lemma map_of_update: "map_of (AList.update k v es) = (map_of es)(k \<mapsto> v)"
  by (rule update_conv')

text \<open>The connections of one kind, by ID.\<close>

definition connections :: "Hub \<Rightarrow> ClientType \<Rightarrow> string \<Rightarrow> nat option" where
  "connections h t = map_of (if t = ClientTypeDriver then h_drivers h else h_riders h)"

lemma register_replaces:
  assumes ok: "hub_ok h" and ab: "a < length (h_heap h)" "b < length (h_heap h)" "a \<noteq> b"
    and old: "connections h (c_Type (h_heap h ! b)) (c_ID (h_heap h ! b)) = Some a"
  shows "connections (registerClient b h) (c_Type (h_heap h ! b)) (c_ID (h_heap h ! b)) = Some b"
    "c_done (h_heap (registerClient b h) ! a)"
    "h_heap (registerClient b h) ! b = h_heap h ! b"
    "c_ID (h_heap (registerClient b h) ! a) = c_ID (h_heap h ! a)"
    "c_Type (h_heap (registerClient b h) ! a) = c_Type (h_heap h ! a)"
  using ab old
  by (simp_all add: registerClient_def Let_def connections_def close_old_def update_client_nth CloseClient_def
      map_of_update split: if_splits)

lemma late_unregister:
  assumes "connections h (c_Type (h_heap h ! a)) (c_ID (h_heap h ! a)) \<noteq> Some a"
  shows "unregisterClient a h = h"
  using assms by (auto simp: unregisterClient_def connections_def Let_def)

lemma connection_entry:
  assumes ok: "hub_ok h" and c: "connections h t i = Some a"
  shows "a < length (h_heap h)" "c_ID (h_heap h ! a) = i" "c_Type (h_heap h ! a) = ClientTypeDriver \<longleftrightarrow> t = ClientTypeDriver"
proof -
  obtain es where "(i, a) \<in> set es" "list_all (entry_ok (h_heap h) (t = ClientTypeDriver)) es"
  proof (cases "t = ClientTypeDriver")
    case True
    with c have "(i, a) \<in> set (h_drivers h)" by (simp add: connections_def map_of_SomeD)
    with True ok that show ?thesis by (simp add: hub_ok_def)
  next
    case False
    with c have "(i, a) \<in> set (h_riders h)" by (simp add: connections_def map_of_SomeD)
    with False ok that show ?thesis by (simp add: hub_ok_def)
  qed
  then have "entry_ok (h_heap h) (t = ClientTypeDriver) (i, a)" by (simp add: list_all_iff)
  then show "a < length (h_heap h)" "c_ID (h_heap h ! a) = i" "c_Type (h_heap h ! a) = ClientTypeDriver \<longleftrightarrow> t = ClientTypeDriver"
    by (simp_all add: entry_ok_def)
qed

text \<open>
  A client that reconnects under its ID: the old connection is closed, and
  when its reader gives up later and unregisters it, the new one stays.
\<close>

lemma reconnect:
  assumes ok: "hub_ok h" and b: "b < length (h_heap h)" "a \<noteq> b"
    and old: "connections h (c_Type (h_heap h ! b)) (c_ID (h_heap h ! b)) = Some a"
  shows "c_done (h_heap (registerClient b h) ! a) \<and> unregisterClient a (registerClient b h) = registerClient b h \<and>
    connections (registerClient b h) (c_Type (h_heap h ! b)) (c_ID (h_heap h ! b)) = Some b"
proof -
  note e = connection_entry [OF ok old]
  note r = register_replaces [OF ok e(1) b old]
  have "connections (registerClient b h) (c_Type (h_heap (registerClient b h) ! a)) (c_ID (h_heap (registerClient b h) ! a)) \<noteq> Some a"
  proof -
    have "connections (registerClient b h) (c_Type (h_heap h ! a)) = connections (registerClient b h) (c_Type (h_heap h ! b))"
      using e(3) by (auto simp: connections_def)
    then show ?thesis using r b(2) e(2) by simp
  qed
  from late_unregister [OF this] r show ?thesis by blast
qed

section \<open>Shutdown\<close>

lemma closed_everyone:
  assumes ok: "hub_ok h" and c: "connections h t i = Some a"
  shows "c_done (h_heap (closeAllClients h) ! a)"
proof -
  have dist: "distinct (map snd (h_drivers h))" "distinct (map snd (h_riders h))"
    using ok by (auto simp: hub_ok_def intro: distinct_addresses)
  note a = connection_entry(1) [OF ok c]
  have "a \<in> set (map snd (h_drivers h)) \<or> a \<in> set (map snd (h_riders h))"
    using c by (auto simp: connections_def dest!: map_of_SomeD split: if_splits) force+
  then show ?thesis
    using fold_update_nth [OF dist(1) a, of "\<lambda>_. CloseClient"]
      fold_update_nth [OF dist(2), of a "fold (\<lambda>(_, a). update_client a CloseClient) (h_drivers h) h" "\<lambda>_. CloseClient"] a
    by (auto simp: closeAllClients_def Let_def CloseClient_def)
qed

section \<open>Authority and persistence\<close>

text \<open>What the backend is asked when a client sends a location: the client's own ID, or nothing.\<close>

lemma publish_backend:
  "snd (snd (PublishLocation pick hs loc h w)) =
    (case locationHandler hs of None \<Rightarrow> w | Some f \<Rightarrow> snd (run_state (f loc) w))"
  by (auto simp: PublishLocation_def Let_def split: option.split prod.split sum.split)

lemma location_authority:
  "snd (handleLocationUpdate pick pick2 now cd hs a msg h w) =
    (case (decode_location cd (i_Payload msg), locationHandler hs) of
       (Some loc, Some f) \<Rightarrow>
         if c_Type (h_heap h ! a) = ClientTypeDriver
         then snd (run_state (f (loc\<lparr>lp_DriverID := c_ID (h_heap h ! a)\<rparr>)) w) else w
     | _ \<Rightarrow> w)"
proof (cases "c_Type (h_heap h ! a) = ClientTypeDriver")
  case True
  show ?thesis
  proof (cases "decode_location cd (i_Payload msg)")
    case (Some loc)
    obtain r h' w' where p: "PublishLocation pick2 hs (loc\<lparr>lp_DriverID := c_ID (h_heap h ! a)\<rparr>) h w = (r, h', w')"
      using prod_cases3 by blast
    with publish_backend [of pick2 hs "loc\<lparr>lp_DriverID := c_ID (h_heap h ! a)\<rparr>" h w] True Some show ?thesis
      by (cases r) (auto simp: handleLocationUpdate_def Let_def split: option.split)
  qed (simp add: handleLocationUpdate_def Let_def)
qed (simp add: handleLocationUpdate_def Let_def split: option.split)

lemma rejected_not_broadcast:
  "PublishLocation pick hs loc h w = (Rejected e, h', w') \<Longrightarrow> h' = h"
  by (auto simp: PublishLocation_def Let_def split: prod.splits sum.splits if_splits)

lemma queued_persisted:
  assumes "PublishLocation pick hs loc h w = (Queued, h', w')" "locationHandler hs = Some f"
  shows "run_state (f loc) w = (Inr (), w') \<and> h_broadcast h' = h_broadcast h @ [loc]"
  using assms by (auto simp: PublishLocation_def Let_def split: prod.splits sum.splits if_splits)

section \<open>What a message does\<close>

text \<open>The subscriptions of a client after a message of the client at \<open>a\<close>.\<close>

definition subscriptions_after :: "codec \<Rightarrow> nat \<Rightarrow> Incoming \<Rightarrow> Hub \<Rightarrow> nat \<Rightarrow> string set" where
  "subscriptions_after cd a msg h b =
     (let c = h_heap h ! b in
      if b = a \<and> c_Type c = ClientTypeRider then
        (case decode_subscribe cd (i_Payload msg) of
           None \<Rightarrow> c_subscribed c
         | Some v \<Rightarrow>
             if i_Type msg = TypeSubscribe then insert v (c_subscribed c)
             else if i_Type msg = TypeUnsubscribe then c_subscribed c - {v}
             else c_subscribed c)
      else c_subscribed c)"

lemma sent_subscribed [simp]:
  "c_subscribed (sendError pick now code text c) = c_subscribed c"
  "c_subscribed (sendAck pick now t c) = c_subscribed c"
  by (simp_all add: sendError_def sendAck_def)

lemma publish_heap: "h_heap (fst (snd (PublishLocation pick hs loc h w))) = h_heap h"
  by (auto simp: PublishLocation_def Let_def split: prod.split sum.split option.split)

lemma location_subscribed:
  "c_subscribed (h_heap (fst (handleLocationUpdate pick pick2 now cd hs a msg h w)) ! b) = c_subscribed (h_heap h ! b)"
proof (cases "c_Type (h_heap h ! a) = ClientTypeDriver")
  case True
  show ?thesis
  proof (cases "decode_location cd (i_Payload msg)")
    case (Some loc)
    obtain r h' w' where p: "PublishLocation pick2 hs (loc\<lparr>lp_DriverID := c_ID (h_heap h ! a)\<rparr>) h w = (r, h', w')"
      using prod_cases3 by blast
    with publish_heap [of pick2 hs "loc\<lparr>lp_DriverID := c_ID (h_heap h ! a)\<rparr>" h w] True Some show ?thesis
      by (cases r) (auto simp: handleLocationUpdate_def Let_def update_client_nth)
  qed (simp add: handleLocationUpdate_def Let_def update_client_nth True)
qed (simp add: handleLocationUpdate_def Let_def update_client_nth)

lemma message_subscriptions:
  assumes "a < length (h_heap h)"
  shows "c_subscribed (h_heap (fst (handleMessage pick pick2 now cd hs a msg h w)) ! b) = subscriptions_after cd a msg h b"
  using assms
  by (auto simp: handleMessage_def location_subscribed handleSubscribe_def handleUnsubscribe_def handleHeartbeat_def
      subscriptions_after_def Let_def update_client_nth split: option.split prod.split)

lemma message_backend:
  "snd (handleMessage pick pick2 now cd hs a msg h w) = w \<or>
   c_Type (h_heap h ! a) = ClientTypeDriver \<and>
   ((\<exists>loc f. locationHandler hs = Some f \<and> lp_DriverID loc = c_ID (h_heap h ! a) \<and>
       snd (handleMessage pick pick2 now cd hs a msg h w) = snd (run_state (f loc) w)) \<or>
    (\<exists>f. heartbeatHandler hs = Some f \<and>
       snd (handleMessage pick pick2 now cd hs a msg h w) = snd (run_state (f (c_ID (h_heap h ! a))) w)))"
proof -
  have loc: "snd (handleLocationUpdate pick pick2 now cd hs a msg h w) = w \<or>
      c_Type (h_heap h ! a) = ClientTypeDriver \<and> (\<exists>loc f. locationHandler hs = Some f \<and>
        lp_DriverID loc = c_ID (h_heap h ! a) \<and>
        snd (handleLocationUpdate pick pick2 now cd hs a msg h w) = snd (run_state (f loc) w))"
    unfolding location_authority by (auto split: option.split) (metis LocationPayload.select_convs(1) LocationPayload.surjective LocationPayload.update_convs(1))
  show ?thesis
    using loc by (auto simp: handleMessage_def handleHeartbeat_def HeartbeatDriver_def Let_def split: option.split sum.split prod.split)
qed

lemma message_broadcast:
  "h_broadcast (fst (handleMessage pick pick2 now cd hs a msg h w)) = h_broadcast h \<or>
   (\<exists>loc. h_broadcast (fst (handleMessage pick pick2 now cd hs a msg h w)) = h_broadcast h @ [loc] \<and>
      c_Type (h_heap h ! a) = ClientTypeDriver \<and> lp_DriverID loc = c_ID (h_heap h ! a) \<and>
      (\<forall>f. locationHandler hs = Some f \<longrightarrow> fst (run_state (f loc) w) = Inr ()))"
proof -
  have loc: "h_broadcast (fst (handleLocationUpdate pick pick2 now cd hs a msg h w)) = h_broadcast h \<or>
   (\<exists>loc. h_broadcast (fst (handleLocationUpdate pick pick2 now cd hs a msg h w)) = h_broadcast h @ [loc] \<and>
      c_Type (h_heap h ! a) = ClientTypeDriver \<and> lp_DriverID loc = c_ID (h_heap h ! a) \<and>
      (\<forall>f. locationHandler hs = Some f \<longrightarrow> fst (run_state (f loc) w) = Inr ()))"
    by (auto simp: handleLocationUpdate_def PublishLocation_def Let_def split: option.split prod.split sum.split publish.split)
  show ?thesis
    using loc by (auto simp: handleMessage_def handleSubscribe_def handleUnsubscribe_def handleHeartbeat_def Let_def
        split: option.split prod.split)
qed

section \<open>The pumps within the hub\<close>

lemma message_length: "length (h_heap (fst (handleMessage pick pick2 now cd hs a msg h w))) = length (h_heap h)"
proof -
  have "length (h_heap (fst (handleLocationUpdate pick pick2 now cd hs a msg h w))) = length (h_heap h)"
    by (auto simp: handleLocationUpdate_def PublishLocation_def Let_def
        split: option.split prod.split sum.split publish.split)
  then show ?thesis
    by (simp add: handleMessage_def handleSubscribe_def handleUnsubscribe_def handleHeartbeat_def Let_def
        split: option.split prod.split)
qed

text \<open>A reader takes the hub along its steps only.\<close>

lemma ReadPump_steps:
  "a < length (h_heap h) \<Longrightarrow> ReadPump cd hs a evs h w = (Some h', w') \<Longrightarrow> (hub_step cd hs)\<^sup>*\<^sup>* (h, w) (h', w')"
proof (induction cd hs a evs h w rule: ReadPump.induct)
  case (2 cd hs a pick evs h w)
  then obtain h1 where h1: "Unregister pick a h = Some h1" "h' = update_client a CloseClient h1" "w' = w" by auto
  have "hub_step cd hs (h, w) (h1, w)" by (rule hub_step.unregistered [OF 2(1) h1(1)])
  moreover have "hub_step cd hs (h1, w) (h', w')" unfolding h1(2,3) by (rule hub_step.closed)
  ultimately show ?case by (meson converse_rtranclp_into_rtranclp rtranclp.rtrancl_refl)
next
  case (3 cd hs a raw pick pick2 now evs h w)
  show ?case
  proof (cases "decode_message cd raw")
    case None
    with 3 show ?thesis by simp
  next
    case (Some msg)
    obtain h1 w1 where m: "handleMessage pick pick2 now cd hs a msg h w = (h1, w1)" by fastforce
    have "hub_step cd hs (h, w) (h1, w1)" using hub_step.message [OF 3(3), of cd hs w pick pick2 now msg] m by simp
    moreover have len: "a < length (h_heap h1)" using 3(3) message_length [of pick pick2 now cd hs a msg h w] m by simp
    have "(hub_step cd hs)\<^sup>*\<^sup>* (h1, w1) (h', w')"
      by (rule 3(2) [OF Some m [symmetric] len]) (use 3(4) Some m in simp)
    ultimately show ?thesis by (rule converse_rtranclp_into_rtranclp)
  qed
qed simp

fun texts :: "frame list \<Rightarrow> Message list" where
  "texts [] = []"
| "texts (TextFrame m # fs) = m # texts fs"
| "texts (_ # fs) = texts fs"

text \<open>A writer sends what is queued in order; only a failed write loses its one message.\<close>

lemma WritePump_order:
  "WritePump evs c = Some (fs, c') \<Longrightarrow> \<exists>lost. length lost \<le> 1 \<and> texts fs @ lost @ c_send c' = c_send c"
proof (induction evs c arbitrary: fs rule: WritePump.induct)
  case (3 sent evs c)
  then obtain m c1 where n: "write_next c = Some (m, c1)" by (auto split: option.splits)
  then have s: "c_send c = m # c_send c1" by (auto simp: write_next_def split: list.splits)
  show ?case
  proof (cases sent)
    case True
    with 3(2) n obtain fs1 where f: "WritePump evs c1 = Some (fs1, c')" "fs = TextFrame m # fs1" by auto
    from 3(1) [OF n refl True f(1)] s f(2) show ?thesis by auto
  next
    case False
    with 3(2) n s show ?thesis by (intro exI [of _ "[m]"]) auto
  qed
qed (auto split: if_splits)

section \<open>The properties of the hub\<close>

text \<open>For the witnesses: one rider, at address 0, who follows driver \<open>v1\<close>, at address 1.\<close>

definition sample_codec :: codec where
  "sample_codec = \<lparr>decode_message = (\<lambda>_. None), decode_location = (\<lambda>_. None), decode_subscribe = (\<lambda>s. Some s)\<rparr>"

definition no_handlers :: "nat handlers" where
  "no_handlers = \<lparr>locationHandler = None, heartbeatHandler = None\<rparr>"

definition two_clients :: Hub where
  "two_clients = registerClient 1 (snd (alloc (NewClient ''v1'' ClientTypeDriver)
     (registerClient 0 (snd (alloc ((NewClient ''p1'' ClientTypeRider)\<lparr>c_subscribed := {''v1''}\<rparr>) (StartHub NewHub))))))"

lemma two_clients_ok: "hub_ok two_clients"
  by code_simp

text \<open>
  C26: the hub is consistent in every reachable state, whatever clients
  connect, send, vanish, and whenever the hub stops: an ID has one
  connection, of the right kind, the counters count the connections, no
  queue exceeds its buffer, and after the loop has ended nobody is registered.
\<close>

theorem hub_consistent:
  assumes "(hub_step cd hs)\<^sup>*\<^sup>* (NewHub, w) s"
  shows "hub_ok (fst s)"
  by (rule hub.run_keeps [OF assms]) (simp add: hub_ok_new)

theorem hub_consistent_witness:
  "hub_ok (snd (alloc (NewClient ''p1'' ClientTypeRider) NewHub))"
  using hub_consistent [OF r_into_rtranclp [of "hub_step sample_codec no_handlers", OF hub_step.connected
    [where h = NewHub and w = 0 and i = "''p1''" and t = ClientTypeRider]]] by simp

text \<open>
  C27: who receives a position. In a consistent hub a broadcast is queued for
  exactly the registered riders who follow the driver, once each; every
  other client is as before. A rider whose queue is full or who is closed
  loses the message and holds up nobody.
\<close>

theorem broadcast_reaches_followers:
  assumes "hub_ok h" "b < length (h_heap h)"
  shows "h_heap (handleLocationBroadcast picks now loc h) ! b =
    (if b \<in> set (map snd (h_riders h)) \<and> IsSubscribedTo (h_heap h ! b) (lp_DriverID loc)
     then snd (SendBytes (picks b) \<lparr>m_Type = TypeDriverLocation, m_Payload = location_payload loc, m_Timestamp = now\<rparr> (h_heap h ! b))
     else h_heap h ! b)"
  by (rule broadcast_delivery [OF assms])

definition sample_location :: LocationPayload where
  "sample_location = \<lparr>lp_DriverID = ''v1'', lp_Longitude = Fin 1, lp_Latitude = Fin 2, lp_Heading = Fin 0, lp_Speed = Fin 0, lp_Accuracy = Fin 0\<rparr>"

theorem broadcast_reaches_followers_witness:
  "length (c_send (h_heap (handleLocationBroadcast (\<lambda>_. False) 0 sample_location two_clients) ! 0)) = 1 \<and>
   h_heap (handleLocationBroadcast (\<lambda>_. False) 0 sample_location two_clients) ! 1 = h_heap two_clients ! 1"
proof -
  have l: "0 < length (h_heap two_clients)" "1 < length (h_heap two_clients)" by code_simp+
  have "set (map snd (h_riders two_clients)) = {0}" "IsSubscribedTo (h_heap two_clients ! 0) (lp_DriverID sample_location)"
    "c_send (h_heap two_clients ! 0) = []" "\<not> c_done (h_heap two_clients ! 0)" by code_simp+
  then show ?thesis
    unfolding broadcast_reaches_followers [OF two_clients_ok l(1)] broadcast_reaches_followers [OF two_clients_ok l(2)]
    by (simp add: SendBytes_def send_capacity_def)
qed

text \<open>
  C28: reconnecting. A client that registers under an ID in use closes the
  old connection and takes its place, and when the old connection's reader
  later unregisters it, the new one stays.
\<close>

theorem reconnect_replaces:
  assumes "hub_ok h" "b < length (h_heap h)" "a \<noteq> b"
    and "connections h (c_Type (h_heap h ! b)) (c_ID (h_heap h ! b)) = Some a"
  shows "c_done (h_heap (registerClient b h) ! a) \<and> unregisterClient a (registerClient b h) = registerClient b h \<and>
    connections (registerClient b h) (c_Type (h_heap h ! b)) (c_ID (h_heap h ! b)) = Some b"
  by (rule reconnect [OF assms])

theorem reconnect_replaces_witness:
  "let h = snd (alloc (NewClient ''p1'' ClientTypeRider) two_clients) in
   connections (unregisterClient 0 (registerClient 2 h)) ClientTypeRider ''p1'' = Some 2"
proof -
  let ?h = "snd (alloc (NewClient ''p1'' ClientTypeRider) two_clients)"
  have "hub_ok ?h" "2 < length (h_heap ?h)" "c_Type (h_heap ?h ! 2) = ClientTypeRider" "c_ID (h_heap ?h ! 2) = ''p1''"
    "connections ?h (c_Type (h_heap ?h ! 2)) (c_ID (h_heap ?h ! 2)) = Some 0" by code_simp+
  with reconnect_replaces [of ?h 2 0] show ?thesis by simp
qed

text \<open>
  C29: the authority of a connection. Whatever message a client sends, the
  backend is left as it was, or the client is a driver and the backend saw
  one call: a position or a heartbeat under that driver's own ID.
\<close>

theorem message_authority:
  "snd (handleMessage pick pick2 now cd hs a msg h w) = w \<or>
   c_Type (h_heap h ! a) = ClientTypeDriver \<and>
   ((\<exists>loc f. locationHandler hs = Some f \<and> lp_DriverID loc = c_ID (h_heap h ! a) \<and>
       snd (handleMessage pick pick2 now cd hs a msg h w) = snd (run_state (f loc) w)) \<or>
    (\<exists>f. heartbeatHandler hs = Some f \<and>
       snd (handleMessage pick pick2 now cd hs a msg h w) = snd (run_state (f (c_ID (h_heap h ! a))) w)))"
  by (rule message_backend)

text \<open>
  C30: persisted before broadcast. A message queues at most one position for
  broadcast, and then the sender is a driver, the position carries his ID,
  and the backend has accepted it.
\<close>

theorem persisted_before_broadcast:
  "h_broadcast (fst (handleMessage pick pick2 now cd hs a msg h w)) = h_broadcast h \<or>
   (\<exists>loc. h_broadcast (fst (handleMessage pick pick2 now cd hs a msg h w)) = h_broadcast h @ [loc] \<and>
      c_Type (h_heap h ! a) = ClientTypeDriver \<and> lp_DriverID loc = c_ID (h_heap h ! a) \<and>
      (\<forall>f. locationHandler hs = Some f \<longrightarrow> fst (run_state (f loc) w) = Inr ()))"
  by (rule message_broadcast)

definition position_codec :: codec where
  "position_codec = sample_codec\<lparr>decode_location := (\<lambda>_. Some sample_location)\<rparr>"

definition accepting :: "nat handlers" where
  "accepting = \<lparr>locationHandler = Some (\<lambda>loc. State (\<lambda>n. (if lp_DriverID loc = ''v1'' then Inr () else Inl (Drv ErrDriverNotFound), Suc n))),
     heartbeatHandler = None\<rparr>"

theorem persisted_before_broadcast_witness:
  "\<exists>loc f. h_broadcast (fst (handleMessage False True 0 position_codec accepting 1
       \<lparr>i_Type = TypeLocationUpdate, i_Payload = []\<rparr> two_clients 0)) = [loc] \<and>
     locationHandler accepting = Some f \<and> fst (run_state (f loc) 0) = Inr ()"
proof -
  let ?h = "fst (handleMessage False True 0 position_codec accepting 1 \<lparr>i_Type = TypeLocationUpdate, i_Payload = []\<rparr> two_clients 0)"
  have "h_broadcast ?h \<noteq> h_broadcast two_clients" "h_broadcast two_clients = []" by code_simp+
  moreover obtain f where "locationHandler accepting = Some f" by (simp add: accepting_def)
  ultimately show ?thesis
    using persisted_before_broadcast [of False True 0 position_codec accepting 1
      "\<lparr>i_Type = TypeLocationUpdate, i_Payload = []\<rparr>" two_clients 0] by auto
qed

text \<open>
  C31: subscriptions. A message changes the subscriptions of its sender only,
  only if he is a rider, and exactly as asked: a decoded subscribe adds the
  driver, a decoded unsubscribe removes him, nothing else changes them.
\<close>

theorem subscriptions_change:
  assumes "a < length (h_heap h)"
  shows "c_subscribed (h_heap (fst (handleMessage pick pick2 now cd hs a msg h w)) ! b) = subscriptions_after cd a msg h b"
  by (rule message_subscriptions [OF assms])

theorem subscriptions_change_witness:
  "c_subscribed (h_heap (fst (handleMessage False False 0 sample_codec no_handlers 0
     \<lparr>i_Type = TypeUnsubscribe, i_Payload = ''v1''\<rparr> two_clients 0)) ! 0) = {}"
proof -
  have l: "0 < length (h_heap two_clients)" by code_simp
  have "subscriptions_after sample_codec 0 \<lparr>i_Type = TypeUnsubscribe, i_Payload = ''v1''\<rparr> two_clients 0 = {}" by code_simp
  then show ?thesis by (simp only: subscriptions_change [OF l])
qed

text \<open>
  C32: the end of the hub. When the loop sees its context cancelled, every
  client registered then is closed, nobody is registered any more, and the
  counters are zero.
\<close>

theorem hub_shutdown:
  assumes "hub_ok h"
  shows "(\<forall>t i a. connections h t i = Some a \<longrightarrow> c_done (h_heap (run_event picks now Done h) ! a)) \<and>
    GetDriverCount (run_event picks now Done h) = 0 \<and> GetRiderCount (run_event picks now Done h) = 0 \<and>
    hs_TotalDrivers (GetHubStats (run_event picks now Done h)) = 0 \<and> hs_TotalRiders (GetHubStats (run_event picks now Done h)) = 0"
proof -
  have "h_heap (run_event picks now Done h) = h_heap (closeAllClients h)" by simp
  with closed_everyone [OF assms] show ?thesis
    by (auto simp: closeAllClients_def Let_def GetDriverCount_def GetRiderCount_def GetHubStats_def)
qed

theorem hub_shutdown_witness:
  "c_done (h_heap (run_event (\<lambda>_. False) 0 Done two_clients) ! 0)"
proof -
  have "connections two_clients ClientTypeRider ''p1'' = Some 0" by code_simp
  with hub_shutdown [OF two_clients_ok] show ?thesis by blast
qed

end
