(* ===== verification/Handlers.thy ===== *)
theory Handlers
  imports Ratelimiter Realtime
begin

text \<open>
  \<^verbatim>\<open>internal/server\<close>: the HTTP handlers. A handler sees the method, the query
  parameters (a missing one is the empty string, as \<^verbatim>\<open>Query().Get\<close> answers),
  and its body as the JSON decoder left it: \<open>None\<close> when decoding failed. It
  answers a status and either an error text or the value it encodes. The
  log lines and the response headers are not modelled.
\<close>

type_synonym 'b reply = "nat \<times> (string + 'b)"

abbreviation StatusOK :: nat where "StatusOK \<equiv> 200"
abbreviation StatusCreated :: nat where "StatusCreated \<equiv> 201"
abbreviation StatusBadRequest :: nat where "StatusBadRequest \<equiv> 400"
abbreviation StatusNotFound :: nat where "StatusNotFound \<equiv> 404"
abbreviation StatusMethodNotAllowed :: nat where "StatusMethodNotAllowed \<equiv> 405"
abbreviation StatusConflict :: nat where "StatusConflict \<equiv> 409"
abbreviation StatusInternalServerError :: nat where "StatusInternalServerError \<equiv> 500"

abbreviation MethodGet :: string where "MethodGet \<equiv> ''GET''"
abbreviation MethodPost :: string where "MethodPost \<equiv> ''POST''"

text \<open>\<^verbatim>\<open>http.Error(w, text, status)\<close> and a JSON answer.\<close>

definition http_error :: "nat \<Rightarrow> string \<Rightarrow> ('s, 'b reply) state" where
  "http_error status text = State_Monad.return (status, Inl text)"

definition http_json :: "nat \<Rightarrow> 'b \<Rightarrow> ('s, 'b reply) state" where
  "http_json status x = State_Monad.return (status, Inr x)"

definition method_not_allowed :: "('s, 'b reply) state" where
  "method_not_allowed = http_error StatusMethodNotAllowed ''Method not allowed''"

section \<open>Dispatch\<close>

record DispatchRequestDTO =
  dto_RequestID :: string
  dto_RiderID :: string
  dto_Longitude :: float64
  dto_Latitude :: float64
  dto_PickupLongitude :: "float64 option"
  dto_PickupLatitude :: "float64 option"
  dto_RadiusKm :: float64

text \<open>The request a valid body becomes, and the status of a result.\<close>

definition dispatch_request :: "DispatchRequestDTO \<Rightarrow> DispatchRequest" where
  "dispatch_request dto =
     \<lparr>req_RequestID = TrimSpace (dto_RequestID dto), req_RiderID = TrimSpace (dto_RiderID dto),
      req_Longitude = dto_Longitude dto, req_Latitude = dto_Latitude dto,
      req_PickupLongitude = dto_PickupLongitude dto, req_PickupLatitude = dto_PickupLatitude dto,
      req_RadiusKm = dto_RadiusKm dto\<rparr>"

definition dispatch_status :: "DispatchResult \<Rightarrow> nat" where
  "dispatch_status result =
     (if res_Success result then StatusOK
      else if res_Cause result = Some (Lif ErrActiveAssignment) \<or> res_Cause result = Some (Lif ErrRequestAlreadyExists)
      then StatusConflict
      else if res_Error result = Error (Lck ErrNoDriversAvailable) then StatusNotFound
      else StatusInternalServerError)"

definition HandleDispatchRequest :: "'db ext \<Rightarrow> Dispatcher \<Rightarrow> string \<Rightarrow> string \<Rightarrow> DispatchRequestDTO option
    \<Rightarrow> ('db world, DispatchResult reply) state" where
  "HandleDispatchRequest X d uuid method body =
     (if method \<noteq> MethodPost then method_not_allowed
      else case body of
          None \<Rightarrow> http_error StatusBadRequest ''Invalid request''
        | Some req \<Rightarrow>
            (case ValidateCoordinates (dto_Longitude req) (dto_Latitude req) of
               Inl e \<Rightarrow> http_error StatusBadRequest (Error e)
             | Inr _ \<Rightarrow>
                 if (dto_PickupLongitude req = None) \<noteq> (dto_PickupLatitude req = None)
                 then http_error StatusBadRequest ''pickup_longitude and pickup_latitude must be provided together''
                 else
                 (case (case (dto_PickupLongitude req, dto_PickupLatitude req) of
                     (Some lon, Some lat) \<Rightarrow> ValidateCoordinates lon lat | _ \<Rightarrow> Inr ()) of
                    Inl e \<Rightarrow> http_error StatusBadRequest (Error e)
                  | Inr _ \<Rightarrow>
                      if dto_RadiusKm req < Fin 0
                      then http_error StatusBadRequest (Error (Geo ErrInvalidRadius))
                      else do {
                        result \<leftarrow> FindAndAssign X d uuid (dispatch_request req);
                        http_json (dispatch_status result) result })))"

definition lifecycle_status :: "err \<Rightarrow> nat" where
  "lifecycle_status e =
     (if e = Lif ErrAssignmentNotFound then StatusNotFound
      else if e = Lif ErrAssignmentStateConflict \<or> e = Lif ErrDriverOwnershipConflict \<or>
        e = Lif ErrDriverTooFar \<or> e = Geo ErrLocationNotFound then StatusConflict
      else StatusInternalServerError)"

text \<open>The body of the two lifecycle handlers is the decoded request ID.\<close>

definition handleDispatchLifecycle :: "string \<Rightarrow> string option \<Rightarrow> (string \<Rightarrow> ('s, err + Assignment) state)
    \<Rightarrow> ('s, Assignment reply) state" where
  "handleDispatchLifecycle method body transition =
     (if method \<noteq> MethodPost then method_not_allowed
      else case body of
          None \<Rightarrow> http_error StatusBadRequest ''Invalid request''
        | Some requestID \<Rightarrow>
            (let requestID = TrimSpace requestID in
             if requestID = [] then http_error StatusBadRequest ''request_id is required''
             else do {
               res \<leftarrow> transition requestID;
               (case res of
                  Inl e \<Rightarrow> http_error (lifecycle_status e) (Error e)
                | Inr assignment \<Rightarrow> http_json StatusOK assignment) }))"

definition HandleDispatchCancel :: "'db ext \<Rightarrow> Dispatcher \<Rightarrow> string \<Rightarrow> string option \<Rightarrow> ('db world, Assignment reply) state" where
  "HandleDispatchCancel X d method body = handleDispatchLifecycle method body (CancelAssignment X d)"

definition HandleDispatchArrive :: "'db ext \<Rightarrow> Dispatcher \<Rightarrow> string \<Rightarrow> string option \<Rightarrow> ('db world, Assignment reply) state" where
  "HandleDispatchArrive X d method body = handleDispatchLifecycle method body (ArriveAssignment X d)"

definition HandleDispatchStats :: "'db ext \<Rightarrow> Dispatcher \<Rightarrow> string \<Rightarrow> 'db world \<Rightarrow> ((nat \<times> nat) reply \<times> 'db world) option" where
  "HandleDispatchStats X d method w =
     (if method \<noteq> MethodGet then Some (run_state method_not_allowed w)
      else map_option (\<lambda>(res, w'). (case res of
          Inl e \<Rightarrow> run_state (http_error StatusInternalServerError (Error e)) w'
        | Inr stats \<Rightarrow> run_state (http_json StatusOK stats) w')) (GetStats X d w))"

section \<open>Drivers\<close>

definition handleGetDriverStatus :: "'db ext \<Rightarrow> DriverService \<Rightarrow> (string \<Rightarrow> string) \<Rightarrow> ('db world, (string \<times> DriverStatus) reply) state" where
  "handleGetDriverStatus X ds query =
     (let driverID = query ''driver_id'' in
      if driverID = [] then http_error StatusBadRequest ''Missing driver_id''
      else do {
        res \<leftarrow> GetStatus X ds driverID;
        (case res of
           Inl e \<Rightarrow> http_error StatusInternalServerError (Error e)
         | Inr status \<Rightarrow> http_json StatusOK (driverID, status)) })"

record DriverStatusDTO =
  st_DriverID :: string
  st_Status :: string

definition handleSetDriverStatus :: "'db ext \<Rightarrow> DriverService \<Rightarrow> DriverStatusDTO option \<Rightarrow> ('db world, string reply) state" where
  "handleSetDriverStatus X ds body =
     (case body of
        None \<Rightarrow> http_error StatusBadRequest ''Invalid request''
      | Some req \<Rightarrow> do {
          res \<leftarrow> SetStatus X ds (st_DriverID req) (st_Status req);
          (case res of
             Inl e \<Rightarrow> if e = Drv ErrInvalidStatus \<or> e = Drv ErrDriverNotFound
                      then http_error StatusBadRequest (Error e)
                      else http_error StatusInternalServerError (Error e)
           | Inr _ \<Rightarrow> http_json StatusOK ''updated'') })"

text \<open>The route of the driver status; the two methods encode different answers.\<close>

definition HandleDriverStatus :: "'db ext \<Rightarrow> DriverService \<Rightarrow> string \<Rightarrow> (string \<Rightarrow> string) \<Rightarrow> DriverStatusDTO option
    \<Rightarrow> ('db world, (string \<times> DriverStatus) reply + string reply) state" where
  "HandleDriverStatus X ds method query body =
     (if method = MethodGet then do { r \<leftarrow> handleGetDriverStatus X ds query; State_Monad.return (Inl r) }
      else if method = MethodPost then do { r \<leftarrow> handleSetDriverStatus X ds body; State_Monad.return (Inr r) }
      else do { r \<leftarrow> method_not_allowed; State_Monad.return (Inr r) })"

record DriverLocationDTO =
  dl_DriverID :: string
  dl_Longitude :: float64
  dl_Latitude :: float64

definition HandleDriverLocation :: "'db ext \<Rightarrow> Dispatcher \<Rightarrow> string \<Rightarrow> DriverLocationDTO option \<Rightarrow> ('db world, string reply) state" where
  "HandleDriverLocation X d method body =
     (if method \<noteq> MethodPost then method_not_allowed
      else case body of
          None \<Rightarrow> http_error StatusBadRequest ''Invalid request''
        | Some req \<Rightarrow> do {
            res \<leftarrow> UpdateDriverLocation X d (dl_DriverID req) (dl_Longitude req) (dl_Latitude req);
            (case res of
               Inl e \<Rightarrow> if e = Geo ErrInvalidCoordinates \<or> e = Geo ErrInvalidLocationID \<or> e = Drv ErrDriverNotFound
                        then http_error StatusBadRequest (Error e)
                        else http_error StatusInternalServerError (Error e)
             | Inr _ \<Rightarrow> http_json StatusOK ''updated'') })"

section \<open>Locations\<close>

definition HandleAddLocation :: "'db ext \<Rightarrow> GeoService \<Rightarrow> string \<Rightarrow> Location option \<Rightarrow> ('db world, string reply) state" where
  "HandleAddLocation X gs method body =
     (if method \<noteq> MethodPost then method_not_allowed
      else case body of
          None \<Rightarrow> http_error StatusBadRequest ''Invalid request''
        | Some loc \<Rightarrow> do {
            res \<leftarrow> AddLocation X gs loc;
            (case res of
               Inl e \<Rightarrow> if e = Geo ErrInvalidCoordinates \<or> e = Geo ErrInvalidLocationID
                        then http_error StatusBadRequest (Error e)
                        else http_error StatusInternalServerError (Error e)
             | Inr _ \<Rightarrow> http_json StatusCreated ''created'') })"

definition HandleGetLocation :: "'db ext \<Rightarrow> GeoService \<Rightarrow> string \<Rightarrow> (string \<Rightarrow> string) \<Rightarrow> ('db world, Location reply) state" where
  "HandleGetLocation X gs method query =
     (if method \<noteq> MethodGet then method_not_allowed
      else if query ''id'' = [] then http_error StatusBadRequest ''Missing id parameter''
      else do {
        res \<leftarrow> GetLocation X gs (query ''id'');
        (case res of
           Inl e \<Rightarrow> if e = Geo ErrInvalidLocationID then http_error StatusBadRequest (Error e)
                    else if e = Geo ErrLocationNotFound then http_error StatusNotFound (Error e)
                    else http_error StatusInternalServerError (Error e)
         | Inr loc \<Rightarrow> http_json StatusOK loc) })"

record FindNearbyRequest =
  fn_Longitude :: float64
  fn_Latitude :: float64
  fn_RadiusKm :: float64

definition HandleFindNearby :: "'db ext \<Rightarrow> GeoService \<Rightarrow> string \<Rightarrow> FindNearbyRequest option
    \<Rightarrow> ('db world, (nat \<times> Location list) reply) state" where
  "HandleFindNearby X gs method body =
     (if method \<noteq> MethodPost then method_not_allowed
      else case body of
          None \<Rightarrow> http_error StatusBadRequest ''Invalid request''
        | Some req \<Rightarrow> do {
            res \<leftarrow> FindNearby X gs (fn_Longitude req) (fn_Latitude req) (fn_RadiusKm req);
            (case res of
               Inl e \<Rightarrow> if e = Geo ErrInvalidCoordinates \<or> e = Geo ErrInvalidRadius
                        then http_error StatusBadRequest (Error e)
                        else http_error StatusInternalServerError (Error e)
             | Inr locations \<Rightarrow> http_json StatusOK (length locations, locations)) })"

section \<open>Budgets\<close>

definition budget_error :: "err \<Rightarrow> ('s, 'b reply) state" where
  "budget_error e =
     (if e = Rate ErrInvalidAmount \<or> e = Rate ErrInvalidKey then http_error StatusBadRequest (Error e)
      else http_error StatusInternalServerError (Error e))"

record RateLimitRequest =
  rl_Key :: string
  rl_Cost :: int

record RateLimitResponse =
  rl_Allowed :: bool
  rl_Remaining :: int

definition HandleRateLimitCheck :: "'db ext \<Rightarrow> lua \<Rightarrow> string \<Rightarrow> RateLimitRequest option
    \<Rightarrow> ('db world, RateLimitResponse reply) state" where
  "HandleRateLimitCheck X L method body =
     (if method \<noteq> MethodPost then method_not_allowed
      else case body of
          None \<Rightarrow> http_error StatusBadRequest ''Invalid request''
        | Some req \<Rightarrow> do {
            res \<leftarrow> AllowAtomic X L (rl_Key req) (rl_Cost req);
            (case res of
               Inl e \<Rightarrow> budget_error e
             | Inr (allowed, remaining) \<Rightarrow> http_json StatusOK \<lparr>rl_Allowed = allowed, rl_Remaining = remaining\<rparr>) })"

definition HandleSetBudget :: "'db ext \<Rightarrow> string \<Rightarrow> (string \<Rightarrow> string) \<Rightarrow> ('db world, string reply) state" where
  "HandleSetBudget X method query =
     (if method \<noteq> MethodPost then method_not_allowed
      else case ParseInt (query ''amount'') of
          None \<Rightarrow> http_error StatusBadRequest ''Invalid amount''
        | Some amount \<Rightarrow> do {
            res \<leftarrow> SetBudget X (query ''key'') amount;
            (case res of Inl e \<Rightarrow> budget_error e | Inr _ \<Rightarrow> http_json StatusOK ''success'') })"

definition HandleGetBudget :: "'db ext \<Rightarrow> string \<Rightarrow> (string \<Rightarrow> string) \<Rightarrow> ('db world, int reply) state" where
  "HandleGetBudget X method query =
     (if method \<noteq> MethodGet then method_not_allowed
      else if query ''key'' = [] then http_error StatusBadRequest ''Missing key parameter''
      else do {
        res \<leftarrow> GetBudget X (query ''key'');
        (case res of
           Inl e \<Rightarrow> if e = Rate ErrInvalidKey then http_error StatusBadRequest (Error e)
                    else http_error StatusInternalServerError (Error e)
         | Inr budget \<Rightarrow> http_json StatusOK budget) })"

section \<open>WebSockets\<close>

text \<open>
  The origin check of an upgrade. The host of a parsed URL is an argument:
  \<open>None\<close> for a string that \<^verbatim>\<open>url.Parse\<close> refuses. \<open>EqualFold\<close> compares
  letters up to case, over the characters up to 255.
\<close>

definition fold_char :: "char \<Rightarrow> char" where
  "fold_char c =
     (let n = of_char c :: nat in
      if (65 \<le> n \<and> n \<le> 90) \<or> (192 \<le> n \<and> n \<le> 222 \<and> n \<noteq> 215) then char_of (n + 32) else c)"

definition EqualFold :: "string \<Rightarrow> string \<Rightarrow> bool" where
  "EqualFold s t \<longleftrightarrow> map fold_char s = map fold_char t"

definition checkWebSocketOrigin :: "(string \<Rightarrow> string option) \<Rightarrow> string \<Rightarrow> string \<Rightarrow> bool" where
  "checkWebSocketOrigin parse_host origin host =
     (if origin = [] then True
      else case parse_host origin of
          None \<Rightarrow> False
        | Some originHost \<Rightarrow> if originHost = [] then False else EqualFold originHost host)"

text \<open>
  How a WebSocket request ends: refused, the upgrade failed, still waiting in
  \<open>Register\<close>, or connected as the client at an address with its pumps
  started. Whether the upgrade succeeds is an argument.
\<close>

datatype connection = Refused string | NotUpgraded | Registering | Connected nat Hub

definition connect_client :: "ClientType \<Rightarrow> bool \<Rightarrow> bool \<Rightarrow> string \<Rightarrow> Hub \<Rightarrow> connection" where
  "connect_client clientType upgraded pick ident h =
     (if \<not> upgraded then NotUpgraded
      else case alloc (NewClient ident clientType) h of
          (a, h1) \<Rightarrow> (case Register pick a h1 of None \<Rightarrow> Registering | Some h2 \<Rightarrow> Connected a h2))"

definition HandleDriverWebSocket :: "bool \<Rightarrow> bool \<Rightarrow> (string \<Rightarrow> string) \<Rightarrow> Hub \<Rightarrow> connection" where
  "HandleDriverWebSocket upgraded pick query h =
     (if query ''driver_id'' = [] then Refused ''Missing driver_id''
      else connect_client ClientTypeDriver upgraded pick (query ''driver_id'') h)"

definition HandleRiderWebSocket :: "bool \<Rightarrow> bool \<Rightarrow> (string \<Rightarrow> string) \<Rightarrow> Hub \<Rightarrow> connection" where
  "HandleRiderWebSocket upgraded pick query h =
     (if query ''rider_id'' = [] then Refused ''Missing rider_id''
      else connect_client ClientTypeRider upgraded pick (query ''rider_id'') h)"

definition HandleWebSocketStats :: "string \<Rightarrow> Hub option \<Rightarrow> HubStats reply" where
  "HandleWebSocketStats method hub =
     (if method \<noteq> MethodGet then (StatusMethodNotAllowed, Inl ''Method not allowed'')
      else case hub of
          None \<Rightarrow> (503, Inl ''WebSocket hub not initialized'')
        | Some h \<Rightarrow> (StatusOK, Inr (GetHubStats h)))"

section \<open>The server\<close>

text \<open>The two functions \<^verbatim>\<open>server.New\<close> gives the hub: the dispatcher's location update and the heartbeat.\<close>

definition server_handlers :: "'db ext \<Rightarrow> Dispatcher \<Rightarrow> 'db world handlers" where
  "server_handlers X d =
     \<lparr>locationHandler = Some (\<lambda>loc. UpdateDriverLocation X d (lp_DriverID loc) (lp_Longitude loc) (lp_Latitude loc)),
      heartbeatHandler = Some (\<lambda>driverID. Heartbeat X (d_driverService d) driverID)\<rparr>"

text \<open>The two probes; the answer of Redis to a ping is an argument.\<close>

definition HandleHealthCheck :: "string reply" where
  "HandleHealthCheck = (StatusOK, Inr ''OK'')"

definition HandlePing :: "err + string \<Rightarrow> string reply" where
  "HandlePing ping =
     (case ping of
        Inl e \<Rightarrow> (StatusInternalServerError, Inl (Error e))
      | Inr pong \<Rightarrow> (StatusOK, Inr (''{'' @ [CHR 0x22] @ ''Redis'' @ [CHR 0x22] @ '':'' @ [CHR 0x22] @ pong @ [CHR 0x22] @ ''}'')))"

text \<open>The routes, for a path that is already clean; the pattern \<^verbatim>\<open>/\<close> takes every other path.\<close>

datatype endpoint =
    Demo_Page | Demo_Reset | Health_Check | Ping | RateLimit_Check | Budget_Set | Budget_Get
  | Location_Add | Location_Get | Location_Nearby
  | Dispatch_Request | Dispatch_Cancel | Dispatch_Arrive | Dispatch_Stats
  | Driver_Status | Driver_Location | Driver_WebSocket | Rider_WebSocket | WebSocket_Stats

definition routes :: "(string \<times> endpoint) list" where
  "routes =
     [(''/demo/reset'', Demo_Reset), (''/health'', Health_Check), (''/ping'', Ping),
      (''/ratelimit/check'', RateLimit_Check), (''/ratelimit/budget/set'', Budget_Set), (''/ratelimit/budget/get'', Budget_Get),
      (''/geo/add'', Location_Add), (''/geo/get'', Location_Get), (''/geo/nearby'', Location_Nearby),
      (''/dispatch/request'', Dispatch_Request), (''/dispatch/cancel'', Dispatch_Cancel),
      (''/dispatch/arrive'', Dispatch_Arrive), (''/dispatch/stats'', Dispatch_Stats),
      (''/driver/status'', Driver_Status), (''/driver/location'', Driver_Location),
      (''/ws/driver'', Driver_WebSocket), (''/ws/rider'', Rider_WebSocket), (''/ws/stats'', WebSocket_Stats)]"

definition newHTTPMux :: "string \<Rightarrow> endpoint" where
  "newHTTPMux path = (case map_of routes path of None \<Rightarrow> Demo_Page | Some e \<Rightarrow> e)"

text \<open>\<^verbatim>\<open>cmd/server\<close>: values from the environment.\<close>

definition envOrDefault :: "(string \<Rightarrow> string) \<Rightarrow> string \<Rightarrow> string \<Rightarrow> string" where
  "envOrDefault env key fallback = (if env key \<noteq> [] then env key else fallback)"

definition httpAddrFromEnv :: "(string \<Rightarrow> string) \<Rightarrow> string" where
  "httpAddrFromEnv env =
     (if env ''HTTP_ADDR'' \<noteq> [] then env ''HTTP_ADDR''
      else if env ''PORT'' \<noteq> [] then '':'' @ env ''PORT''
      else '':8080'')"

text \<open>The probe of a running server; the response of the HTTP client is an argument: its code and status line.\<close>

definition runHealthcheck :: "(string \<Rightarrow> string + nat \<times> string) \<Rightarrow> string \<Rightarrow> string option" where
  "runHealthcheck http_get url =
     (case http_get url of
        Inl e \<Rightarrow> Some e
      | Inr (code, status) \<Rightarrow> if code \<noteq> StatusOK then Some (''unexpected status: '' @ status) else None)"

end
