(* ===== verification/Demo.thy ===== *)
theory Demo
  imports Handlers Outcomes Sample
begin

text \<open>
  \<^verbatim>\<open>internal/server/demo_handler.go\<close>: the reset of the interview demo. A
  browser session claims the demo's lease, and with it clears the locks of
  the eight demo drivers and the trips of the three demo riders. The page
  the demo serves is not modelled.
\<close>

definition demoDriverIDs :: "string list" where
  "demoDriverIDs = [''demo-driver-01'', ''demo-driver-02'', ''demo-driver-03'', ''demo-driver-04'',
     ''demo-driver-05'', ''demo-driver-06'', ''demo-driver-07'', ''demo-driver-08'']"

definition demoRiderIDs :: "string list" where
  "demoRiderIDs = [''demo-rider-01'', ''demo-rider-02'', ''demo-rider-03'']"

definition demoSessionLeaseKey :: string where
  "demoSessionLeaseKey = ''demo:session:lease''"

definition demoSessionLeaseTTL :: int where
  "demoSessionLeaseTTL = 15 * 60 * Second"

text \<open>A reply of the server as the client decodes it into an \<^verbatim>\<open>interface{}\<close>.\<close>

datatype redis_value = RInteger int | RText string | RArray "redis_value list" | RNull

text \<open>The script's loop over the lock keys.\<close>

fun del_keys :: "'db ext \<Rightarrow> script_key list \<Rightarrow> ('db, rerr + int) state" where
  "del_keys X [] = ok 0"
| "del_keys X (k # ks) = attempt (r_del X k) (\<lambda>n. attempt (del_keys X ks) (\<lambda>m. ok (n + m)))"

definition demoResetLeaseScript :: "'db ext \<Rightarrow> script_key \<Rightarrow> script_key list \<Rightarrow> script_arg \<Rightarrow> int \<Rightarrow> script_arg \<Rightarrow> script_arg
    \<Rightarrow> ('db, rerr + redis_value) state" where
  "demoResetLeaseScript X key1 keys argv1 argv2 argv3 argv4 =
     attempt (rd (r_get X key1)) (\<lambda>current_owner.
     if current_owner \<noteq> None \<and> current_owner \<noteq> Some argv1 \<and> argv3 \<noteq> ''1''
     then ok (RArray [RInteger 0, RText (the current_owner), RInteger 0])
     else
     attempt (r_set X key1 argv1 (ExMs argv2)) (\<lambda>_.
     attempt (if argv4 = ''1'' then del_keys X keys else ok 0) (\<lambda>cleared.
     ok (RArray [RInteger 1, RText argv1, RInteger cleared]))))"

text \<open>The name of the dynamic type, as \<^verbatim>\<open>%T\<close> prints it.\<close>

fun go_type :: "redis_value \<Rightarrow> string" where
  "go_type (RInteger _) = ''int64''"
| "go_type (RText _) = ''string''"
| "go_type (RArray _) = ''[]interface {}''"
| "go_type RNull = ''<nil>''"

definition parseDemoResetResult :: "redis_value \<Rightarrow> err + bool \<times> string \<times> int" where
  "parseDemoResetResult raw =
     (case raw of
        RArray [v0, v1, v2] \<Rightarrow>
          (case v0 of
             RInteger claimed \<Rightarrow>
               (case v1 of
                  RText ownerSessionID \<Rightarrow>
                    (case v2 of
                       RInteger cleared \<Rightarrow> Inr (claimed = 1, ownerSessionID, cleared)
                     | _ \<Rightarrow> Inl (Plain (''unexpected demo reset cleared result: '' @ go_type v2)))
                | _ \<Rightarrow> Inl (Plain (''unexpected demo reset owner result: '' @ go_type v1)))
           | _ \<Rightarrow> Inl (Plain (''unexpected demo reset claim result: '' @ go_type v0)))
      | _ \<Rightarrow> Inl (Plain (''unexpected demo reset result: '' @ go_type raw)))"

section \<open>The handler\<close>

record demoResetRequest =
  dr_SessionID :: string
  dr_Force :: bool
  dr_ClearLocks :: "bool option"

record demoResetResponse =
  dr_ClearedLocks :: int
  dr_OwnerSessionID :: string

datatype demo_answer = DemoReset demoResetResponse | AlreadyClaimed string

fun reset_riders :: "'db ext \<Rightarrow> Dispatcher \<Rightarrow> string list \<Rightarrow> ('db world, err + unit) state" where
  "reset_riders X d [] = ok ()"
| "reset_riders X d (riderID # ids) = attempt (ResetRiderAssignment X d riderID) (\<lambda>_. reset_riders X d ids)"

text \<open>
  The body is the decoded request and whether nothing follows it in the
  stream; \<open>None\<close> when the strict decoder refused it.
\<close>

definition HandleDemoReset :: "'db ext \<Rightarrow> Dispatcher \<Rightarrow> string \<Rightarrow> (demoResetRequest \<times> bool) option
    \<Rightarrow> ('db world, demo_answer reply) state" where
  "HandleDemoReset X d method body =
     (if method \<noteq> MethodPost then method_not_allowed
      else case body of
          None \<Rightarrow> http_error StatusBadRequest ''invalid demo reset payload''
        | Some (req, at_end) \<Rightarrow>
            if \<not> at_end then http_error StatusBadRequest ''invalid demo reset payload''
            else
            (let session = TrimSpace (dr_SessionID req) in
             if session = [] then http_error StatusBadRequest ''session_id is required''
             else
             (let lock_keys = map (\<lambda>driverID. ''dispatch:lock:'' @ driverID) demoDriverIDs;
                  forceFlag = (if dr_Force req then ''1'' else ''0'');
                  clearLocksFlag = (if dr_ClearLocks req = Some False then ''0'' else ''1'')
              in do {
                res \<leftarrow> call (demoResetLeaseScript X demoSessionLeaseKey lock_keys session
                   (go_div demoSessionLeaseTTL 1000000) forceFlag clearLocksFlag);
                (case res of
                   Inl e \<Rightarrow> http_error StatusInternalServerError (Error e)
                 | Inr raw \<Rightarrow>
                     (case parseDemoResetResult raw of
                        Inl e \<Rightarrow> http_error StatusInternalServerError (Error e)
                      | Inr (claimed, owner, cleared) \<Rightarrow> do {
                          reset \<leftarrow> (if claimed \<and> clearLocksFlag = ''1'' then reset_riders X d demoRiderIDs else ok ());
                          (case reset of
                             Inl e \<Rightarrow> http_error StatusInternalServerError (Error e)
                           | Inr _ \<Rightarrow>
                               if \<not> claimed then http_json StatusConflict (AlreadyClaimed owner)
                               else http_json StatusOK
                                 (DemoReset \<lparr>dr_ClearedLocks = cleared, dr_OwnerSessionID = owner\<rparr>)) })) })))"

definition HandleDemo :: "string \<Rightarrow> string \<Rightarrow> 'page \<Rightarrow> 'page reply" where
  "HandleDemo path method page =
     (if path \<noteq> ''/'' then (StatusNotFound, Inl ''404 page not found'')
      else if method \<noteq> MethodGet then (StatusMethodNotAllowed, Inl ''Method not allowed'')
      else (StatusOK, Inr page))"

section \<open>What the reset of a rider does\<close>

text \<open>
  One rider, without interference: unless his trip's driver is locked by
  another request, the rider ends without a trip; nobody else's does, no
  lock is taken, and only the demo's steps are.
\<close>

definition unlocked_trip :: "'db ext \<Rightarrow> Dispatcher \<Rightarrow> 'db \<Rightarrow> string \<Rightarrow> bool" where
  "unlocked_trip X d db p \<longleftrightarrow> (case active_trip X d db p of None \<Rightarrow> True
     | Some a \<Rightarrow> str_at X db (lock_key d (a_DriverID a)) \<in> {None, Some (a_RequestID a)})"

definition rider_left :: "'db ext \<Rightarrow> Dispatcher \<Rightarrow> string \<Rightarrow> 'db \<Rightarrow> 'db \<Rightarrow> bool" where
  "rider_left X d p db db' \<longleftrightarrow> str_at X db' (rider_key d p) = None \<and>
     (\<forall>q. q \<noteq> p \<longrightarrow> str_at X db' (rider_key d q) = str_at X db (rider_key d q) \<and> active_trip X d db' q = active_trip X d db q) \<and>
     (\<forall>v. str_at X db' (lock_key d v) \<in> {None, str_at X db (lock_key d v)}) \<and>
     (\<forall>k. \<not> service_key d k \<longrightarrow> view X db' k = view X db k) \<and> clock X db' = clock X db \<and>
     (demo_step X d)\<^sup>*\<^sup>* db db'"

lemma run_attempt_same: "run_state m s = (Inr x, s) \<Longrightarrow> run_state (attempt m f) s = run_state (f x) s"
  by (simp add: run_attempt)

lemma run_bind_same: "run_state m s = (x, s) \<Longrightarrow> run_state (State_Monad.bind m f) s = run_state (f x) s"
  by (simp add: run_bind_split)

context deployment
begin

lemma other_trip:
  assumes inv: "store_inv A X d db" and r: "str_at X db (rider_key d p) = Some r" and q: "q \<noteq> p"
    and keep: "view X db' (rider_key d q) = view X db (rider_key d q)"
      "\<And>s. s \<noteq> r \<Longrightarrow> view X db' (asg_key d s) = view X db (asg_key d s)"
  shows "str_at X db' (rider_key d q) = str_at X db (rider_key d q) \<and> active_trip X d db' q = active_trip X d db q"
proof -
  have same: "str_at X db' (rider_key d q) = str_at X db (rider_key d q)" by (simp add: str_at_def keep)
  have "stored X d db' s = stored X d db s" if s: "str_at X db (rider_key d q) = Some s" for s
  proof -
    obtain h where h: "hash_at X db (asg_key d r) = Some h" "field h ''rider_id'' = p" using active_trip_Some [OF inv r] by metis
    obtain h' where h': "hash_at X db (asg_key d s) = Some h'" "field h' ''rider_id'' = q" using active_trip_Some [OF inv s] by metis
    from h h' q have "s \<noteq> r" by auto
    then show ?thesis by (simp add: stored_def hash_at_def keep(2))
  qed
  with same show ?thesis by (simp add: active_trip_def split: option.split)
qed

lemma svc_demo: "(svc_step X d)\<^sup>*\<^sup>* db db' \<Longrightarrow> (demo_step X d)\<^sup>*\<^sup>* db db'"
  by (rule rtranclp_mono [THEN predicate2D]) (auto intro: demo_step.service)

lemma foreign_key: "\<not> service_key d k \<Longrightarrow> k \<noteq> asg_key d i \<and> k \<noteq> rider_key d i \<and> k \<noteq> owner_key d i \<and>
    k \<noteq> stat_key d i \<and> k \<noteq> lock_key d i"
  by (auto simp: service_key_def)

lemma rider_leftI:
  assumes inv: "store_inv A X d db" and r: "str_at X db (rider_key d p) = Some r"
    and gone: "view X db' (rider_key d p) = None"
    and keep: "\<And>q. q \<noteq> p \<Longrightarrow> view X db' (rider_key d q) = view X db (rider_key d q)"
      "\<And>s. s \<noteq> r \<Longrightarrow> view X db' (asg_key d s) = view X db (asg_key d s)"
      "\<And>k. \<not> service_key d k \<Longrightarrow> view X db' k = view X db k"
    and lock: "\<And>v. view X db' (lock_key d v) = None \<or> view X db' (lock_key d v) = view X db (lock_key d v)"
    and steps: "clock X db' = clock X db" "(demo_step X d)\<^sup>*\<^sup>* db db'"
  shows "rider_left X d p db db'"
  unfolding rider_left_def
proof (intro conjI allI impI steps keep(3))
  fix q assume q: "q \<noteq> p"
  from other_trip [OF inv r q keep(1) [OF q] keep(2)]
  show "str_at X db' (rider_key d q) = str_at X db (rider_key d q)" "active_trip X d db' q = active_trip X d db q"
    by blast+
next
  fix v show "str_at X db' (lock_key d v) \<in> {None, str_at X db (lock_key d v)}"
    using lock [of v] by (auto simp: str_at_def)
qed (simp add: str_at_def gone)

text \<open>A trip under way is cancelled, a finished one has its keys cleared.\<close>

lemma cancelled_leaves:
  assumes inv: "store_inv {''en_route''} X d db" and free: "unlocked_trip X d db p"
    and r: "str_at X db (rider_key d p) = Some r" and a: "active_trip X d db p = Some a" "stored X d db r = Some a"
    and ids: "a_RequestID a = r" "a_RiderID a = p" and st: "a_Status a = ''en_route''"
  shows "\<exists>c db'. run_state (lc_cancel X (d_lifecycle d) r) (quiet db) = (Inr c, quiet db') \<and> rider_left X d p db db'"
proof -
  let ?c = "a\<lparr>a_Status := ''cancelled''\<rparr>"
  have ans: "trip_cancel_answer X d db r = Inr ?c"
    using st free a ids by (simp add: trip_cancel_answer_def unlocked_trip_def)
  from lc_cancel_answers [OF inv, of r, unfolded ans] obtain db' where
    run: "run_state (lc_cancel X (d_lifecycle d) r) (quiet db) = (Inr ?c, quiet db')"
    and V: "view X db' = after_cancel X d db r (Inr ?c)" "clock X db' = clock X db"
    by (auto simp: answers_def)
  have "(demo_step X d)\<^sup>*\<^sup>* db db'"
    using staysD(1) [OF stays_cancel [of X d r] env_stays_quiet, of db] svc_demo by (simp add: run)
  then have "rider_left X d p db db'"
    by (intro rider_leftI [OF inv r]) (use foreign_key in \<open>auto simp: V after_cancel_def ids\<close>)
  with run show ?thesis by blast
qed

lemma cleared_leaves:
  assumes inv: "store_inv {''en_route''} X d db" and r: "str_at X db (rider_key d p) = Some r"
    and st: "\<And>h. hash_at X db (asg_key d r) = Some h \<Longrightarrow> h ''status'' \<noteq> Some ''en_route''"
  shows "rider_left X d p db (snd (run_state (clear_reset_eval X (d_lifecycle d) p v r) db))"
proof -
  note V = yieldsD [OF clear_reset_spec [OF inv_typed [OF inv], of p v r]]
  have "(demo_step X d)\<^sup>*\<^sup>* db (snd (run_state (clear_reset_eval X (d_lifecycle d) p v r) db))"
    using st by (intro r_into_rtranclp [of "demo_step X d"] demo_step.clear_reset) auto
  then show ?thesis
    by (intro rider_leftI [OF inv r]) (use foreign_key r in \<open>auto simp: V\<close>)
qed

lemma reset_rider:
  assumes inv: "store_inv {''en_route''} X d db" and p: "TrimSpace p \<noteq> []" and free: "unlocked_trip X d db p"
  shows "\<exists>db'. run_state (ResetRiderAssignment X d p) (quiet db) = (Inr (), quiet db') \<and> rider_left X d p db db'"
proof (cases "str_at X db (rider_key d p)")
  case None
  then have "run_state (resetRider X (d_lifecycle d) p) (quiet db) = (Inr (), quiet db)"
    by (simp add: resetRider_def run_attempt run_call_quiet get_typed [OF typedD(2) [OF inv_typed [OF inv]]])
  with p None show ?thesis
    by (intro exI [of _ db]) (simp add: ResetRiderAssignment_def validateLifecycleID_def rider_left_def)
next
  case (Some r)
  from active_trip_Some [OF inv Some] obtain h where h: "hash_at X db (asg_key d r) = Some h"
      "active_trip X d db p = Some (assignment_of X h)" "active_status (h ''status'')" "field h ''rider_id'' = p" .
  let ?a = "assignment_of X h"
  have st: "stored X d db r = Some ?a" by (simp add: stored_def h(1))
  note rec = record_fields [OF record_at [OF inv h(1)]]
  have read: "run_state (call (rd (r_get X (rider_key d p)))) (quiet db) = (Inr (Some r), quiet db)"
    by (simp add: run_call_quiet get_typed [OF typedD(2) [OF inv_typed [OF inv]]] Some)
  have get: "run_state (lc_get X (d_lifecycle d) r) (quiet db) = (Inr ?a, quiet db)"
    by (simp add: run_lc_get [OF inv] st)
  note start = ResetRiderAssignment_def validateLifecycleID_def resetRider_def p if_False sum.case
    run_attempt_same [OF read] option.case run_bind_same [OF get]
  show ?thesis
  proof (cases "a_Status ?a = ''en_route''")
    case True
    from cancelled_leaves [OF inv free Some h(2) st _ _ True] h(4) rec(1) obtain c db' where
      "run_state (lc_cancel X (d_lifecycle d) r) (quiet db) = (Inr c, quiet db')" "rider_left X d p db db'" by auto
    with True show ?thesis by (auto simp only: start if_True) (auto simp: run_bind_split)
  next
    case False
    then have "rider_left X d p db (snd (run_state (clear_reset_eval X (d_lifecycle d) p (a_DriverID ?a) r) db))"
      using h(1) rec(4) by (intro cleared_leaves [OF inv Some]) auto
    moreover from False yieldsD(1) [OF clear_reset_spec [OF inv_typed [OF inv], of p "a_DriverID ?a" r]]
    have "run_state (ResetRiderAssignment X d p) (quiet db) =
      (Inr (), quiet (snd (run_state (clear_reset_eval X (d_lifecycle d) p (a_DriverID ?a) r) db)))"
      by (simp only: start) (simp add: run_bind_split run_attempt run_call_quiet)
    ultimately show ?thesis by blast
  qed
qed

lemma reset_riders_all:
  assumes "store_inv {''en_route''} X d db" "\<forall>p \<in> set ps. TrimSpace p \<noteq> [] \<and> unlocked_trip X d db p"
  shows "\<exists>db'. run_state (reset_riders X d ps) (quiet db) = (Inr (), quiet db') \<and>
    (\<forall>p. str_at X db' (rider_key d p) = (if p \<in> set ps then None else str_at X db (rider_key d p))) \<and>
    (\<forall>v. str_at X db' (lock_key d v) \<in> {None, str_at X db (lock_key d v)}) \<and>
    (\<forall>k. \<not> service_key d k \<longrightarrow> view X db' k = view X db k) \<and> (demo_step X d)\<^sup>*\<^sup>* db db'"
  using assms
proof (induction ps arbitrary: db)
  case Nil
  show ?case by (rule exI [of _ db]) simp
next
  case (Cons p ps)
  then have "TrimSpace p \<noteq> []" "unlocked_trip X d db p" by simp_all
  from reset_rider [OF Cons.prems(1) this] obtain db1 where one:
      "run_state (ResetRiderAssignment X d p) (quiet db) = (Inr (), quiet db1)" "rider_left X d p db db1" by blast
  have "unlocked_trip X d db1 q" if q: "q \<in> set ps" for q
  proof (cases "q = p")
    case True
    then show ?thesis using one(2) by (simp add: unlocked_trip_def active_trip_def rider_left_def)
  next
    case False
    then have a: "active_trip X d db1 q = active_trip X d db q" using one(2) by (simp add: rider_left_def)
    have "unlocked_trip X d db q" using q Cons.prems(2) by simp
    moreover have "str_at X db1 (lock_key d v) \<in> {None, str_at X db (lock_key d v)}" for v
      using one(2) by (simp add: rider_left_def)
    ultimately show ?thesis unfolding unlocked_trip_def a by (cases "active_trip X d db q") (simp_all, metis)
  qed
  then have all1: "\<forall>q \<in> set ps. TrimSpace q \<noteq> [] \<and> unlocked_trip X d db1 q" using Cons.prems(2) by simp
  have inv1: "store_inv {''en_route''} X d db1"
    using demo.run_keeps Cons.prems(1) one(2) by (auto simp: rider_left_def)
  obtain db2 where two: "run_state (reset_riders X d ps) (quiet db1) = (Inr (), quiet db2)"
      "\<forall>p. str_at X db2 (rider_key d p) = (if p \<in> set ps then None else str_at X db1 (rider_key d p))"
      "\<forall>v. str_at X db2 (lock_key d v) \<in> {None, str_at X db1 (lock_key d v)}"
      "\<forall>k. \<not> service_key d k \<longrightarrow> view X db2 k = view X db1 k" "(demo_step X d)\<^sup>*\<^sup>* db1 db2"
    using Cons.IH [OF inv1 all1] by (elim exE conjE) (rule that)
  note l = one(2) [unfolded rider_left_def]
  have "str_at X db2 (rider_key d q) = (if q \<in> set (p # ps) then None else str_at X db (rider_key d q))" for q
    using two(2) l by auto
  moreover have "str_at X db2 (lock_key d v) \<in> {None, str_at X db (lock_key d v)}" for v
    using two(3) l by (metis insertE insertCI singletonD)
  moreover have "(demo_step X d)\<^sup>*\<^sup>* db db2" using two(5) l by (meson rtranclp_trans)
  ultimately show ?case
    using two(1,4) l one(1) by (intro exI [of _ db2]) (simp add: run_attempt)
qed

section \<open>The script\<close>

lemma del_keys_spec:
  assumes "distinct ks"
  shows "yields X (del_keys X ks) db (Inr (int (length (filter (\<lambda>k. view X db k \<noteq> None) ks))))
    (\<lambda>k. if k \<in> set ks then None else view X db k)"
  using assms
proof (induction ks arbitrary: db)
  case (Cons k ks)
  let ?db = "snd (run_state (r_del X k) db)"
  from Cons have ih: "yields X (del_keys X ks) ?db (Inr (int (length (filter (\<lambda>k. view X ?db k \<noteq> None) ks))))
    (\<lambda>k. if k \<in> set ks then None else view X ?db k)" by simp
  have "filter (\<lambda>k. view X ?db k \<noteq> None) ks = filter (\<lambda>k. view X db k \<noteq> None) ks"
    using Cons.prems by (intro filter_cong) (auto simp: del_view)
  with ih show ?case
    by (auto simp: yields_def run_attempt del_res del_view del_clock)
qed (simp add: yields_def)

lemma del_keys_steps:
  "\<forall>k \<in> set ks. \<exists>v. k = lock_key d v \<Longrightarrow> (demo_step X d)\<^sup>*\<^sup>* db (snd (run_state (del_keys X ks) db))"
proof (induction ks arbitrary: db)
  case (Cons k ks)
  then obtain v where k: "k = lock_key d v" by auto
  from Cons have "(demo_step X d)\<^sup>*\<^sup>* (snd (run_state (r_del X k) db)) (snd (run_state (del_keys X ks) (snd (run_state (r_del X k) db))))"
    by simp
  moreover have "demo_step X d db (snd (run_state (r_del X k) db))" unfolding k by (rule demo_step.clear_lock)
  ultimately have "(demo_step X d)\<^sup>*\<^sup>* db (snd (run_state (del_keys X ks) (snd (run_state (r_del X k) db))))"
    by (rule converse_rtranclp_into_rtranclp [rotated])
  then show ?case by (auto simp: run_attempt del_res split: sum.split)
qed simp

end

text \<open>The store once the session holds the lease.\<close>

definition lease_held :: "'db ext \<Rightarrow> string \<Rightarrow> 'db \<Rightarrow> string \<Rightarrow> (rval \<times> int option) option" where
  "lease_held X s db = (view X db)(demoSessionLeaseKey \<mapsto> (RStr s, Some (clock X db + 900000)))"

text \<open>Who gets the lease: a free one, one's own, or any by force.\<close>

definition lease_granted :: "'db ext \<Rightarrow> 'db \<Rightarrow> string \<Rightarrow> bool \<Rightarrow> bool" where
  "lease_granted X db s force \<longleftrightarrow> force \<or> str_at X db demoSessionLeaseKey \<in> {None, Some s}"

context deployment
begin

lemma lease_script_refused:
  assumes "holds_string (view X db demoSessionLeaseKey)" "str_at X db demoSessionLeaseKey = Some w" "w \<noteq> s" "f \<noteq> ''1''"
  shows "yields X (demoResetLeaseScript X demoSessionLeaseKey ks s ms f c) db (Inr (RArray [RInteger 0, RText w, RInteger 0])) (view X db)"
  using assms by (simp add: yields_def demoResetLeaseScript_def run_attempt_rd get_typed)

lemma lease_script_granted:
  assumes ty: "holds_string (view X db demoSessionLeaseKey)"
    and g: "f = ''1'' \<or> str_at X db demoSessionLeaseKey \<in> {None, Some s}"
    and ks: "distinct ks" "demoSessionLeaseKey \<notin> set ks"
  shows "yields X (demoResetLeaseScript X demoSessionLeaseKey ks s 900000 f c) db
    (Inr (RArray [RInteger 1, RText s,
        RInteger (if c = ''1'' then int (length (filter (\<lambda>k. view X db k \<noteq> None) ks)) else 0)]))
    (\<lambda>k. if c = ''1'' \<and> k \<in> set ks then None else lease_held X s db k)"
  unfolding demoResetLeaseScript_def
proof (rule yields_get [OF ty])
  let ?cont = "\<lambda>_. attempt (if c = ''1'' then del_keys X ks else ok 0)
    (\<lambda>cleared. ok (RArray [RInteger 1, RText s, RInteger cleared]))"
  have e: "expiry_ok (ExMs 900000)" by (simp add: expiry_ok.simps)
  let ?db = "snd (run_state (r_set X demoSessionLeaseKey s (ExMs 900000)) db)"
  have V: "view X ?db = lease_held X s db" "clock X ?db = clock X db"
    by (simp_all add: lease_held_def set_view [OF e] set_clock [OF e])
  have f: "filter (\<lambda>k. lease_held X s db k \<noteq> None) ks = filter (\<lambda>k. view X db k \<noteq> None) ks"
    using ks(2) by (intro filter_cong) (auto simp: lease_held_def)
  note d = del_keys_spec [OF ks(1), of ?db, unfolded V(1), unfolded f]
  have "yields X (attempt (r_set X demoSessionLeaseKey s (ExMs 900000)) ?cont) db
    (Inr (RArray [RInteger 1, RText s,
        RInteger (if c = ''1'' then int (length (filter (\<lambda>k. view X db k \<noteq> None) ks)) else 0)]))
    (\<lambda>k. if c = ''1'' \<and> k \<in> set ks then None else lease_held X s db k)"
    using yieldsD [OF d] V by (simp add: yields_def run_attempt set_res [OF e])
  then show "yields X
     (if str_at X db demoSessionLeaseKey \<noteq> None \<and> str_at X db demoSessionLeaseKey \<noteq> Some s \<and> f \<noteq> ''1''
      then ok (RArray [RInteger 0, RText (the (str_at X db demoSessionLeaseKey)), RInteger 0])
      else attempt (r_set X demoSessionLeaseKey s (ExMs 900000)) ?cont) db
    (Inr (RArray [RInteger 1, RText s,
        RInteger (if c = ''1'' then int (length (filter (\<lambda>k. view X db k \<noteq> None) ks)) else 0)]))
    (\<lambda>k. if c = ''1'' \<and> k \<in> set ks then None else lease_held X s db k)"
    using g by auto
qed

lemma lease_script_steps:
  assumes "\<not> service_key d demoSessionLeaseKey" "\<forall>k \<in> set ks. \<exists>v. k = lock_key d v"
  shows "(demo_step X d)\<^sup>*\<^sup>* db (snd (run_state (demoResetLeaseScript X demoSessionLeaseKey ks s 900000 f c) db))"
proof -
  have e: "expiry_ok (ExMs 900000)" by (simp add: expiry_ok.simps)
  let ?db = "snd (run_state (r_set X demoSessionLeaseKey s (ExMs 900000)) db)"
  have "svc_step X d db ?db"
    using assms(1) by (intro svc_step.foreign) (auto simp: set_view [OF e] set_clock [OF e])
  then have "demo_step X d db ?db" by (rule demo_step.service)
  moreover have "(demo_step X d)\<^sup>*\<^sup>* ?db (snd (run_state (del_keys X ks) ?db))"
    by (rule del_keys_steps [OF assms(2)])
  ultimately have "(demo_step X d)\<^sup>*\<^sup>* db ?db" "(demo_step X d)\<^sup>*\<^sup>* db (snd (run_state (del_keys X ks) ?db))"
    by (auto intro: converse_rtranclp_into_rtranclp)
  then show ?thesis
    by (auto simp: demoResetLeaseScript_def run_attempt_rd run_attempt set_res [OF e] split: sum.split)
qed

end

section \<open>What the handler does\<close>

text \<open>The keys of the demo's drivers, and how many of their locks are taken.\<close>

definition demo_lock_keys :: "string list" where
  "demo_lock_keys = map (\<lambda>driverID. ''dispatch:lock:'' @ driverID) demoDriverIDs"

definition locks_taken :: "'db ext \<Rightarrow> 'db \<Rightarrow> int" where
  "locks_taken X db = int (length (filter (\<lambda>k. view X db k \<noteq> None) demo_lock_keys))"

text \<open>The configuration the demo assumes: the lock manager's keys, and a lease key nobody else uses.\<close>

definition demo_ready :: "Dispatcher \<Rightarrow> bool" where
  "demo_ready d \<longleftrightarrow> lm_keyPrefix (d_lockManager d) = ''dispatch:lock''"

lemma demo_lock_keys_facts:
  "distinct demo_lock_keys" "demoSessionLeaseKey \<notin> set demo_lock_keys"
  by (simp_all add: demo_lock_keys_def demoDriverIDs_def demoSessionLeaseKey_def)

lemma demo_lock_key: "demo_ready d \<Longrightarrow> lock_key d v = ''dispatch:lock:'' @ v"
  by (simp add: demo_ready_def lockKey_def sprintf_key_def)

lemma demo_lock_keys_of: "demo_ready d \<Longrightarrow> set demo_lock_keys = lock_key d ` set demoDriverIDs"
  by (simp add: demo_lock_key demo_lock_keys_def)

lemma server_demo:
  "demo_ready server_dispatcher" "\<not> service_key server_dispatcher demoSessionLeaseKey"
  by (auto simp: demo_ready_def service_key_def server_dispatcher_def NewDispatcher_def geo_New_def NewDriverService_def
      NewLockManager_def newLifecycleManager_def zeroLifecycleConfig_def demoSessionLeaseKey_def Let_def
      assignmentKey_def activeRiderKey_def activeDriverKey_def driverStatusKey_def lockKey_def sprintf_key_def)

lemma demo_riders_named: "list_all (\<lambda>p. TrimSpace p \<noteq> []) demoRiderIDs"
  by code_simp

text \<open>The handler after its checks, with the flags it computes.\<close>

lemma HandleDemoReset_valid:
  assumes "TrimSpace (dr_SessionID req) = s" "s \<noteq> []"
  shows "HandleDemoReset X d MethodPost (Some (req, True)) = do {
      res \<leftarrow> call (demoResetLeaseScript X demoSessionLeaseKey demo_lock_keys s 900000
        (if dr_Force req then ''1'' else ''0'') (if dr_ClearLocks req = Some False then ''0'' else ''1''));
      (case res of
         Inl e \<Rightarrow> http_error StatusInternalServerError (Error e)
       | Inr raw \<Rightarrow>
           (case parseDemoResetResult raw of
              Inl e \<Rightarrow> http_error StatusInternalServerError (Error e)
            | Inr (claimed, owner, cleared) \<Rightarrow> do {
                reset \<leftarrow> (if claimed \<and> dr_ClearLocks req \<noteq> Some False then reset_riders X d demoRiderIDs else ok ());
                (case reset of
                   Inl e \<Rightarrow> http_error StatusInternalServerError (Error e)
                 | Inr _ \<Rightarrow>
                     if \<not> claimed then http_json StatusConflict (AlreadyClaimed owner)
                     else http_json StatusOK (DemoReset \<lparr>dr_ClearedLocks = cleared, dr_OwnerSessionID = owner\<rparr>)) })) }"
proof -
  have ttl: "go_div demoSessionLeaseTTL 1000000 = 900000" by (simp add: demoSessionLeaseTTL_def go_div_def)
  have flag: "((if b then ''0'' else ''1'') = ''1'') = (\<not> b)" for b by simp
  show ?thesis
    unfolding HandleDemoReset_def Let_def demo_lock_keys_def [symmetric] ttl flag
    by (simp only: simp_thms if_False if_True option.case prod.case assms)
qed

definition demo_reply :: "int \<Rightarrow> string \<Rightarrow> int \<Rightarrow> demo_answer reply" where
  "demo_reply claimed owner cleared =
     (if claimed = 1 then (200, Inr (DemoReset \<lparr>dr_ClearedLocks = cleared, dr_OwnerSessionID = owner\<rparr>))
      else (409, Inr (AlreadyClaimed owner)))"

lemma run_HandleDemoReset:
  assumes s: "TrimSpace (dr_SessionID req) = s" "s \<noteq> []"
    and script: "run_state (demoResetLeaseScript X demoSessionLeaseKey demo_lock_keys s 900000
        (if dr_Force req then ''1'' else ''0'') (if dr_ClearLocks req = Some False then ''0'' else ''1'')) db =
      (Inr (RArray [RInteger c, RText w, RInteger n]), db1)"
  shows "run_state (HandleDemoReset X d ''POST'' (Some (req, True))) (quiet db) =
    (if c = 1 \<and> dr_ClearLocks req \<noteq> Some False then
       (case run_state (reset_riders X d demoRiderIDs) (quiet db1) of
          (Inl e, w') \<Rightarrow> ((500, Inl (Error e)), w') | (Inr _, w') \<Rightarrow> (demo_reply c w n, w'))
     else (demo_reply c w n, quiet db1))"
proof -
  have call: "run_state (call (demoResetLeaseScript X demoSessionLeaseKey demo_lock_keys s 900000
        (if dr_Force req then ''1'' else ''0'') (if dr_ClearLocks req = Some False then ''0'' else ''1''))) (quiet db) =
      (Inr (RArray [RInteger c, RText w, RInteger n]), quiet db1)"
    unfolding run_call_quiet script by simp
  have parse: "parseDemoResetResult (RArray [RInteger c, RText w, RInteger n]) = Inr (c = 1, w, n)"
    by (simp add: parseDemoResetResult_def)
  show ?thesis
    unfolding HandleDemoReset_valid [OF s] run_bind_split [of "call _"] call fst_conv snd_conv sum.case parse prod.case
    by (cases "run_state (reset_riders X d demoRiderIDs) (quiet db1)", cases "fst (run_state (reset_riders X d demoRiderIDs) (quiet db1))")
      (auto simp: run_bind_split demo_reply_def http_error_def http_json_def)
qed

context deployment
begin

lemma demo_refused:
  assumes "holds_string (view X db demoSessionLeaseKey)" "str_at X db demoSessionLeaseKey = Some w"
    "TrimSpace (dr_SessionID req) \<noteq> []" "w \<noteq> TrimSpace (dr_SessionID req)" "\<not> dr_Force req"
  shows "answers X (HandleDemoReset X d ''POST'' (Some (req, True))) db (409, Inr (AlreadyClaimed w)) (view X db)"
proof (rule yields_runE [OF lease_script_refused [OF assms(1,2,4), of "if dr_Force req then ''1'' else ''0''" demo_lock_keys 900000
      "if dr_ClearLocks req = Some False then ''0'' else ''1''"]])
  fix db1 assume "run_state (demoResetLeaseScript X demoSessionLeaseKey demo_lock_keys (TrimSpace (dr_SessionID req)) 900000
      (if dr_Force req then ''1'' else ''0'') (if dr_ClearLocks req = Some False then ''0'' else ''1'')) db =
      (Inr (RArray [RInteger 0, RText w, RInteger 0]), db1)" "view X db1 = view X db" "clock X db1 = clock X db"
  with run_HandleDemoReset [OF refl assms(3) this(1)] show ?thesis
    by (auto simp: answers_def demo_reply_def)
qed (simp add: assms(5))

lemma demo_granted:
  assumes "holds_string (view X db demoSessionLeaseKey)" "TrimSpace (dr_SessionID req) = s" "lease_granted X db s (dr_Force req)"
  obtains db1 where "run_state (demoResetLeaseScript X demoSessionLeaseKey demo_lock_keys s 900000
      (if dr_Force req then ''1'' else ''0'') (if dr_ClearLocks req = Some False then ''0'' else ''1'')) db =
      (Inr (RArray [RInteger 1, RText s, RInteger (if dr_ClearLocks req = Some False then 0 else locks_taken X db)]), db1)"
    "view X db1 = (\<lambda>k. if dr_ClearLocks req \<noteq> Some False \<and> k \<in> set demo_lock_keys then None else lease_held X s db k)"
    "clock X db1 = clock X db"
proof -
  have g: "(if dr_Force req then ''1'' else ''0'') = ''1'' \<or> str_at X db demoSessionLeaseKey \<in> {None, Some s}"
    using assms(3) by (auto simp: lease_granted_def)
  have flag: "((if b then ''0'' else ''1'') = ''1'') = (\<not> b)" for b by simp
  let ?c = "if dr_ClearLocks req = Some False then ''0'' else ''1''"
  let ?m = "demoResetLeaseScript X demoSessionLeaseKey demo_lock_keys s 900000 (if dr_Force req then ''1'' else ''0'') ?c"
  note y = yieldsD [OF lease_script_granted [OF assms(1) g demo_lock_keys_facts, of ?c, unfolded flag]]
  show ?thesis
  proof (rule that [of "snd (run_state ?m db)"])
    show "run_state ?m db = (Inr (RArray [RInteger 1, RText s,
        RInteger (if dr_ClearLocks req = Some False then 0 else locks_taken X db)]), snd (run_state ?m db))"
      using y(1) by (simp add: prod_eq_iff locks_taken_def)
  qed (rule y(2,3))+
qed

lemma demo_lease_only:
  assumes "holds_string (view X db demoSessionLeaseKey)" "TrimSpace (dr_SessionID req) = s" "s \<noteq> []"
    "lease_granted X db s (dr_Force req)" "dr_ClearLocks req = Some False"
  shows "answers X (HandleDemoReset X d ''POST'' (Some (req, True))) db
    (200, Inr (DemoReset \<lparr>dr_ClearedLocks = 0, dr_OwnerSessionID = s\<rparr>)) (lease_held X s db)"
proof (rule demo_granted [OF assms(1,2,4)])
  fix db1 assume "run_state (demoResetLeaseScript X demoSessionLeaseKey demo_lock_keys s 900000
      (if dr_Force req then ''1'' else ''0'') (if dr_ClearLocks req = Some False then ''0'' else ''1'')) db =
      (Inr (RArray [RInteger 1, RText s, RInteger (if dr_ClearLocks req = Some False then 0 else locks_taken X db)]), db1)"
    "view X db1 = (\<lambda>k. if dr_ClearLocks req \<noteq> Some False \<and> k \<in> set demo_lock_keys then None else lease_held X s db k)"
    "clock X db1 = clock X db"
  with run_HandleDemoReset [OF assms(2,3) this(1), of d] assms(5) show ?thesis
    by (auto simp: answers_def demo_reply_def)
qed

lemma active_trip_frame:
  assumes "\<And>i. view X db' (rider_key d i) = view X db (rider_key d i)" "\<And>i. view X db' (asg_key d i) = view X db (asg_key d i)"
  shows "active_trip X d db' p = active_trip X d db p"
proof -
  have "stored X d db' = stored X d db" by (rule ext) (simp add: stored_def hash_at_def assms)
  then show ?thesis unfolding active_trip_def str_at_def assms(1) by presburger
qed

lemma demo_cleared:
  assumes inv: "store_inv {''en_route''} X d db" and ty: "holds_string (view X db demoSessionLeaseKey)"
    and s: "TrimSpace (dr_SessionID req) = s" "s \<noteq> []" and g: "lease_granted X db s (dr_Force req)"
    and clear: "dr_ClearLocks req \<noteq> Some False" and ready: "demo_ready d" and own: "\<not> service_key d demoSessionLeaseKey"
    and fleet: "\<And>p a. p \<in> set demoRiderIDs \<Longrightarrow> active_trip X d db p = Some a \<Longrightarrow> a_DriverID a \<in> set demoDriverIDs"
  shows "\<exists>db'. run_state (HandleDemoReset X d ''POST'' (Some (req, True))) (quiet db) =
      ((200, Inr (DemoReset \<lparr>dr_ClearedLocks = locks_taken X db, dr_OwnerSessionID = s\<rparr>)), quiet db') \<and>
    str_at X db' demoSessionLeaseKey = Some s \<and>
    (\<forall>v \<in> set demoDriverIDs. str_at X db' (lock_key d v) = None) \<and>
    (\<forall>p. str_at X db' (rider_key d p) = (if p \<in> set demoRiderIDs then None else str_at X db (rider_key d p))) \<and>
    (demo_step X d)\<^sup>*\<^sup>* db db'"
proof (rule demo_granted [OF ty s(1) g])
  let ?m = "demoResetLeaseScript X demoSessionLeaseKey demo_lock_keys s 900000
      (if dr_Force req then ''1'' else ''0'') (if dr_ClearLocks req = Some False then ''0'' else ''1'')"
  fix db1 assume run: "run_state ?m db =
      (Inr (RArray [RInteger 1, RText s, RInteger (if dr_ClearLocks req = Some False then 0 else locks_taken X db)]), db1)"
    and V: "view X db1 = (\<lambda>k. if dr_ClearLocks req \<noteq> Some False \<and> k \<in> set demo_lock_keys then None else lease_held X s db k)"
  note keys = demo_lock_keys_of [OF ready] and lease = foreign_key [OF own]
  have steps: "(demo_step X d)\<^sup>*\<^sup>* db db1"
    using lease_script_steps [OF own, of demo_lock_keys db s "if dr_Force req then ''1'' else ''0''"
        "if dr_ClearLocks req = Some False then ''0'' else ''1''"] by (auto simp: run keys)
  have inv1: "store_inv {''en_route''} X d db1" by (rule demo.run_keeps [OF steps inv])
  have same: "view X db1 (rider_key d i) = view X db (rider_key d i)" "view X db1 (asg_key d i) = view X db (asg_key d i)" for i
    using lease [of i] by (auto simp: V keys lease_held_def)
  have locks: "str_at X db1 (lock_key d v) = None" if "v \<in> set demoDriverIDs" for v
    using that clear by (auto simp: str_at_def V keys)
  have "TrimSpace p \<noteq> [] \<and> unlocked_trip X d db1 p" if p: "p \<in> set demoRiderIDs" for p
  proof
    show "TrimSpace p \<noteq> []" using demo_riders_named p by (simp add: list_all_iff)
    have "active_trip X d db1 p = active_trip X d db p" by (rule active_trip_frame [OF same])
    then show "unlocked_trip X d db1 p" using locks fleet [OF p] by (simp add: unlocked_trip_def split: option.split)
  qed
  then have free: "\<forall>p \<in> set demoRiderIDs. TrimSpace p \<noteq> [] \<and> unlocked_trip X d db1 p" by blast
  obtain db2 where two: "run_state (reset_riders X d demoRiderIDs) (quiet db1) = (Inr (), quiet db2)"
    "\<forall>p. str_at X db2 (rider_key d p) = (if p \<in> set demoRiderIDs then None else str_at X db1 (rider_key d p))"
    "\<forall>v. str_at X db2 (lock_key d v) \<in> {None, str_at X db1 (lock_key d v)}"
    "\<forall>k. \<not> service_key d k \<longrightarrow> view X db2 k = view X db1 k" "(demo_step X d)\<^sup>*\<^sup>* db1 db2"
    using reset_riders_all [OF inv1 free] by (elim exE conjE) (rule that)
  have "run_state (HandleDemoReset X d ''POST'' (Some (req, True))) (quiet db) =
      ((200, Inr (DemoReset \<lparr>dr_ClearedLocks = locks_taken X db, dr_OwnerSessionID = s\<rparr>)), quiet db2)"
    unfolding run_HandleDemoReset [OF s run] two(1) using clear by (simp add: demo_reply_def)
  moreover have "str_at X db2 demoSessionLeaseKey = Some s"
    using two(4) own demo_lock_keys_facts(2) by (simp add: str_at_def V lease_held_def)
  moreover have "str_at X db2 (lock_key d v) = None" if "v \<in> set demoDriverIDs" for v
    using two(3) locks [OF that] by (metis insert_iff singletonD)
  moreover have "str_at X db1 (rider_key d p) = str_at X db (rider_key d p)" for p by (simp add: str_at_def same)
  ultimately show ?thesis using two(2,5) steps by (intro exI [of _ db2]) (auto intro: rtranclp_trans)
qed

end

end
