(* ===== verification/Endpoints.thy ===== *)
theory Endpoints
  imports Demo Presence
begin

text \<open>
  The HTTP endpoints end to end: the handlers over the dispatcher, the
  budgets and the demo, with the status codes they answer.
\<close>

section \<open>The search answers\<close>

context deployment
begin

lemma nearby_answers:
  assumes ty: "typed X d db" and c: "req_Longitude req = Fin x" "req_Latitude req = Fin y" "req_RadiusKm req = Fin r"
    and rng: "geo_range x y" "0 < r"
  shows "\<exists>locs. nearby X d db req = Inr locs"
proof -
  have v: "ValidateCoordinates (Fin x) (Fin y) = Inr ()" "ValidateRadius (Fin r) = Inr ()"
    using rng by (auto simp: ValidateCoordinates_ok_iff ValidateRadius_ok_iff geo_range_def)
  have "\<exists>xs. r_georadius X (geo_key d) (Fin x) (Fin y) (Fin r) db = Inr xs"
    by (rule holds_driversE [OF typedD(6) [OF ty]])
      (use georadius_none [OF rng] georadius_geo [OF rng] in blast)+
  with v show ?thesis
    by (auto simp: nearby_def FindNearby_def run_attempt run_call_quiet c)
qed

text \<open>Every reason for which a search in range fails.\<close>

lemma search_outcomes:
  assumes ty: "typed X d db" and c: "req_Longitude req = Fin x" "req_Latitude req = Fin y" "req_RadiusKm req = Fin r"
    and rng: "geo_range x y" "0 < r" and v: "\<And>w. validatePickup (new_assignment req w) = Inr ()"
  shows "dispatch_status (search_answer X d db req) \<in> {200, 404, 409}"
proof -
  obtain locs where n: "nearby X d db req = Inr locs" using nearby_answers [OF ty c rng] by blast
  have rec: "record_answer X d db req w = Inr None \<or> (\<exists>e \<in> {Lif ErrActiveAssignment, Lif ErrRequestAlreadyExists}.
      record_answer X d db req w = Inl e)" for w
    by (simp add: record_answer_def v)
  have pick: "dispatch_status (pick_answer X d db req locs) \<in> {200, 404, 409}"
  proof (cases "find (\<lambda>loc. driver_free X d db (loc_ID loc)) locs")
    case None
    then show ?thesis by (simp add: pick_answer_def dispatch_status_def failed_def no_result_def)
  next
    case (Some loc)
    then have "driver_free X d db (loc_ID loc)" by (rule find_SomeE)
    with Some rec [of "loc_ID loc"] show ?thesis
      by (auto simp: pick_answer_def claim_answer_def dispatch_status_def failed_cause_def no_result_def matched_def)
  qed
  show ?thesis
  proof (cases "req_RiderID req \<noteq> [] \<and> active_trip X d db (req_RiderID req) \<noteq> None")
    case True
    then have "search_answer X d db req = failed_cause (req_RequestID req) (Lif ErrActiveAssignment)"
      by (auto simp: search_answer_def)
    then show ?thesis by (simp add: dispatch_status_def failed_cause_def no_result_def)
  next
    case False
    then have "search_answer X d db req = pick_answer X d db req locs" by (auto simp: search_answer_def n)
    with pick show ?thesis by simp
  qed
qed

lemma search_finds:
  assumes ty: "typed X d db" and c: "req_Longitude req = Fin x" "req_Latitude req = Fin y" "req_RadiusKm req = Fin r"
    and rng: "geo_range x y" "0 < r" and v: "\<And>w. validatePickup (new_assignment req w) = Inr ()"
    and free: "driver_free X d db w" "geo_at X db (geo_key d) w = Some p" "geo_km X (x, y) p \<le> r"
    and new: "req_RiderID req = [] \<or> active_trip X d db (req_RiderID req) = None \<and> stored X d db (req_RequestID req) = None"
  shows "res_Success (search_answer X d db req)"
proof -
  obtain locs where n: "nearby X d db req = Inr locs" using nearby_answers [OF ty c rng] by blast
  have "w \<in> set (map loc_ID locs)"
    by (rule FindNearby_found [OF ty n [unfolded nearby_def]]) (use c free(2,3) in \<open>cases p, auto\<close>)
  then have "find (\<lambda>loc. driver_free X d db (loc_ID loc)) locs \<noteq> None"
    using free(1) by (auto simp: find_None_iff)
  then obtain loc where f: "find (\<lambda>loc. driver_free X d db (loc_ID loc)) locs = Some loc" by blast
  then have df: "driver_free X d db (loc_ID loc)" by (rule find_SomeE)
  have "claim_answer X d db req loc = Inr (matched req loc)"
    using new df v by (auto simp: claim_answer_def record_answer_def)
  then show ?thesis
    using new n f by (auto simp: search_answer_def pick_answer_def)
qed

end

lemma with_defaults_fields [simp]:
  "req_Longitude (with_defaults u req) = req_Longitude req" "req_Latitude (with_defaults u req) = req_Latitude req"
  "req_RiderID (with_defaults u req) = req_RiderID req"
  "req_PickupLongitude (with_defaults u req) = req_PickupLongitude req"
  "req_PickupLatitude (with_defaults u req) = req_PickupLatitude req"
  by (simp_all add: with_defaults_def Let_def)

lemma with_defaults_radius:
  "req_RadiusKm req = Fin r \<Longrightarrow> req_RadiusKm (with_defaults u req) = Fin (if r = 0 then 5 else r)"
  by (simp add: with_defaults_def Let_def)

section \<open>The dispatch handler\<close>

text \<open>The checks of the handler before the search.\<close>

definition dto_ok :: "DispatchRequestDTO \<Rightarrow> bool" where
  "dto_ok dto \<longleftrightarrow> ValidateCoordinates (dto_Longitude dto) (dto_Latitude dto) = Inr () \<and>
     (case (dto_PickupLongitude dto, dto_PickupLatitude dto) of
        (None, None) \<Rightarrow> True
      | (Some lon, Some lat) \<Rightarrow> ValidateCoordinates lon lat = Inr ()
      | _ \<Rightarrow> False) \<and> \<not> dto_RadiusKm dto < Fin 0"

lemma HandleDispatchRequest_ok:
  "dto_ok dto \<Longrightarrow> HandleDispatchRequest X d u ''POST'' (Some dto) = do {
     result \<leftarrow> FindAndAssign X d u (dispatch_request dto);
     http_json (dispatch_status result) result }"
  by (auto simp: dto_ok_def HandleDispatchRequest_def split: option.splits)

lemma HandleDispatchRequest_refused:
  assumes "method \<noteq> ''POST'' \<or> body = None \<or> (\<exists>dto. body = Some dto \<and> \<not> dto_ok dto)"
  shows "fst (fst (run_state (HandleDispatchRequest X d u method body) w)) \<in> {400, 405} \<and>
    snd (run_state (HandleDispatchRequest X d u method body) w) = w"
  using assms
  by (auto simp: dto_ok_def HandleDispatchRequest_def method_not_allowed_def http_error_def split: option.splits sum.split)

lemma dto_pickup:
  assumes "dto_ok dto"
  shows "validatePickup (new_assignment (with_defaults u (dispatch_request dto)) w) = Inr ()"
  using assms by (auto simp: dto_ok_def validatePickup_def new_assignment_def dispatch_request_def split: option.splits)

context deployment
begin

lemma run_dispatch:
  assumes inv: "store_inv A X d db" and ok: "dto_ok dto"
  obtains db' where "run_state (HandleDispatchRequest X d u ''POST'' (Some dto)) (quiet db) =
      ((dispatch_status (search_answer X d db (with_defaults u (dispatch_request dto))),
        Inr (search_answer X d db (with_defaults u (dispatch_request dto)))), quiet db')"
proof (rule answersE [OF FindAndAssign_answers [OF inv, of u "dispatch_request dto"]])
  fix db' assume "run_state (FindAndAssign X d u (dispatch_request dto)) (quiet db) =
      (search_answer X d db (with_defaults u (dispatch_request dto)), quiet db')"
  then show ?thesis
    by (intro that [of db']) (simp add: HandleDispatchRequest_ok [OF ok] run_bind_split http_json_def)
qed

lemma dispatch_statuses:
  assumes inv: "store_inv A X d db"
    and rng: "\<And>dto. body = Some dto \<Longrightarrow> dto_ok dto \<Longrightarrow>
        \<exists>x y r. dto_Longitude dto = Fin x \<and> dto_Latitude dto = Fin y \<and> dto_RadiusKm dto = Fin r \<and> geo_range x y"
  shows "fst (fst (run_state (HandleDispatchRequest X d u method body) (quiet db))) \<in> {200, 400, 404, 405, 409}"
proof (cases "method \<noteq> ''POST'' \<or> body = None \<or> (\<exists>dto. body = Some dto \<and> \<not> dto_ok dto)")
  case True
  from HandleDispatchRequest_refused [OF this, of X d u] show ?thesis by auto
next
  case False
  then obtain dto where b: "method = ''POST''" "body = Some dto" "dto_ok dto" by (cases body) auto
  from rng [OF b(2,3)] obtain x y r where c: "dto_Longitude dto = Fin x" "dto_Latitude dto = Fin y"
      "dto_RadiusKm dto = Fin r" "geo_range x y" by blast
  with b(3) have r: "0 \<le> r" by (auto simp: dto_ok_def)
  have req: "req_Longitude (with_defaults u (dispatch_request dto)) = Fin x"
    "req_Latitude (with_defaults u (dispatch_request dto)) = Fin y"
    "req_RadiusKm (with_defaults u (dispatch_request dto)) = Fin (if r = 0 then 5 else r)"
    by (simp_all add: dispatch_request_def c with_defaults_radius)
  have pos: "0 < (if r = 0 then 5 else r)" using r by simp
  have st: "dispatch_status (search_answer X d db (with_defaults u (dispatch_request dto))) \<in> {200, 404, 409}"
    by (rule search_outcomes [OF inv_typed [OF inv] req c(4) pos dto_pickup [OF b(3)]])
  show ?thesis
    by (rule run_dispatch [OF inv b(3), of u]) (use st b in auto)
qed

end

section \<open>The lifecycle handlers\<close>

lemma handleDispatchLifecycle_ok:
  "TrimSpace r \<noteq> [] \<Longrightarrow> handleDispatchLifecycle ''POST'' (Some r) transition = do {
     res \<leftarrow> transition (TrimSpace r);
     (case res of Inl e \<Rightarrow> http_error (lifecycle_status e) (Error e) | Inr a \<Rightarrow> http_json 200 a) }"
  by (simp add: handleDispatchLifecycle_def Let_def)

lemma handleDispatchLifecycle_refused:
  assumes "method \<noteq> ''POST'' \<or> body = None \<or> (\<exists>r. body = Some r \<and> TrimSpace r = [])"
  shows "fst (fst (run_state (handleDispatchLifecycle method body transition) w)) \<in> {400, 405} \<and>
    snd (run_state (handleDispatchLifecycle method body transition) w) = w"
  using assms by (auto simp: handleDispatchLifecycle_def method_not_allowed_def http_error_def Let_def)




section \<open>The properties of the endpoints\<close>

text \<open>
  C33: the status codes of a dispatch request. On a quiet connection, for
  coordinates in the range of the index, the answer is 200, 400, 404, 405 or
  409: never an internal error.
\<close>

theorem dispatch_status_codes:
  assumes "deployment X d" "reachable X d db"
    and "\<And>dto. body = Some dto \<Longrightarrow> dto_ok dto \<Longrightarrow>
      \<exists>x y r. dto_Longitude dto = Fin x \<and> dto_Latitude dto = Fin y \<and> dto_RadiusKm dto = Fin r \<and> geo_range x y"
  shows "fst (fst (run_state (HandleDispatchRequest X d uuid method body) (quiet db))) \<in> {200, 400, 404, 405, 409}"
  by (rule deployment.dispatch_statuses [OF assms(1) deployment.reachable_inv [OF assms(1,2)] assms(3)])

definition sample_dto :: DispatchRequestDTO where
  "sample_dto = \<lparr>dto_RequestID = '' r2 '', dto_RiderID = ''p2'', dto_Longitude = Fin 0, dto_Latitude = Fin 0,
     dto_PickupLongitude = None, dto_PickupLatitude = None, dto_RadiusKm = Fin 0\<rparr>"

theorem dispatch_status_codes_witness:
  "fst (fst (run_state (HandleDispatchRequest mem server_dispatcher ''u'' ''POST'' (Some sample_dto)) (quiet trip_store)))
     \<in> {200, 400, 404, 405, 409}"
  by (rule dispatch_status_codes [OF dep.deployment_axioms reachable_trip]) (auto simp: sample_dto_def geo_range_def)

text \<open>
  C34: whoever can be served is. If a free driver is within the radius, the
  pickup is valid, and the rider, if there is one, has no trip under way and
  the request ID is new, then the search succeeds.
\<close>

theorem dispatch_succeeds:
  assumes "deployment X d" "reachable X d db" "q = with_defaults uuid req"
    and "req_Longitude req = Fin x" "req_Latitude req = Fin y" "req_RadiusKm q = Fin r" "geo_range x y" "0 < r"
    and "\<And>w. validatePickup (new_assignment q w) = Inr ()"
    and "driver_free X d db v" "geo_at X db (geo_key d) v = Some p" "geo_km X (x, y) p \<le> r"
    and "req_RiderID req = [] \<or> active_trip X d db (req_RiderID req) = None \<and> stored X d db (req_RequestID q) = None"
  shows "res_Success (fst (run_state (FindAndAssign X d uuid req) (quiet db)))"
proof -
  note inv = deployment.reachable_inv [OF assms(1,2)]
  have "res_Success (search_answer X d db q)"
    by (rule deployment.search_finds [OF assms(1) deployment.inv_typed [OF assms(1) inv] _ _ assms(6,7,8,9,10,11,12)])
      (use assms(4,5,13) in \<open>simp_all add: assms(3)\<close>)
  with deployment.FindAndAssign_answers [OF assms(1) inv, of uuid req] show ?thesis
    by (auto simp: answers_def assms(3))
qed

theorem dispatch_succeeds_witness:
  "res_Success (fst (run_state (FindAndAssign mem server_dispatcher ''u'' (trip_request ''r1'' ''p1'')) (quiet idle_store)))"
proof (rule dispatch_succeeds [OF dep.deployment_axioms reachable_idle refl, where x = 0 and y = 0 and r = 5 and v = "''v1''" and p = "(0, 0)"])
  show "driver_free mem server_dispatcher idle_store ''v1''"
  proof -
    have "str_at mem idle_store (stat_key server_dispatcher ''v1'') = Some ''available''"
      "mem_find idle_store (lock_key server_dispatcher ''v1'') = None"
      "mem_find idle_store (owner_key server_dispatcher ''v1'') = None" by code_simp+
    then show ?thesis by (simp add: driver_free_def mem_def mem_view_def)
  qed
  show "req_RiderID (trip_request ''r1'' ''p1'') = [] \<or>
    active_trip mem server_dispatcher idle_store (req_RiderID (trip_request ''r1'' ''p1'')) = None \<and>
    stored mem server_dispatcher idle_store (req_RequestID (with_defaults ''u'' (trip_request ''r1'' ''p1''))) = None"
    by code_simp
  show "geo_at mem idle_store (geo_key server_dispatcher) ''v1'' = Some (0, 0)" "geo_km mem (0, 0) (0, 0) \<le> 5" by code_simp+
  show "req_RadiusKm (with_defaults ''u'' (trip_request ''r1'' ''p1'')) = Fin 5" by code_simp
  show "validatePickup (new_assignment (with_defaults ''u'' (trip_request ''r1'' ''p1'')) w) = Inr ()" for w
    by (simp add: validatePickup_def new_assignment_def trip_request_def ValidateCoordinates_ok_iff)
qed (simp_all add: trip_request_def geo_range_def)



text \<open>
  A refused request touches nothing. Whatever other requests and the
  network do, a search, a cancellation or an arrival that is answered with
  400 or 405 has made no call at all.
\<close>

theorem refused_untouched:
  "(fst (fst (run_state (HandleDispatchRequest X d uuid method body) w)) \<in> {400, 405} \<longrightarrow>
     snd (run_state (HandleDispatchRequest X d uuid method body) w) = w) \<and>
   (fst (fst (run_state (HandleDispatchCancel X d method idb) w)) \<in> {400, 405} \<longrightarrow>
     snd (run_state (HandleDispatchCancel X d method idb) w) = w) \<and>
   (fst (fst (run_state (HandleDispatchArrive X d method idb) w)) \<in> {400, 405} \<longrightarrow>
     snd (run_state (HandleDispatchArrive X d method idb) w) = w)"
proof -
  have life: "fst (fst (run_state (handleDispatchLifecycle method idb transition) w)) \<in> {400, 405} \<longrightarrow>
     snd (run_state (handleDispatchLifecycle method idb transition) w) = w" for transition
  proof (cases "method \<noteq> ''POST'' \<or> idb = None \<or> (\<exists>r. idb = Some r \<and> TrimSpace r = [])")
    case True
    from handleDispatchLifecycle_refused [OF True, of transition w] show ?thesis by simp
  next
    case False
    then obtain r where r: "method = ''POST''" "idb = Some r" "TrimSpace r \<noteq> []" by (cases idb) auto
    have "lifecycle_status e \<notin> {400, 405}" for e by (simp add: lifecycle_status_def)
    then show ?thesis
      unfolding r handleDispatchLifecycle_ok [OF r(3)]
      by (cases "fst (run_state (transition (TrimSpace r)) w)") (auto simp: run_bind_split http_error_def http_json_def)
  qed
  have "dispatch_status res \<notin> {400, 405}" for res by (simp add: dispatch_status_def)
  have "fst (fst (run_state (HandleDispatchRequest X d uuid method body) w)) \<in> {400, 405} \<longrightarrow>
     snd (run_state (HandleDispatchRequest X d uuid method body) w) = w"
  proof (cases "method \<noteq> ''POST'' \<or> body = None \<or> (\<exists>dto. body = Some dto \<and> \<not> dto_ok dto)")
    case True
    from HandleDispatchRequest_refused [OF True, of X d uuid w] show ?thesis by simp
  next
    case False
    then obtain dto where "method = ''POST''" "body = Some dto" "dto_ok dto" by (cases body) auto
    with \<open>\<And>res. dispatch_status res \<notin> {400, 405}\<close> show ?thesis
      by (simp add: HandleDispatchRequest_ok run_bind_split http_json_def)
  qed
  with life [of "CancelAssignment X d"] life [of "ArriveAssignment X d"] show ?thesis
    unfolding HandleDispatchCancel_def HandleDispatchArrive_def by blast
qed

theorem refused_untouched_witness:
  "snd (run_state (HandleDispatchCancel mem server_dispatcher ''GET'' None) lossy_world) = lossy_world"
proof -
  have "fst (fst (run_state (HandleDispatchCancel mem server_dispatcher ''GET'' None) lossy_world)) \<in> {400, 405}"
    by (simp add: HandleDispatchCancel_def handleDispatchLifecycle_def method_not_allowed_def http_error_def)
  with refused_untouched [of mem server_dispatcher "[]" "''GET''" None lossy_world None] show ?thesis by blast
qed

text \<open>
  C37: a budget set over HTTP reads back. For every amount an int64 can hold
  and every key that is not blank, setting it answers 200, and then getting
  it answers 200 with that amount.
\<close>

theorem budget_http_roundtrip:
  assumes "redis X" "0 \<le> a" "a < 2 ^ 63" "TrimSpace key \<noteq> []"
    and "q ''amount'' = Itoa a" "q ''key'' = key"
  shows "\<exists>db'. run_state (HandleSetBudget X ''POST'' q) (quiet db) = ((200, Inr ''success''), quiet db') \<and>
    run_state (HandleGetBudget X ''GET'' q) (quiet db') = ((200, Inr a), quiet db')"
proof -
  have lim: "limiter X mem_lua" by (rule limiter.intro [OF assms(1) mem_lua.lua_numbers_axioms])
  have a: "int64_range a" using assms(2,3) by (simp add: int64_range_def)
  have k: "budgetKey key = Inr (''ratelimit:budget:'' @ TrimSpace key)" using assms(4) by (simp add: budgetKey_def Let_def)
  obtain db' where set: "run_state (SetBudget X key a) (quiet db) = (Inr (), quiet db')"
    "view X db' = (view X db)(''ratelimit:budget:'' @ TrimSpace key \<mapsto> (RStr (Itoa a), None))"
    using limiter.SetBudget_answers [OF lim k assms(2)] by (auto simp: answers_def)
  have get: "run_state (GetBudget X key) (quiet db') = (Inr a, quiet db')"
    by (rule limiter.run_GetBudget [OF lim k _ a]) (simp add: set(2))
  have ne: "key \<noteq> []" using assms(4) by (auto simp: TrimSpace_def)
  show ?thesis
    by (rule exI [of _ db'])
      (simp add: HandleSetBudget_def HandleGetBudget_def assms(5,6) ParseInt_Itoa [OF a] run_bind_split set(1) get http_json_def ne)
qed

theorem budget_http_roundtrip_witness:
  "\<exists>db'. run_state (HandleGetBudget mem ''GET'' (\<lambda>p. if p = ''key'' then '' k '' else ''42'')) (quiet db') = ((200, Inr 42), quiet db')"
proof -
  have i: "Itoa 42 = ''42''" by code_simp
  show ?thesis
    using budget_http_roundtrip [OF mem.redis_axioms, of 42 "'' k ''" "\<lambda>p. if p = ''key'' then '' k '' else ''42''" idle_store]
    by (auto simp: i TrimSpace_def is_space_def)
qed

section \<open>The demo\<close>

text \<open>
  C38: the lease of the demo is exclusive. While another session holds it, a
  reset without force is answered 409 with the holder's name and changes
  nothing; a session that is granted the lease and clears nothing changes
  nothing but the lease, which is then his for 15 minutes.
\<close>

theorem demo_lease:
  assumes "deployment X d" "holds_string (view X db demoSessionLeaseKey)"
    and "TrimSpace (dr_SessionID req) = s" "s \<noteq> []"
  shows "(\<forall>w. str_at X db demoSessionLeaseKey = Some w \<and> w \<noteq> s \<and> \<not> dr_Force req \<longrightarrow>
      answers X (HandleDemoReset X d ''POST'' (Some (req, True))) db (409, Inr (AlreadyClaimed w)) (view X db)) \<and>
    (lease_granted X db s (dr_Force req) \<and> dr_ClearLocks req = Some False \<longrightarrow>
      answers X (HandleDemoReset X d ''POST'' (Some (req, True))) db
        (200, Inr (DemoReset \<lparr>dr_ClearedLocks = 0, dr_OwnerSessionID = s\<rparr>))
        ((view X db)(demoSessionLeaseKey \<mapsto> (RStr s, Some (clock X db + 900000)))))"
  using deployment.demo_refused [OF assms(1,2), of _ req] deployment.demo_lease_only [OF assms(1,2,3,4)] assms(3,4)
  by (auto simp: lease_held_def)

definition leased_store :: mem_db where
  "leased_store = \<lparr>kv = [(''demo:session:lease'', MStr ''s1'', Some 900000)], time = 0\<rparr>"

definition other_session :: demoResetRequest where
  "other_session = \<lparr>dr_SessionID = '' s2 '', dr_Force = False, dr_ClearLocks = None\<rparr>"

theorem demo_lease_witness:
  "fst (run_state (HandleDemoReset mem server_dispatcher ''POST'' (Some (other_session, True))) (quiet leased_store))
     = (409, Inr (AlreadyClaimed ''s1''))"
proof -
  have s: "TrimSpace (dr_SessionID other_session) = ''s2''" "\<not> dr_Force other_session" by code_simp+
  have own: "str_at mem leased_store demoSessionLeaseKey = Some ''s1''" by code_simp
  then have "holds_string (view mem leased_store demoSessionLeaseKey)" by (auto simp: str_at_Some)
  from demo_lease [OF dep.deployment_axioms this s(1), THEN conjunct1, rule_format, of "''s1''"] own s(2)
  have "answers mem (HandleDemoReset mem server_dispatcher ''POST'' (Some (other_session, True))) leased_store
    (409, Inr (AlreadyClaimed ''s1'')) (view mem leased_store)" by simp
  then show ?thesis by (auto simp: answers_def)
qed




section \<open>After a trip has expired\<close>







end
