(* ===== verification/Service.thy ===== *)
theory Service
  imports Endpoints
begin

text \<open>
  The server as a whole: a request comes in over HTTP and is routed to its
  handler, a connected client sends a message, the loop of the hub takes its
  next event, and other copies of the service work on the same store. The
  state is the hub of this process and the store.
\<close>

section \<open>Serving a request\<close>

text \<open>
  A request as the handlers read it. The body and the origin are text;
  decoding JSON and parsing URLs are functions of the model.
\<close>

record request =
  rq_Method :: string
  rq_Path :: string
  rq_Query :: "string \<Rightarrow> string"
  rq_Origin :: string
  rq_Host :: string
  rq_Body :: string

record decoders =
  de_dispatch :: "string \<Rightarrow> DispatchRequestDTO option"
  de_lifecycle :: "string \<Rightarrow> string option"
  de_status :: "string \<Rightarrow> DriverStatusDTO option"
  de_position :: "string \<Rightarrow> DriverLocationDTO option"
  de_location :: "string \<Rightarrow> Location option"
  de_nearby :: "string \<Rightarrow> FindNearbyRequest option"
  de_check :: "string \<Rightarrow> RateLimitRequest option"
  de_reset :: "string \<Rightarrow> (demoResetRequest \<times> bool) option"
  parse_host :: "string \<Rightarrow> string option"
  demo_page :: string

text \<open>What else decides the answer: the fresh ID, the reply to a ping, whether
  the upgrade to a WebSocket succeeds, and which ready case \<^verbatim>\<open>Register\<close> takes.\<close>

record chance =
  ch_uuid :: string
  ch_ping :: "err + string"
  ch_upgrade :: bool
  ch_pick :: bool

datatype body = Matched DispatchResult | Trip Assignment | Counts nat nat | Presence string DriverStatus | Message string
  | Place Location | Places nat "Location list" | Checked RateLimitResponse | Budget int | Demo demo_answer | Connections HubStats

datatype response = Answer "body reply" | Socket connection

definition answer :: "('b \<Rightarrow> body) \<Rightarrow> ('db world, 'b reply) state \<Rightarrow> Hub \<Rightarrow> 'db world \<Rightarrow> (response \<times> Hub \<times> 'db world) option" where
  "answer f m h w = (case run_state m w of ((code, r), w') \<Rightarrow> Some (Answer (code, map_sum id f r), h, w'))"

definition answer_status :: "(string \<times> DriverStatus) reply + string reply \<Rightarrow> body reply" where
  "answer_status r = (case r of
     Inl (code, s) \<Rightarrow> (code, map_sum id (\<lambda>(v, s). Presence v s) s) | Inr (code, s) \<Rightarrow> (code, map_sum id Message s))"

definition socket :: "connection \<Rightarrow> Hub \<Rightarrow> 'db world \<Rightarrow> (response \<times> Hub \<times> 'db world) option" where
  "socket c h w = Some (Socket c, (case c of Connected _ h' \<Rightarrow> h' | _ \<Rightarrow> h), w)"

text \<open>The routes, each with its handler.\<close>

definition serve :: "'db ext \<Rightarrow> lua \<Rightarrow> Dispatcher \<Rightarrow> decoders \<Rightarrow> chance \<Rightarrow> request \<Rightarrow> Hub \<Rightarrow> 'db world
    \<Rightarrow> (response \<times> Hub \<times> 'db world) option" where
  "serve X L d de ch rq h w =
     (let method = rq_Method rq; query = rq_Query rq; body = rq_Body rq;
          upgraded = (ch_upgrade ch \<and> checkWebSocketOrigin (parse_host de) (rq_Origin rq) (rq_Host rq))
      in case newHTTPMux (rq_Path rq) of
        Demo_Page \<Rightarrow> answer Message (State_Monad.return (HandleDemo (rq_Path rq) method (demo_page de))) h w
      | Demo_Reset \<Rightarrow> answer Demo (HandleDemoReset X d method (de_reset de body)) h w
      | Health_Check \<Rightarrow> answer Message (State_Monad.return HandleHealthCheck) h w
      | Ping \<Rightarrow> answer Message (State_Monad.return (HandlePing (ch_ping ch))) h w
      | RateLimit_Check \<Rightarrow> answer Checked (HandleRateLimitCheck X L method (de_check de body)) h w
      | Budget_Set \<Rightarrow> answer Message (HandleSetBudget X method query) h w
      | Budget_Get \<Rightarrow> answer Budget (HandleGetBudget X method query) h w
      | Location_Add \<Rightarrow> answer Message (HandleAddLocation X (d_geoService d) method (de_location de body)) h w
      | Location_Get \<Rightarrow> answer Place (HandleGetLocation X (d_geoService d) method query) h w
      | Location_Nearby \<Rightarrow> answer (\<lambda>(n, ls). Places n ls)
          (HandleFindNearby X (d_geoService d) method (de_nearby de body)) h w
      | Dispatch_Request \<Rightarrow> answer Matched (HandleDispatchRequest X d (ch_uuid ch) method (de_dispatch de body)) h w
      | Dispatch_Cancel \<Rightarrow> answer Trip (HandleDispatchCancel X d method (de_lifecycle de body)) h w
      | Dispatch_Arrive \<Rightarrow> answer Trip (HandleDispatchArrive X d method (de_lifecycle de body)) h w
      | Dispatch_Stats \<Rightarrow> map_option (\<lambda>((code, r), w'). (Answer (code, map_sum id (\<lambda>(n, m). Counts n m) r), h, w'))
          (HandleDispatchStats X d method w)
      | Driver_Status \<Rightarrow> (case run_state (HandleDriverStatus X (d_driverService d) method query (de_status de body)) w of
          (r, w') \<Rightarrow> Some (Answer (answer_status r), h, w'))
      | Driver_Location \<Rightarrow> answer Message (HandleDriverLocation X d method (de_position de body)) h w
      | Driver_WebSocket \<Rightarrow> socket (HandleDriverWebSocket upgraded (ch_pick ch) query h) h w
      | Rider_WebSocket \<Rightarrow> socket (HandleRiderWebSocket upgraded (ch_pick ch) query h) h w
      | WebSocket_Stats \<Rightarrow> answer Connections (State_Monad.return (HandleWebSocketStats method (Some h))) h w)"

section \<open>Each handler stays within the steps of the service\<close>

lemma stays_http [stays_intros]: "stays P (http_error c e)" "stays P (http_json c x)" "stays P method_not_allowed"
  by (simp_all add: http_error_def http_json_def method_not_allowed_def stays_return)

lemma stays_budget_error [stays_intros]: "stays P (budget_error e)"
  unfolding budget_error_def by (intro stays_intros)

lemma stays_HandleDispatchRequest [stays_intros]:
  "uuid \<noteq> [] \<Longrightarrow> stays (svc_step X d) (HandleDispatchRequest X d uuid method body)"
  unfolding HandleDispatchRequest_def by (intro stays_intros)

lemma stays_lifecycle_handlers [stays_intros]:
  "stays (svc_step X d) (HandleDispatchCancel X d method body)" "stays (svc_step X d) (HandleDispatchArrive X d method body)"
  unfolding HandleDispatchCancel_def HandleDispatchArrive_def handleDispatchLifecycle_def Let_def
  by (intro stays_intros)+

lemma stays_HandleDriverStatus [stays_intros]:
  "stays (svc_step X d) (HandleDriverStatus X (d_driverService d) method query body)"
  unfolding HandleDriverStatus_def handleGetDriverStatus_def handleSetDriverStatus_def Let_def by (intro stays_intros)

lemma stays_HandleDriverLocation [stays_intros]: "stays (svc_step X d) (HandleDriverLocation X d method body)"
  unfolding HandleDriverLocation_def by (intro stays_intros)

lemma stays_location_handlers [stays_intros]:
  "stays (svc_step X d) (HandleAddLocation X (d_geoService d) method loc)"
  "stays (svc_step X d) (HandleGetLocation X (d_geoService d) method query)"
  "stays (svc_step X d) (HandleFindNearby X (d_geoService d) method req)"
  unfolding HandleAddLocation_def HandleGetLocation_def HandleFindNearby_def by (intro stays_intros)+

text \<open>The scan of the driver statuses only reads, page after page.\<close>

lemma page_stays:
  assumes "env_stays P w" "run_state (call (rd (r_scan X c pat n))) w = (r1, w1)"
  shows "P\<^sup>*\<^sup>* (wdb w) (wdb w1) \<and> env_stays P w1"
    and "(if keys = [] then (Inr [], w1) else run_state (call (rd (r_mget X keys))) w1) = (r2, w2) \<Longrightarrow>
      P\<^sup>*\<^sup>* (wdb w) (wdb w2) \<and> env_stays P w2"
proof -
  from staysD [OF stays_call_read assms(1), of "r_scan X c pat n"] assms(2)
  show w1: "P\<^sup>*\<^sup>* (wdb w) (wdb w1) \<and> env_stays P w1" by simp
  assume q: "(if keys = [] then (Inr [], w1) else run_state (call (rd (r_mget X keys))) w1) = (r2, w2)"
  with w1 staysD [OF stays_call_read, of P w1 "r_mget X keys"]
  show "P\<^sup>*\<^sup>* (wdb w) (wdb w2) \<and> env_stays P w2" by (cases "keys = []") auto
qed

lemma scan_loop_stays:
  assumes "scan_loop X ds c acc w = Some y" "env_stays P w"
  shows "P\<^sup>*\<^sup>* (wdb w) (wdb (snd y)) \<and> env_stays P (snd y)"
proof -
  have "env_stays P w \<longrightarrow> P\<^sup>*\<^sup>* (wdb w) (wdb (snd y)) \<and> env_stays P (snd y)"
    using assms(1)
  proof (induction X ds c acc w y rule: scan_loop.raw_induct [rotated, consumes 1, case_names 1])
    case (1 loop X ds c acc w y)
    show ?case
    proof
      assume w: "env_stays P w"
      obtain r1 w1 where p: "run_state (call (rd (r_scan X c (scanPattern ds) 100))) w = (r1, w1)" by fastforce
      note page = page_stays [OF w p]
      show "P\<^sup>*\<^sup>* (wdb w) (wdb (snd y)) \<and> env_stays P (snd y)"
      proof (cases r1)
        case (Inl e)
        with 1(2) p have "snd y = w1" by auto
        with page(1) show ?thesis by simp
      next
        case (Inr kn)
        obtain keys c' where kn: "kn = (keys, c')" by fastforce
        obtain r2 w2 where q: "(if keys = [] then (Inr [], w1) else run_state (call (rd (r_mget X keys))) w1) = (r2, w2)"
          by fastforce
        from 1(2) p q Inr kn consider (stop) "snd y = w2" | (go) acc' where "loop X ds c' acc' w2 = Some y"
          by (auto split: sum.splits if_splits)
        then show ?thesis
        proof cases
          case go
          from 1(1) [OF go] page(2) [OF q] show ?thesis by auto
        qed (use page(2) [OF q] in simp)
      qed
    qed
  qed
  with assms(2) show ?thesis by simp
qed

lemma stats_stay:
  assumes "HandleDispatchStats X d method w = Some (r, w')" "env_stays P w"
  shows "P\<^sup>*\<^sup>* (wdb w) (wdb w')"
proof (cases "method = MethodGet")
  case False
  with assms show ?thesis by (auto simp: HandleDispatchStats_def method_not_allowed_def http_error_def)
next
  case True
  show ?thesis
  proof (cases "scan_loop X (d_driverService d) 0 [] w")
    case None
    with True assms(1) show ?thesis by (simp add: HandleDispatchStats_def GetStats_def GetDriverStats_def scanStatuses_def)
  next
    case (Some y)
    then have "snd y = w'"
      using True assms(1)
      by (cases y) (auto simp: HandleDispatchStats_def GetStats_def GetDriverStats_def scanStatuses_def http_error_def
          http_json_def split: sum.splits)
    with scan_loop_stays [OF Some assms(2)] show ?thesis by simp
  qed
qed

section \<open>Budgets are foreign to the dispatcher\<close>

lemma budget_foreign: "budgetKey key = Inr k \<Longrightarrow> service_key server_dispatcher q \<Longrightarrow> q \<noteq> k"
  by (auto simp: budgetKey_def sprintf_key_def Let_def service_key_def server_dispatcher_def NewDispatcher_def newLifecycleManager_def
      zeroLifecycleConfig_def assignmentKey_def activeRiderKey_def activeDriverKey_def driverStatusKey_def
      NewDriverService_def NewLockManager_def lockKey_def geo_New_def split: if_splits)

context redis
begin

lemma stays_SetBudget: "stays (svc_step X server_dispatcher) (SetBudget X key amount)"
  unfolding SetBudget_def
  by (intro stays_intros stays_svc_call svc_step.foreign)
    (simp_all add: dur_expiry_zero set_view set_clock expiry_ok.simps budget_foreign)

lemma deduct_frame:
  shows "clock X (snd (run_state (deductBudget X L k c) db)) = clock X db"
    and "q \<noteq> k \<Longrightarrow> view X (snd (run_state (deductBudget X L k c) db)) q = view X db q"
  by (simp_all add: deductBudget_def run_attempt_rd run_attempt Let_def set_view set_clock expiry_ok.simps
      split: sum.split option.split)

lemma stays_AllowAtomic: "stays (svc_step X server_dispatcher) (AllowAtomic X L key cost)"
  unfolding AllowAtomic_def
  by (intro stays_intros stays_svc_call svc_step.foreign) (simp_all add: deduct_frame budget_foreign)

lemma stays_GetBudget: "stays P (GetBudget X key)"
  unfolding GetBudget_def by (intro stays_intros)

lemma stays_budget_handlers:
  "stays (svc_step X server_dispatcher) (HandleRateLimitCheck X L method cost)"
  "stays (svc_step X server_dispatcher) (HandleSetBudget X method query)"
  "stays (svc_step X server_dispatcher) (HandleGetBudget X method query)"
  unfolding HandleRateLimitCheck_def HandleSetBudget_def HandleGetBudget_def
  by (intro stays_intros stays_SetBudget stays_AllowAtomic stays_GetBudget)+

lemma answer_stays:
  assumes "answer f m h w = Some (r, h', w')" "stays P m" "env_stays P w"
  shows "P\<^sup>*\<^sup>* (wdb w) (wdb w') \<and> h' = h"
  using assms(1) staysD(1) [OF assms(2,3)] by (auto simp: answer_def split: prod.splits)

lemma answer_ok:
  "answer f m h w = Some (r, h', w') \<Longrightarrow> stays P m \<Longrightarrow> env_stays P w \<Longrightarrow> hub_ok h \<Longrightarrow>
   P\<^sup>*\<^sup>* (wdb w) (wdb w') \<and> hub_ok h'"
  using answer_stays by metis

lemma status_stays:
  assumes "(case run_state m w of (r, w') \<Rightarrow> Some (f r, h, w')) = Some (a, h', w')" "stays P m" "env_stays P w"
  shows "P\<^sup>*\<^sup>* (wdb w) (wdb w') \<and> h' = h"
  using assms(1) staysD(1) [OF assms(2,3)] by (auto split: prod.splits)

end

text \<open>A connection that registers keeps the hub consistent.\<close>

lemma connect_ok: "connect_client t upgraded pick i h = Connected a h' \<Longrightarrow> hub_ok h \<Longrightarrow> hub_ok h'"
proof -
  assume c: "connect_client t upgraded pick i h = Connected a h'" and h: "hub_ok h"
  let ?h = "snd (alloc (NewClient i t) h)"
  from c have r: "Register pick (fst (alloc (NewClient i t) h)) ?h = Some h'"
    by (auto simp: connect_client_def split: if_splits prod.splits option.splits)
  have "hub_ok ?h" using hub_ok_step [OF hub_step.connected [where cd = sample_codec and hs = no_handlers and w = 0]] h by simp
  then show "hub_ok h'"
    using hub_ok_step [OF hub_step.registered [OF _ r, where cd = sample_codec and hs = no_handlers and w = 0]]
    by (simp add: alloc_def)
qed

lemma socket_ok:
  assumes "socket c h w = Some (r, h', w')" "hub_ok h" "\<And>a h'. c = Connected a h' \<Longrightarrow> hub_ok h'"
  shows "w' = w \<and> hub_ok h'"
  using assms by (auto simp: socket_def split: connection.splits)

lemma websocket_ok:
  "HandleDriverWebSocket upgraded pick query h = Connected a h' \<Longrightarrow> hub_ok h \<Longrightarrow> hub_ok h'"
  "HandleRiderWebSocket upgraded pick query h = Connected a h' \<Longrightarrow> hub_ok h \<Longrightarrow> hub_ok h'"
  by (auto simp: HandleDriverWebSocket_def HandleRiderWebSocket_def split: if_splits intro: connect_ok)

context redis
begin

lemma serve_stays:
  assumes s: "serve X L server_dispatcher de ch rq h w = Some (r, h', w')" and demo: "newHTTPMux (rq_Path rq) \<noteq> Demo_Reset"
    and ch: "ch_uuid ch \<noteq> []" and w: "env_stays (svc_step X server_dispatcher) w" and h: "hub_ok h"
  shows "(svc_step X server_dispatcher)\<^sup>*\<^sup>* (wdb w) (wdb w') \<and> hub_ok h'"
proof (cases "newHTTPMux (rq_Path rq)")
  case Dispatch_Stats
  with s obtain q where "HandleDispatchStats X server_dispatcher (rq_Method rq) w = Some (q, w')" "h' = h"
    by (auto simp: serve_def Let_def)
  with stats_stay [OF _ w] h show ?thesis by blast
next
  case Driver_Status
  from s have "(case run_state (HandleDriverStatus X (d_driverService server_dispatcher) (rq_Method rq) (rq_Query rq)
      (de_status de (rq_Body rq))) w of (r, w') \<Rightarrow> Some (Answer (answer_status r), h, w')) = Some (r, h', w')"
    by (simp add: serve_def Let_def Driver_Status)
  from status_stays [OF this stays_HandleDriverStatus w] h show ?thesis by simp
next
  case Driver_WebSocket
  from socket_ok [OF s [unfolded serve_def Let_def Driver_WebSocket endpoint.case] h websocket_ok(1) [OF _ h]]
  show ?thesis by simp
next
  case Rider_WebSocket
  from socket_ok [OF s [unfolded serve_def Let_def Rider_WebSocket endpoint.case] h websocket_ok(2) [OF _ h]]
  show ?thesis by simp
qed (use s demo in \<open>simp_all add: serve_def Let_def\<close>,
    (erule answer_ok [OF _ _ w h], intro stays_intros stays_budget_handlers ch)+)

end

section \<open>The server and everybody else\<close>

text \<open>
  The steps of a server without the demo. Around the round trips of its
  requests and messages the store changes by steps of the service, and
  messages may be lost: that is the schedule each of them runs with.
\<close>

inductive server_step :: "'db ext \<Rightarrow> lua \<Rightarrow> decoders \<Rightarrow> codec \<Rightarrow> Hub \<times> 'db \<Rightarrow> Hub \<times> 'db \<Rightarrow> bool" for X L de cd where
  request: "newHTTPMux (rq_Path rq) \<noteq> Demo_Reset \<Longrightarrow> ch_uuid ch \<noteq> [] \<Longrightarrow>
    env_stays (svc_step X server_dispatcher) \<lparr>wdb = db, sched = sc\<rparr> \<Longrightarrow>
    serve X L server_dispatcher de ch rq h \<lparr>wdb = db, sched = sc\<rparr> = Some (r, h', w') \<Longrightarrow>
    server_step X L de cd (h, db) (h', wdb w')"
| message: "a < length (h_heap h) \<Longrightarrow> env_stays (svc_step X server_dispatcher) \<lparr>wdb = db, sched = sc\<rparr> \<Longrightarrow>
    handleMessage pick pick2 now cd (server_handlers X server_dispatcher) a msg h \<lparr>wdb = db, sched = sc\<rparr> = (h', w') \<Longrightarrow>
    server_step X L de cd (h, db) (h', wdb w')"
| hub: "hub_step cd (server_handlers X server_dispatcher) (h, w) (h', w) \<Longrightarrow> wdb w = db \<Longrightarrow>
    server_step X L de cd (h, db) (h', db)"
| elsewhere: "svc_step X server_dispatcher db db' \<Longrightarrow> server_step X L de cd (h, db) (h, db')"

text \<open>A message reaches the store through the two functions given to the hub.\<close>

lemma stays_server_handlers:
  "locationHandler (server_handlers X d) = Some f \<Longrightarrow> stays (svc_step X d) (f loc)"
  "heartbeatHandler (server_handlers X d) = Some g \<Longrightarrow> stays (svc_step X d) (g driverID)"
  by (auto simp: server_handlers_def intro: stays_intros)

lemma message_stays:
  assumes "handleMessage pick pick2 now cd (server_handlers X d) a msg h w = (h', w')" "env_stays (svc_step X d) w"
  shows "(svc_step X d)\<^sup>*\<^sup>* (wdb w) (wdb w')"
proof -
  note b = message_backend [of pick pick2 now cd "server_handlers X d" a msg h w, unfolded assms(1) snd_conv]
  then consider "w' = w" | loc f where "locationHandler (server_handlers X d) = Some f" "w' = snd (run_state (f loc) w)"
    | v g where "heartbeatHandler (server_handlers X d) = Some g" "w' = snd (run_state (g v) w)" by blast
  then show ?thesis
    by cases (simp_all add: staysD(1) [OF stays_server_handlers(1) assms(2)] staysD(1) [OF stays_server_handlers(2) assms(2)])
qed

definition server_inv :: "'db ext \<Rightarrow> Hub \<times> 'db \<Rightarrow> bool" where
  "server_inv X s \<longleftrightarrow> hub_ok (fst s) \<and> reachable X server_dispatcher (snd s)"

lemma reachable_more: "reachable X d db \<Longrightarrow> (svc_step X d)\<^sup>*\<^sup>* db db' \<Longrightarrow> reachable X d db'"
  unfolding reachable_def by (meson rtranclp_trans)

context redis
begin

lemma server_step_inv:
  assumes "server_step X L de cd s t" "server_inv X s"
  shows "server_inv X t"
  using assms
proof (induction rule: server_step.induct)
  case (request rq ch db sc h r h' w')
  then show ?case using serve_stays [OF request(4,1,2,3)] reachable_more by (auto simp: server_inv_def)
next
  case (message a h db sc pick pick2 now msg h' w')
  then have "hub_ok h'"
    using hub_ok_step [OF hub_step.message [OF message(1), where w = "\<lparr>wdb = db, sched = sc\<rparr>"]] by (metis fst_conv server_inv_def)
  with message message_stays [OF message(3,2)] reachable_more show ?case by (auto simp: server_inv_def)
next
  case (hub h w h' db)
  then show ?case using hub_ok_step [OF hub(1)] by (simp add: server_inv_def)
next
  case (elsewhere db db' h)
  from reachable_more [OF _ r_into_rtranclp [of "svc_step X server_dispatcher", OF elsewhere(1)]] elsewhere(2) show ?case by (simp add: server_inv_def)
qed

end

sublocale redis \<subseteq> server: transition_invariant "server_step X L de cd" "server_inv X" for L de cd
  by unfold_locales (rule server_step_inv)

context redis
begin

lemma server_reachable:
  assumes "(server_step X L de cd)\<^sup>*\<^sup>* (NewHub, db0) s" "empty_store X db0"
  shows "server_inv X s"
proof -
  have "reachable X server_dispatcher db0" using assms(2) unfolding reachable_def by blast
  then show ?thesis by (intro server.run_keeps [OF assms(1)]) (simp add: server_inv_def hub_ok_new)
qed

end

section \<open>A position on its way to the riders\<close>

text \<open>
  What a driver's message does to the store and to the hub: the store is as
  after his location update, and the position waits for the loop, or the
  driver is told why not.
\<close>

context deployment
begin

lemma message_location:
  assumes "reachable X d db" "\<not> h_done h" "length (h_broadcast h) < broadcast_capacity"
    and "c_Type (h_heap h ! a) = ClientTypeDriver" "i_Type msg = TypeLocationUpdate"
    and "decode_location cd (i_Payload msg) = Some loc"
    and "handleMessage pick pick2 now cd (server_handlers X d) a msg h (quiet db) = (h1, w1)"
  shows "view X (wdb w1) = location_effect X d db (c_ID (h_heap h ! a)) (lp_Longitude loc) (lp_Latitude loc) \<and>
    h1 = (case location_answer (lp_Longitude loc) (lp_Latitude loc) (c_ID (h_heap h ! a)) of
        Inl e \<Rightarrow> update_client a (sendError pick now ''location_update_failed'' (Error e)) h
      | Inr _ \<Rightarrow> h\<lparr>h_broadcast := h_broadcast h @ [loc\<lparr>lp_DriverID := c_ID (h_heap h ! a)\<rparr>]\<rparr>)"
proof -
  let ?v = "c_ID (h_heap h ! a)"
  obtain db' where u: "run_state (UpdateDriverLocation X d ?v (lp_Longitude loc) (lp_Latitude loc)) (quiet db) =
      (location_answer (lp_Longitude loc) (lp_Latitude loc) ?v, quiet db')"
    "view X db' = location_effect X d db ?v (lp_Longitude loc) (lp_Latitude loc)"
    using UpdateDriverLocation_answers [OF reachable_inv [OF assms(1)], of ?v "lp_Longitude loc" "lp_Latitude loc"]
    by (auto simp: answers_def)
  show ?thesis
    using assms(2-) u
    by (cases "location_answer (lp_Longitude loc) (lp_Latitude loc) ?v")
      (auto simp: handleMessage_def handleLocationUpdate_def PublishLocation_def server_handlers_def Let_def)
qed

end

text \<open>The next event of the loop delivers it, if nothing is queued before it.\<close>

lemma location_delivered:
  assumes "hub_ok h" "h_broadcast h = []" "b < length (h_heap h)"
  shows "h_heap (run_event picks now Broadcast (h\<lparr>h_broadcast := [loc]\<rparr>)) ! b =
    (if b \<in> set (map snd (h_riders h)) \<and> IsSubscribedTo (h_heap h ! b) (lp_DriverID loc)
     then snd (SendBytes (picks b) \<lparr>m_Type = TypeDriverLocation, m_Payload = location_payload loc, m_Timestamp = now\<rparr> (h_heap h ! b))
     else h_heap h ! b)"
proof -
  have "h\<lparr>h_broadcast := []\<rparr> = h" using assms(2) by simp
  with broadcast_delivery [OF assms(1,3), of picks now loc] show ?thesis by (simp add: Let_def)
qed

text \<open>
  C36: a driver's position reaches his followers, once it is stored. A
  connected driver reports his position: the store becomes as the contract
  of a location update says, under the ID of his connection. If that update
  answers an error the driver is told, and nothing is queued; otherwise the
  next event of the loop sends the position to exactly the registered riders
  who follow him.
\<close>

theorem position_reaches_followers:
  assumes "deployment X d" "reachable X d db" "hub_ok h" "\<not> h_done h" "h_broadcast h = []" "b < length (h_heap h)"
    and "c_Type (h_heap h ! a) = ClientTypeDriver" "c_ID (h_heap h ! a) = v"
    and "i_Type msg = TypeLocationUpdate" "decode_location cd (i_Payload msg) = Some loc"
    and "handleMessage pick pick2 now cd (server_handlers X d) a msg h (quiet db) = (h1, w1)"
  shows "view X (wdb w1) = location_effect X d db v (lp_Longitude loc) (lp_Latitude loc) \<and>
    (case location_answer (lp_Longitude loc) (lp_Latitude loc) v of
       Inl e \<Rightarrow> h1 = update_client a (sendError pick now ''location_update_failed'' (Error e)) h
     | Inr _ \<Rightarrow> h_heap (run_event picks later Broadcast h1) ! b =
         (if b \<in> set (map snd (h_riders h)) \<and> v \<in> c_subscribed (h_heap h ! b)
          then snd (SendBytes (picks b) \<lparr>m_Type = TypeDriverLocation, m_Payload = location_payload (loc\<lparr>lp_DriverID := v\<rparr>),
            m_Timestamp = later\<rparr> (h_heap h ! b))
          else h_heap h ! b))"
proof -
  have "length (h_broadcast h) < broadcast_capacity" using assms(5) by (simp add: broadcast_capacity_def)
  from deployment.message_location [OF assms(1,2,4) this assms(7,9,10,11)]
  show ?thesis
    using location_delivered [OF assms(3,5,6), of picks later "loc\<lparr>lp_DriverID := v\<rparr>"] assms(5,8)
    by (auto simp: IsSubscribedTo_def split: sum.split)
qed

definition position_message :: Incoming where
  "position_message = \<lparr>i_Type = TypeLocationUpdate, i_Payload = []\<rparr>"

definition reported :: "Hub \<times> mem_db world" where
  "reported = handleMessage False True 0 position_codec (server_handlers mem server_dispatcher) 1 position_message
     two_clients (quiet trip_store)"

theorem position_reaches_followers_witness:
  "c_send (h_heap (run_event (\<lambda>_. False) 1 Broadcast (fst reported)) ! 0) =
     [\<lparr>m_Type = TypeDriverLocation, m_Payload = location_payload sample_location, m_Timestamp = 1\<rparr>] \<and>
   view mem (wdb (snd reported)) = location_effect mem server_dispatcher trip_store ''v1'' (Fin 1) (Fin 2)"
proof -
  have h: "\<not> h_done two_clients" "h_broadcast two_clients = []" "0 < length (h_heap two_clients)"
    "c_Type (h_heap two_clients ! 1) = ClientTypeDriver" "c_ID (h_heap two_clients ! 1) = ''v1''"
    "i_Type position_message = TypeLocationUpdate" by code_simp+
  have l: "decode_location position_codec (i_Payload position_message) = Some sample_location"
    by (simp add: position_codec_def)
  have r: "set (map snd (h_riders two_clients)) = {0}" "''v1'' \<in> c_subscribed (h_heap two_clients ! 0)"
    "c_send (h_heap two_clients ! 0) = []" "\<not> c_done (h_heap two_clients ! 0)"
    "location_answer (lp_Longitude sample_location) (lp_Latitude sample_location) ''v1'' = Inr ()" by code_simp+
  have p: "sample_location\<lparr>lp_DriverID := ''v1''\<rparr> = sample_location"
    "lp_Longitude sample_location = Fin 1" "lp_Latitude sample_location = Fin 2" by (simp_all add: sample_location_def)
  have run: "handleMessage False True 0 position_codec (server_handlers mem server_dispatcher) 1 position_message
     two_clients (quiet trip_store) = (fst reported, snd reported)" by (simp add: reported_def)
  from position_reaches_followers [OF dep.deployment_axioms reachable_trip two_clients_ok h l run, of "\<lambda>_. False" 1]
  show ?thesis using r by (simp add: p SendBytes_def send_capacity_def)
qed

section \<open>A run of the server\<close>

text \<open>For the witness: two requests of the sample run as they come in over HTTP.\<close>

definition sample_decoders :: decoders where
  "sample_decoders = \<lparr>de_dispatch = (\<lambda>_. Some \<lparr>dto_RequestID = ''r1'', dto_RiderID = ''p1'', dto_Longitude = Fin 0,
       dto_Latitude = Fin 0, dto_PickupLongitude = None, dto_PickupLatitude = None, dto_RadiusKm = Fin 0\<rparr>),
     de_lifecycle = (\<lambda>_. None), de_status = (\<lambda>_. None),
     de_position = (\<lambda>_. Some \<lparr>dl_DriverID = ''v1'', dl_Longitude = Fin 0, dl_Latitude = Fin 0\<rparr>),
     de_location = (\<lambda>_. None), de_nearby = (\<lambda>_. None), de_check = (\<lambda>_. None), de_reset = (\<lambda>_. None),
     parse_host = (\<lambda>_. None), demo_page = []\<rparr>"

definition sample_chance :: chance where
  "sample_chance = \<lparr>ch_uuid = ''u1'', ch_ping = Inr ''PONG'', ch_upgrade = False, ch_pick = False\<rparr>"

definition post :: "string \<Rightarrow> request" where
  "post path = \<lparr>rq_Method = ''POST'', rq_Path = path, rq_Query = (\<lambda>_. []), rq_Origin = [], rq_Host = [], rq_Body = []\<rparr>"

definition code_and_store :: "(response \<times> Hub \<times> mem_db world) option \<Rightarrow> (nat \<times> bool \<times> mem_db) option" where
  "code_and_store r = (case r of Some (Answer (code, _), h, w) \<Rightarrow> Some (code, h = NewHub, wdb w) | _ \<Rightarrow> None)"

lemma served_by:
  "serve X L d sample_decoders ch (post ''/driver/location'') h w =
     answer Message (HandleDriverLocation X d ''POST'' (de_position sample_decoders [])) h w"
  "serve X L d sample_decoders sample_chance (post ''/dispatch/request'') h w =
     answer Matched (HandleDispatchRequest X d ''u1'' ''POST'' (de_dispatch sample_decoders [])) h w"
  by (simp_all add: serve_def Let_def post_def newHTTPMux_def routes_def sample_chance_def)

lemma served:
  "code_and_store (serve mem mem_lua server_dispatcher sample_decoders sample_chance (post ''/driver/location'')
     NewHub (quiet start_store)) = Some (200, True, idle_store)"
  "code_and_store (serve mem mem_lua server_dispatcher sample_decoders sample_chance (post ''/dispatch/request'')
     NewHub (quiet idle_store)) = Some (200, True, trip_store)"
  unfolding served_by by code_simp+

lemma sample_step:
  assumes "code_and_store (serve mem mem_lua server_dispatcher sample_decoders sample_chance (post path) NewHub (quiet db)) =
      Some (code, True, db')" "newHTTPMux path \<noteq> Demo_Reset"
  shows "server_step mem mem_lua sample_decoders cd (NewHub, db) (NewHub, db')"
proof -
  obtain a w where s: "serve mem mem_lua server_dispatcher sample_decoders sample_chance (post path) NewHub (quiet db) =
      Some (a, NewHub, w)" "wdb w = db'"
    using assms(1) by (auto simp: code_and_store_def split: option.splits response.splits prod.splits)
  have "server_step mem mem_lua sample_decoders cd (NewHub, db) (NewHub, wdb w)"
    by (rule server_step.request [OF _ _ _ s(1) [unfolded quiet_def]])
      (use assms(2) in \<open>simp_all add: post_def sample_chance_def env_stays_def\<close>)
  with s(2) show ?thesis by simp
qed

lemma sample_run: "(server_step mem mem_lua sample_decoders cd)\<^sup>*\<^sup>* (NewHub, start_store) (NewHub, trip_store)"
proof -
  have "server_step mem mem_lua sample_decoders cd (NewHub, start_store) (NewHub, idle_store)"
    "server_step mem mem_lua sample_decoders cd (NewHub, idle_store) (NewHub, trip_store)"
    by (rule sample_step [OF served(1)] sample_step [OF served(2)], simp add: newHTTPMux_def routes_def)+
  then show ?thesis by (meson r_into_rtranclp rtranclp_trans)
qed

end
