(* ===== verification/Startup.thy ===== *)
theory Startup
  imports Service
begin

text \<open>
  \<^verbatim>\<open>server.New\<close> and \<^verbatim>\<open>main\<close>: how the process comes up, serves, and goes down. What
  the operating system and the network do is the record \<open>surroundings\<close>; what
  the process does is its exit code and the list of its actions.
  \<^verbatim>\<open>log.Fatalf\<close> exits with code 1 at once, without the deferred calls.
\<close>

section \<open>Building the server\<close>

record 'db Server =
  srv_Redis :: "'db ext"
  srv_geoService :: GeoService
  srv_driverService :: DriverService
  srv_dispatcher :: Dispatcher
  srv_handlers :: "'db world handlers"
  srv_hub :: Hub

text \<open>\<open>Inl\<close> is the message of the fatal error.\<close>

definition server_New :: "'db ext \<Rightarrow> err + string \<Rightarrow> string + 'db Server" where
  "server_New X ping =
     (case ping of
        Inl e \<Rightarrow> Inl (''Failed to connect to Redis: '' @ Error e)
      | Inr _ \<Rightarrow>
          (let geoService = geo_New ''locations'';
               driverService = NewDriverService ''driver'' (30 * Second);
               lockManager = NewLockManager ''dispatch:lock'' (10 * Second);
               dispatcher = NewDispatcher geoService driverService lockManager []
           in Inr \<lparr>srv_Redis = X, srv_geoService = geoService, srv_driverService = driverService,
                srv_dispatcher = dispatcher, srv_handlers = server_handlers X dispatcher, srv_hub = NewHub\<rparr>))"

definition server_StartHub :: "'db Server \<Rightarrow> 'db Server" where
  "server_StartHub s = s\<lparr>srv_hub := StartHub (srv_hub s)\<rparr>"

definition server_StopHub :: "'db Server \<Rightarrow> 'db Server" where
  "server_StopHub s = s\<lparr>srv_hub := StopHub (srv_hub s)\<rparr>"

text \<open>The server that is built is the one the other theories are about.\<close>

lemma server_New_parts:
  assumes "server_New X ping = Inr s"
  shows "srv_dispatcher s = server_dispatcher" "srv_geoService s = d_geoService server_dispatcher"
    "srv_driverService s = d_driverService server_dispatcher" "srv_handlers s = server_handlers X server_dispatcher"
    "hub_ok (srv_hub (server_StartHub s))"
  using assms
  by (auto simp: server_New_def server_dispatcher_def NewDispatcher_def Let_def server_StartHub_def StartHub_def
      NewHub_def hub_ok_def split: sum.splits)

section \<open>The process\<close>

text \<open>
  The arguments and the environment, the answers of the HTTP client of the
  health check and of Redis at an address, the error that ends the listener
  before any signal, and the error of the shutdown after one.
\<close>

record surroundings =
  os_Args :: "string list"
  os_Getenv :: "string \<Rightarrow> string"
  http_get :: "string \<Rightarrow> string + nat \<times> string"
  redis_ping :: "string \<Rightarrow> err + string"
  listen_error :: "string \<Rightarrow> string option"
  shutdown_error :: "string option"

datatype action = Probed string | Pinged string | HubStarted | Listening string | ShutDown | HubStopped | RedisClosed

definition main :: "'db ext \<Rightarrow> surroundings \<Rightarrow> nat \<times> action list \<times> 'db Server option" where
  "main X s =
     (if length (os_Args s) > 1 \<and> os_Args s ! 1 = ''healthcheck'' then
        (let healthURL = envOrDefault (os_Getenv s) ''HEALTHCHECK_URL'' ''http://127.0.0.1:8080/ping''
         in (case runHealthcheck (http_get s) healthURL of
               Some _ \<Rightarrow> (1, [Probed healthURL], None)
             | None \<Rightarrow> (0, [Probed healthURL], None)))
      else
        (let redisAddr = envOrDefault (os_Getenv s) ''REDIS_ADDR'' ''localhost:6379'';
             httpAddr = httpAddrFromEnv (os_Getenv s)
         in (case server_New X (redis_ping s redisAddr) of
               Inl _ \<Rightarrow> (1, [Pinged redisAddr], None)
             | Inr srv \<Rightarrow>
                 (let srv1 = server_StartHub srv; up = [Pinged redisAddr, HubStarted, Listening httpAddr]
                  in (case listen_error s httpAddr of
                        Some _ \<Rightarrow> (1, up, Some srv1)
                      | None \<Rightarrow>
                          (case shutdown_error s of
                             Some _ \<Rightarrow> (1, up @ [ShutDown], Some srv1)
                           | None \<Rightarrow> (0, up @ [ShutDown, HubStopped, RedisClosed], Some (server_StopHub srv1))))))))"

text \<open>
  A server that exits with 0 has pinged Redis before it started the hub, the
  hub before it listened, and has undone this in the reverse order. One that
  exits with 1 leaves the hub running, if it had started it.
\<close>

lemma main_exit:
  assumes "main X s = (code, acts, Some srv)"
  shows "srv_dispatcher srv = server_dispatcher"
    and "code = 0 \<longleftrightarrow> h_done (srv_hub srv)"
    and "code = 0 \<Longrightarrow> acts = [Pinged (envOrDefault (os_Getenv s) ''REDIS_ADDR'' ''localhost:6379''), HubStarted,
      Listening (httpAddrFromEnv (os_Getenv s)), ShutDown, HubStopped, RedisClosed]"
  using assms
  by (auto simp: main_def Let_def server_StartHub_def server_StopHub_def StartHub_def StopHub_def server_New_def NewHub_def
      server_dispatcher_def split: if_splits option.splits sum.splits)

text \<open>
  The health check of the image does not follow the port: with only \<^verbatim>\<open>PORT\<close>
  set, the server listens there and the check still asks port 8080.
\<close>

lemma healthcheck_ignores_port:
  assumes "os_Getenv s ''HEALTHCHECK_URL'' = []" "os_Getenv s ''HTTP_ADDR'' = []" "os_Getenv s ''PORT'' = port" "port \<noteq> []"
  shows "fst (snd (main X (s\<lparr>os_Args := [p, ''healthcheck'']\<rparr>))) = [Probed ''http://127.0.0.1:8080/ping''] \<and>
    httpAddrFromEnv (os_Getenv s) = '':'' @ port"
  using assms by (auto simp: main_def Let_def envOrDefault_def httpAddrFromEnv_def split: option.split)

end
