(* ===== verification/Spec2Isabelle.thy ===== *)
theory Spec2Isabelle
  imports Presence Scans Lock_Discipline Great_Circle Sample Success Demo_Race Worker_Pool Startup
begin

text \<open>
  Verification library for the geo-spatial dispatch service (Go, Redis).

  \<^bold>\<open>The program.\<close> Drivers report positions and heartbeats over WebSocket;
  riders ask for a driver over HTTP. The Go process keeps no trip state of
  its own: everything durable is in Redis, and several requests (and several
  copies of the service) work on the same keys at once. The parts are
  \<^verbatim>\<open>internal/geospatial\<close> (the GEO index of positions), \<^verbatim>\<open>internal/driver\<close> (a status
  key per driver, with a time to live), \<^verbatim>\<open>internal/dispatch\<close> (a lock per driver,
  the record of each assignment with its two ownership keys, all moved by Lua
  scripts, and the dispatcher that searches, claims, rolls back, cancels and
  confirms arrival), \<^verbatim>\<open>internal/ratelimiter\<close> (a budget per key spent by a Lua
  script), \<^verbatim>\<open>internal/realtime\<close> (the hub of connected clients),
  \<^verbatim>\<open>internal/server\<close> (HTTP and WebSocket handlers, the interview demo, a worker
  pool) and \<^verbatim>\<open>cmd/server\<close> (routes and settings).

  \<^bold>\<open>How it is modelled.\<close> A Go function that may fail is a state-monadic term
  returning a sum (\<open>Inl\<close> the error); each Redis command is a field of the
  record \<open>'db ext\<close> (theory \<open>Redis\<close>), so the store is a parameter. A program is
  run on one of two states. On the store itself, alone: then the contracts
  say what it answers and leaves. Or on a \<open>world\<close>, the store with a schedule that
  interleaves steps of other requests, the passing of time, and lost
  requests and replies at each round trip: then it is shown to stay within
  the atomic steps of the service. Lua scripts are atomic, command by command
  as written, and a command that raises aborts its script.

  \<^bold>\<open>Theories and sources.\<close>
  \<^item> \<open>Prelude\<close>, \<open>Floats\<close>, \<open>Decimal\<close>: the error idiom, \<^verbatim>\<open>strings\<close>, \<^verbatim>\<open>strconv\<close>,
    \<^verbatim>\<open>float64\<close> values as rationals with infinities and NaN.
  \<^item> \<open>Redis\<close>: the commands used and their laws, locale \<open>redis\<close>;
    \<open>Redis_Reference\<close>: a store on association lists that satisfies them.
  \<^item> \<open>Errors\<close>: the sentinels of every package. \<open>Geospatial\<close>: \<^verbatim>\<open>geo.go\<close>.
    \<open>Driver\<close>: \<^verbatim>\<open>driver.go\<close>. \<open>Lock\<close>: \<^verbatim>\<open>lock.go\<close>. \<open>Lifecycle\<close>: \<^verbatim>\<open>lifecycle.go\<close>,
    its six scripts and the methods that call them. \<open>Dispatcher\<close>:
    \<^verbatim>\<open>dispatcher.go\<close>.
  \<^item> \<open>Ownership\<close>: locale \<open>deployment\<close> (a Redis server and a well-configured
    dispatcher), what each family of keys holds (\<open>store_inv\<close>), and what each
    script does to the visible keyspace. \<open>Steps\<close>: the atomic steps
    (\<open>svc_step\<close>, \<open>demo_step\<close>), locale \<open>transition_invariant\<close>, the invariant.
    \<open>Interleaving\<close>: every operation stays within those steps.
    \<open>Safety\<close>, \<open>Sample\<close>: what holds in every reachable store, and a small
    reachable run that the witnesses use. \<open>Trips\<close>: an abstract machine of
    trips, locale \<open>simulation\<close>, and the store refining it. \<open>Type_Safety\<close>: a logic
    of results under interference, and the errors that cannot happen. \<open>Success\<close>:
    the same logic with the store, and what a success means in every interleaving.
    \<open>Demo_Race\<close>: the two round trips of the demo's reset among other requests.
  \<^item> \<open>Outcomes\<close>, \<open>Matching\<close>, \<open>Consequences\<close>: the contracts of cancellation,
    arrival and the search, stage by stage with the rollbacks, and what
    follows. \<open>Presence\<close>, \<open>Scans\<close>: location updates, heartbeats, the SCAN loop.
    \<open>Lock_Discipline\<close>: locale \<open>exclusive_lock\<close>, mutual exclusion for sequences
    of calls. \<open>Great_Circle\<close>: the haversine formula over the reals.
  \<^item> \<open>Ratelimiter\<close>: \<^verbatim>\<open>ratelimiter.go\<close>, \<^verbatim>\<open>scripts.go\<close>; locale \<open>lua_numbers\<close> for
    the doubles of Lua. \<open>Realtime\<close>: \<^verbatim>\<open>hub.go\<close>, \<^verbatim>\<open>client.go\<close>, \<^verbatim>\<open>messages.go\<close>;
    clients are records on a heap of addresses, the select loop an event
    function. \<open>Worker_Pool\<close>: \<^verbatim>\<open>worker.go\<close> as a transition system.
  \<^item> \<open>Handlers\<close>: \<^verbatim>\<open>dispatch_handlers.go\<close>, \<^verbatim>\<open>geo_handlers.go\<close>,
    \<^verbatim>\<open>ratelimit_handlers.go\<close>, \<^verbatim>\<open>ws_handlers.go\<close>, \<^verbatim>\<open>server.go\<close>, the mux and the health
    probe of \<^verbatim>\<open>cmd/server/main.go\<close>. \<open>Demo\<close>: \<^verbatim>\<open>demo_handler.go\<close>. \<open>Endpoints\<close>: the
    endpoints over the dispatcher, the budgets and the demo.
  \<^item> \<open>Service\<close>: the routes with their handlers (\<open>serve\<close>) and the server as one
    transition system (\<open>server_step\<close>) of requests, clients' messages, hub events
    and everybody else; a position on its way from a driver to his followers.
    \<open>Startup\<close>: \<^verbatim>\<open>server.New\<close> and \<^verbatim>\<open>main\<close>, as an exit code with the actions done.

  \<^bold>\<open>What is shown.\<close> C1 to C4: under every interleaving, no driver and no rider
  has two assignments, the whole server stays in reachable states, and the
  store refines an abstract machine of trips. C5 to C12: the
  contracts of the dispatcher's operations on every branch, errors included,
  and (C10) what their successes mean under interference.
  C13 to C16: coordinates, the types of the store and the
  errors they exclude, and the scans. C17: the lock. C18: the
  distance. C19: a lost reply. C20 to C22: budgets. C23 to C25: the worker
  pool. C26 to C32: the hub. C33 to C37: status codes of the endpoints, the
  end-to-end search, and a position from the driver to his followers. C38, C39: the demo. C40: a driver whose trip expired.

  \<^bold>\<open>Bounds.\<close> No definition has fuel. The cursor loop of the scans is a
  partial function whose \<open>None\<close> is a scan that never ends, and it is proved to
  end on a store nobody changes. The Lua script of the budgets computes with
  doubles, so its exact contract needs budgets and costs up to \<open>2 ^ 53\<close>;
  above that C22 shows what goes wrong. Durations are never added, and the
  other Go integers (counts, milliseconds) stay far below their width.

  \<^bold>\<open>Assumed.\<close> The laws of locale \<open>redis\<close> (each command as documented, a key
  is gone once its deadline has passed, GEO answers in order of distance), of
  \<open>lua_numbers\<close> (doubles are exact on small integers), and of \<open>deployment\<close> (the
  families of keys apart from each other, every time to live a whole number of
  seconds). All three are interpreted on executable definitions. JSON decoding, URL parsing, the WebSocket upgrade and the
  demo page are arguments of the handlers.

  \<^bold>\<open>Fresh IDs.\<close> The demo's reset reads the record of a request, and clears its
  ownership keys in a later round trip when it was not under way. C2 is for
  runs in which no request ID gets a second record: \<open>Demo_Race\<close> states the reset with both
  round trips and shows that then the record is still not under way when the keys go.
  C1 and C3 need no such assumption and do not have the reset.

  \<^bold>\<open>Not modelled.\<close> The listener, signals and the drain of open requests at
  shutdown (\<^verbatim>\<open>main\<close> takes their outcomes as arguments), the
  demo page, log lines and response headers, time limits of connections
  (they only decide which network events come), tests and container files.
\<close>

section \<open>Safety under every interleaving\<close>

text \<open>
  C1: no double assignment. In every store the service can reach, with any
  interleaving of requests and location updates, any passing of time and any
  lost message, two requests that both have an assignment under way or
  arrived for the same driver, or for the same rider, are the same request.
\<close>

theorem no_double_assignment:
  assumes "deployment X d" "reachable X d db"
    and "i = ''driver_id'' \<or> i = ''rider_id''"
    and "assigned {''en_route'', ''arrived''} X d db r i v"
    and "assigned {''en_route'', ''arrived''} X d db r' i v"
  shows "r = r'"
  using assms(3-5) deployment.reachable_inv [OF assms(1,2)]
    deployment.assigned_unique_driver [OF assms(1)] deployment.assigned_unique_rider [OF assms(1)]
  by blast

theorem no_double_assignment_witness:
  "reachable mem server_dispatcher trip_store \<and>
   assigned {''en_route'', ''arrived''} mem server_dispatcher trip_store ''r1'' ''driver_id'' ''v1'' \<and> ''r1'' = ''r1''"
  using no_double_assignment [OF dep.deployment_axioms reachable_trip _ trip_assigned(2) trip_assigned(2)]
    reachable_trip trip_assigned(2) by simp



text \<open>
  C3: the whole server stays safe. However requests to any endpoint but the
  demo's reset, messages of connected clients, events of the hub's loop, other copies of
  the service, the clock and lost messages are interleaved, a server that
  starts on an empty store has at every point a consistent hub and a reachable
  store, so that C1 and every contract below apply to it.
\<close>

theorem server_stays_safe:
  assumes "redis X" "empty_store X db0" "(server_step X L de cd)\<^sup>*\<^sup>* (NewHub, db0) (h, db)"
  shows "hub_ok h \<and> reachable X server_dispatcher db"
  using redis.server_reachable [OF assms(1,3,2)] by (simp add: server_inv_def)

theorem server_stays_safe_witness:
  "hub_ok NewHub \<and> reachable mem server_dispatcher trip_store"
proof -
  have "empty_store mem start_store" by (simp add: empty_store_def mem_view_def mem_find_def start_store_def)
  from server_stays_safe [OF mem.redis_axioms this sample_run] show ?thesis .
qed

text \<open>
  The same for the dispatcher's operations one by one, also those no endpoint
  calls: under any schedule they lead from reachable stores to reachable stores.
\<close>

theorem operations_stay_reachable:
  assumes "reachable X d (wdb w)" "env_stays (svc_step X d) w" "uuid \<noteq> []"
  shows "reachable X d (wdb (snd (run_state (FindAndAssign X d uuid req) w))) \<and>
    reachable X d (wdb (snd (run_state (CancelAssignment X d r) w))) \<and>
    reachable X d (wdb (snd (run_state (ArriveAssignment X d r) w))) \<and>
    reachable X d (wdb (snd (run_state (ReleaseDriver X d v r) w))) \<and>
    reachable X d (wdb (snd (run_state (UpdateDriverLocation X d v lon lat) w)))"
  using assms by (intro conjI reachable_run) (auto intro: stays_intros)

theorem operations_stay_reachable_witness:
  "reachable mem server_dispatcher
     (wdb (snd (run_state (CancelAssignment mem server_dispatcher ''r1'') (quiet trip_store))))"
  using operations_stay_reachable [of mem server_dispatcher "quiet trip_store" "''u1''"] reachable_trip by simp

text \<open>
  C4: the service refines the machine of trips. What the requests of a
  reachable store read back is a state the abstract machine reaches from no
  trips at all, and an atomic step of the service is a step of that machine:
  it assigns a request with none on record whose rider and driver have no
  trip under way or arrived, moves one from \<^verbatim>\<open>en_route\<close> to \<^verbatim>\<open>arrived\<close> or
  \<^verbatim>\<open>cancelled\<close> with every other field kept, or forgets some.
\<close>

theorem service_refines_trips:
  assumes "deployment X d" "reachable X d db" "svc_step X d db db'"
  shows "(trip_step {AssignmentEnRoute, AssignmentArrived})\<^sup>*\<^sup>* Map.empty (stored X d db) \<and>
    trip_step {AssignmentEnRoute, AssignmentArrived} (stored X d db) (stored X d db')"
  using deployment.reachable_trips [OF assms(1,2)]
    deployment.svc_step_refines [OF assms(1,3) deployment.reachable_inv [OF assms(1,2)]] by simp

theorem service_refines_trips_witness:
  "trip_step {AssignmentEnRoute, AssignmentArrived} (stored mem server_dispatcher trip_store)
     (stored mem server_dispatcher (snd (run_state (cancel_eval mem (d_lifecycle server_dispatcher) ''r1'' trip_assignment) trip_store))) \<and>
   map_option a_Status (stored mem server_dispatcher trip_store ''r1'') = Some ''en_route'' \<and>
   map_option a_Status (stored mem server_dispatcher
     (snd (run_state (cancel_eval mem (d_lifecycle server_dispatcher) ''r1'' trip_assignment) trip_store)) ''r1'') = Some ''cancelled''"
  by (intro conjI conjunct2 [OF service_refines_trips [OF dep.deployment_axioms reachable_trip svc_step.cancel]]) code_simp+

text \<open>
  On the fields of a record: a step leaves it as it is, lets it expire,
  creates it with status \<^verbatim>\<open>en_route\<close>, or changes that status alone.
\<close>

theorem record_moves_forward:
  assumes "deployment X d" "reachable X d db" "svc_step X d db db'"
  shows "record_next (hash_at X db (asg_key d r)) (hash_at X db' (asg_key d r))"
  by (rule deployment.svc_step_record [OF assms(1,3) deployment.reachable_inv [OF assms(1,2)]])

theorem record_moves_forward_witness:
  "record_next (hash_at mem trip_store (asg_key server_dispatcher ''r1''))
    (hash_at mem (snd (run_state (refresh_eval mem (d_lifecycle server_dispatcher) ''v1'') trip_store))
      (asg_key server_dispatcher ''r1''))"
  by (rule record_moves_forward [OF dep.deployment_axioms reachable_trip svc_step.refresh])

section \<open>The lifecycle of a trip\<close>

text \<open>
  C5: cancellation. Without interference \<open>CancelAssignment\<close> answers and does
  exactly what its contract says: a blank ID, an unknown request, a request
  that is not under way, and a driver locked by another request are each
  refused with their error and change nothing; otherwise the record becomes
  cancelled, the driver's lock and both ownership keys are gone, and a busy
  driver is available again.
\<close>

theorem cancel_contract:
  assumes "deployment X d" "reachable X d db"
  shows "answers X (CancelAssignment X d r) db (cancel_answer X d db r) (cancel_effect X d db r)"
  by (rule deployment.CancelAssignment_answers [OF assms(1) deployment.reachable_inv [OF assms]]) simp

theorem cancel_contract_witness:
  "answers mem (CancelAssignment mem server_dispatcher ''r1'') trip_store
     (cancel_answer mem server_dispatcher trip_store ''r1'') (cancel_effect mem server_dispatcher trip_store ''r1'') \<and>
   map_sum Error a_Status (cancel_answer mem server_dispatcher trip_store ''r1'') = Inr ''cancelled''"
  by (rule conjI [OF cancel_contract [OF dep.deployment_axioms reachable_trip]]) code_simp

text \<open>
  C6: arrival. Without interference \<open>ArriveAssignment\<close> answers and does
  exactly what its contract says: it refuses a blank ID, an unknown request,
  one that is not under way, a driver without a position, one farther from
  the pickup than the threshold, and one whose status is not busy, and
  changes nothing; otherwise the record becomes arrived and all four keys of
  the trip live on with a fresh deadline.
\<close>

theorem arrive_contract:
  assumes "deployment X d" "reachable X d db"
  shows "answers X (ArriveAssignment X d r) db (arrive_answer X d db r) (arrive_effect X d db r)"
  by (rule deployment.ArriveAssignment_answers [OF assms(1) deployment.reachable_inv [OF assms]]) simp

theorem arrive_contract_witness:
  "answers mem (ArriveAssignment mem server_dispatcher ''r1'') trip_store
     (arrive_answer mem server_dispatcher trip_store ''r1'') (arrive_effect mem server_dispatcher trip_store ''r1'') \<and>
   stored mem server_dispatcher trip_store ''r1'' \<noteq> None"
  by (rule conjI [OF arrive_contract [OF dep.deployment_axioms reachable_trip]]) code_simp

section \<open>The search\<close>

text \<open>
  C7: the search refines its contract. Without interference \<open>FindAndAssign\<close>,
  with its locks, statuses, scripts and rollbacks, answers and leaves in the
  store what the contract computes from the visible keyspace: the first free
  candidate is claimed with all five keys of a trip, or given back if the
  trip cannot be recorded.
\<close>

theorem dispatch_contract:
  assumes "deployment X d" "reachable X d db"
  shows "answers X (FindAndAssign X d uuid req) db
    (search_answer X d db (with_defaults uuid req)) (search_effect X d db (with_defaults uuid req))"
  by (rule deployment.FindAndAssign_answers [OF assms(1) deployment.reachable_inv [OF assms]])

theorem dispatch_contract_witness:
  "answers mem (FindAndAssign mem server_dispatcher ''u1'' (trip_request ''r1'' ''p1'')) idle_store
     (search_answer mem server_dispatcher idle_store (with_defaults ''u1'' (trip_request ''r1'' ''p1'')))
     (search_effect mem server_dispatcher idle_store (with_defaults ''u1'' (trip_request ''r1'' ''p1''))) \<and>
   res_DriverID (search_answer mem server_dispatcher idle_store
     (with_defaults ''u1'' (trip_request ''r1'' ''p1''))) = ''v1''"
  by (rule conjI [OF dispatch_contract [OF dep.deployment_axioms reachable_idle]]) code_simp

text \<open>
  C8: the nearest free driver. If the search succeeds, the driver it returns
  was free, lies within the radius at the distance reported, and no other
  free driver of the index lies nearer.
\<close>

theorem dispatch_nearest:
  assumes "deployment X d" "reachable X d db"
    and "run_state (FindAndAssign X d uuid req) (quiet db) = (res, w)" "res_Success res"
  shows "\<exists>x y r p. req_Longitude req = Fin x \<and> req_Latitude req = Fin y \<and>
     req_RadiusKm (with_defaults uuid req) = Fin r \<and> driver_free X d db (res_DriverID res) \<and>
     geo_at X db (geo_key d) (res_DriverID res) = Some p \<and> geo_km X (x, y) p \<le> r \<and>
     res_Distance res = Fin (geo_round X (geo_km X (x, y) p)) \<and>
     (\<forall>v q. geo_at X db (geo_key d) v = Some q \<and> driver_free X d db v \<longrightarrow> geo_km X (x, y) p \<le> geo_km X (x, y) q)"
proof -
  note inv = deployment.reachable_inv [OF assms(1,2)]
  have res: "res = search_answer X d db (with_defaults uuid req)"
    using deployment.FindAndAssign_answers [OF assms(1) inv, of uuid req] assms(3) by (auto simp: answers_def)
  have c: "req_Longitude (with_defaults uuid req) = req_Longitude req"
    "req_Latitude (with_defaults uuid req) = req_Latitude req" by (simp_all add: with_defaults_def Let_def)
  show ?thesis
    using deployment.search_nearest [OF assms(1) inv assms(4) [unfolded res]] unfolding res c .
qed

theorem dispatch_nearest_witness:
  "\<exists>x y r p. Fin 0 = Fin x \<and> Fin 0 = Fin y \<and> req_RadiusKm (with_defaults ''u1'' (trip_request ''r1'' ''p1'')) = Fin r \<and>
     geo_km mem (x, y) p \<le> r"
proof -
  have s: "res_Success (fst (run_state trip_dispatch (quiet idle_store)))" by code_simp
  have "req_Longitude (trip_request ''r1'' ''p1'') = Fin 0" "req_Latitude (trip_request ''r1'' ''p1'') = Fin 0"
    by (simp_all add: trip_request_def)
  with dispatch_nearest [OF dep.deployment_axioms reachable_idle prod.collapse [symmetric] s [unfolded trip_dispatch_def]]
  show ?thesis by fastforce
qed



text \<open>
  C10: a success is true under interference. Whatever other requests, the clock and the network do
  around its round trips: when a search for a rider answers success, the
  record of its request is in the store, en route, with that rider, the
  driver of the answer and the pickup point asked for, and both ownership
  keys name it; when a cancellation or an arrival answers success, the
  record has that status with the rider and driver of the answer, and the
  driver is let go, or still owned and busy.
\<close>

theorem success_under_interference:
  assumes "deployment X d" "reachable X d (wdb w)" "env_stays (svc_step X d) w" "uuid \<noteq> []"
  shows "made X d (with_defaults uuid req) (fst (run_state (FindAndAssign X d uuid req) w))
      (wdb (snd (run_state (FindAndAssign X d uuid req) w))) \<and>
    wins (cancelled X d r) (fst (run_state (CancelAssignment X d r) w)) (wdb (snd (run_state (CancelAssignment X d r) w))) \<and>
    wins (arrived X d r) (fst (run_state (ArriveAssignment X d r) w)) (wdb (snd (run_state (ArriveAssignment X d r) w)))"
proof -
  have w: "under_way X d w" using assms(2,3) by (simp add: under_way_def)
  note run = ensuresD [OF _ w, where P = anyhow, OF _ TrueI]
  show ?thesis
    by (intro conjI run [OF deployment.FindAndAssign_ensures [OF assms(1,4)]]
        run [OF deployment.CancelAssignment_ensures [OF assms(1)]] run [OF deployment.ArriveAssignment_ensures [OF assms(1)]])
qed

theorem success_under_interference_witness:
  "has_trip mem server_dispatcher (new_assignment (trip_request ''r1'' ''p1'') ''v1'')
     (wdb (snd (run_state trip_dispatch shared_world)))"
proof -
  have s: "res_Success (fst (run_state trip_dispatch shared_world))" "res_DriverID (fst (run_state trip_dispatch shared_world)) = ''v1''"
    by code_simp+
  have "reachable mem server_dispatcher (wdb shared_world)" by (simp add: shared_world_def reachable_idle)
  from success_under_interference [OF dep.deployment_axioms this env_stays_shared, of "''u1''" "trip_request ''r1'' ''p1''"] s
  have "has_trip mem server_dispatcher (new_assignment (with_defaults ''u1'' (trip_request ''r1'' ''p1'')) ''v1'')
     (wdb (snd (run_state trip_dispatch shared_world)))"
    by (simp add: made_def trip_dispatch_def with_defaults_def trip_request_def Let_def)
  then show ?thesis by (simp add: new_assignment_def with_defaults_def trip_request_def Let_def)
qed

text \<open>
  Without interference all five keys of the trip are there: after a successful
  search for a rider, \<open>GetAssignment\<close> returns the assignment of the request, the
  driver's lock and both ownership keys name the request, and he is busy.
\<close>

theorem dispatch_recorded:
  assumes "deployment X d" "reachable X d db"
    and "run_state (FindAndAssign X d uuid req) (quiet db) = (res, quiet db')" "res_Success res"
    and "req_RiderID req \<noteq> []" "uuid \<noteq> []"
  shows "fst (run_state (GetAssignment X d (res_RequestID res)) (quiet db')) =
      Inr (new_assignment (with_defaults uuid req) (res_DriverID res)) \<and>
    str_at X db' (rider_key d (req_RiderID req)) = Some (res_RequestID res) \<and>
    str_at X db' (owner_key d (res_DriverID res)) = Some (res_RequestID res) \<and>
    str_at X db' (lock_key d (res_DriverID res)) = Some (res_RequestID res) \<and>
    str_at X db' (stat_key d (res_DriverID res)) = Some ''busy''"
proof -
  let ?q = "with_defaults uuid req"
  note inv = deployment.reachable_inv [OF assms(1,2)]
  have "reachable X d (wdb (snd (run_state (FindAndAssign X d uuid req) (quiet db))))"
    by (rule reachable_run) (simp_all add: assms(2,6) stays_FindAndAssign)
  then have r': "reachable X d db'" by (simp add: assms(3))
  have res: "res = search_answer X d db ?q" and V: "view X db' = search_effect X d db ?q"
    using deployment.FindAndAssign_answers [OF assms(1) inv, of uuid req] assms(3)
    by (auto simp: answers_def quiet_def)
  have rid: "req_RiderID ?q = req_RiderID req" by (simp add: with_defaults_def Let_def)
  have rq: "res_RequestID res = req_RequestID ?q"
    using assms(4) unfolding res by (auto intro: deployment.search_success [OF assms(1)] simp: matched_def)
  note trip = deployment.search_trip [OF assms(1) assms(4) [unfolded res] _ V, unfolded rid, OF assms(5), folded res]
  show ?thesis
    using trip by (simp add: rq GetAssignment_def deployment.run_lc_get [OF assms(1) deployment.reachable_inv [OF assms(1) r']])
qed

theorem dispatch_recorded_witness:
  "\<exists>w. run_state (FindAndAssign mem server_dispatcher ''u1'' (trip_request ''r1'' ''p1'')) (quiet idle_store)
      = (matched (trip_request ''r1'' ''p1'') \<lparr>loc_ID = ''v1'', loc_Longitude = Fin 0, loc_Latitude = Fin 0,
           loc_DistanceKm = Fin 0\<rparr>, w) \<and>
   fst (run_state (GetAssignment mem server_dispatcher ''r1'') (quiet (wdb w))) =
     Inr (new_assignment (with_defaults ''u1'' (trip_request ''r1'' ''p1'')) ''v1'')"
proof -
  let ?res = "matched (trip_request ''r1'' ''p1'') \<lparr>loc_ID = ''v1'', loc_Longitude = Fin 0, loc_Latitude = Fin 0,
     loc_DistanceKm = Fin 0\<rparr>"
  have a: "answers mem (FindAndAssign mem server_dispatcher ''u1'' (trip_request ''r1'' ''p1'')) idle_store
     (search_answer mem server_dispatcher idle_store (with_defaults ''u1'' (trip_request ''r1'' ''p1'')))
     (search_effect mem server_dispatcher idle_store (with_defaults ''u1'' (trip_request ''r1'' ''p1'')))"
    by (rule dep.FindAndAssign_answers [OF dep.reachable_inv [OF reachable_idle]])
  have "search_answer mem server_dispatcher idle_store (with_defaults ''u1'' (trip_request ''r1'' ''p1'')) = ?res"
    by code_simp
  with a obtain db' where run: "run_state (FindAndAssign mem server_dispatcher ''u1'' (trip_request ''r1'' ''p1'')) (quiet idle_store)
      = (?res, quiet db')" by (auto simp: answers_def)
  have r: "res_Success ?res" "req_RiderID (trip_request ''r1'' ''p1'') \<noteq> []" "res_RequestID ?res = ''r1''" "res_DriverID ?res = ''v1''"
    by (simp_all add: matched_def trip_request_def)
  from dispatch_recorded [OF dep.deployment_axioms reachable_idle run r(1,2)] run show ?thesis
    unfolding r by (intro exI [of _ "quiet db'"]) simp
qed

text \<open>
  C11: dispatch and cancel. Cancelling the trip a successful search has just
  made succeeds, and then every key of the store holds the value it held
  before the search, but for the record of the request, which is cancelled.
\<close>

theorem dispatch_then_cancel:
  assumes "deployment X d" "reachable X d db"
    and "run_state (FindAndAssign X d uuid req) (quiet db) = (res, quiet db')" "res_Success res"
    and "req_RiderID req \<noteq> []" "TrimSpace (res_RequestID res) \<noteq> []" "uuid \<noteq> []"
  shows "\<exists>a w. run_state (CancelAssignment X d (res_RequestID res)) (quiet db') = (Inr a, w) \<and>
    a_Status a = ''cancelled'' \<and> a_DriverID a = res_DriverID res \<and>
    (\<forall>k. k \<noteq> asg_key d (res_RequestID res) \<longrightarrow> vals (view X (wdb w)) k = vals (view X db) k)"
proof -
  let ?q = "with_defaults uuid req"
  note inv = deployment.reachable_inv [OF assms(1,2)]
  have "reachable X d (wdb (snd (run_state (FindAndAssign X d uuid req) (quiet db))))"
    by (rule reachable_run) (simp_all add: assms(2,7) stays_FindAndAssign)
  then have r': "reachable X d db'" by (simp add: assms(3))
  have res: "res = search_answer X d db ?q" and V: "view X db' = search_effect X d db ?q"
    using deployment.FindAndAssign_answers [OF assms(1) inv, of uuid req] assms(3)
    by (auto simp: answers_def quiet_def)
  have rid: "req_RiderID ?q \<noteq> []" using assms(5) by (simp add: with_defaults_def Let_def)
  have rq: "res_RequestID res = req_RequestID ?q"
    using assms(4) unfolding res by (auto intro: deployment.search_success [OF assms(1)] simp: matched_def)
  note fin = deployment.cancel_after_search [OF assms(1) inv assms(4) [unfolded res] rid assms(6) [unfolded rq] V, folded res rq]
  obtain db2 where "run_state (CancelAssignment X d (res_RequestID res)) (quiet db') =
      (cancel_answer X d db' (res_RequestID res), quiet db2)" "view X db2 = cancel_effect X d db' (res_RequestID res)"
    using deployment.CancelAssignment_answers [OF assms(1) deployment.reachable_inv [OF assms(1) r']] by (auto simp: answers_def)
  with fin show ?thesis by (intro exI conjI allI impI) auto
qed

theorem dispatch_then_cancel_witness:
  "\<exists>db' a w. run_state (CancelAssignment mem server_dispatcher ''r1'') (quiet db') = (Inr a, w) \<and>
     a_Status a = ''cancelled'' \<and> a_DriverID a = ''v1'' \<and>
     (\<forall>k. k \<noteq> asg_key server_dispatcher ''r1'' \<longrightarrow> vals (view mem (wdb w)) k = vals (view mem idle_store) k)"
proof -
  let ?res = "matched (trip_request ''r1'' ''p1'') \<lparr>loc_ID = ''v1'', loc_Longitude = Fin 0, loc_Latitude = Fin 0,
     loc_DistanceKm = Fin 0\<rparr>"
  have "search_answer mem server_dispatcher idle_store (with_defaults ''u1'' (trip_request ''r1'' ''p1'')) = ?res"
    by code_simp
  with dep.FindAndAssign_answers [OF dep.reachable_inv [OF reachable_idle], of "''u1''" "trip_request ''r1'' ''p1''"]
  obtain db' where run: "run_state (FindAndAssign mem server_dispatcher ''u1'' (trip_request ''r1'' ''p1'')) (quiet idle_store)
      = (?res, quiet db')" by (auto simp: answers_def)
  have r: "res_Success ?res" "req_RiderID (trip_request ''r1'' ''p1'') \<noteq> []" "TrimSpace (res_RequestID ?res) \<noteq> []"
    "res_RequestID ?res = ''r1''" "res_DriverID ?res = ''v1''"
    by (simp_all add: matched_def trip_request_def TrimSpace_def is_space_def)
  from dispatch_then_cancel [OF dep.deployment_axioms reachable_idle run r(1-3), unfolded r(4,5)]
  show ?thesis by blast
qed

section \<open>The presence of a driver\<close>

text \<open>
  C12: a location update. Without interference \<open>UpdateDriverLocation\<close>
  refuses a blank ID, invalid coordinates, and valid coordinates outside the
  range of the index (the latter with an error of the server), and changes
  nothing. Otherwise it stores the position; a driver on a trip becomes or
  stays busy, an offline driver becomes available, and any other keeps his
  status; the status gets a fresh deadline.
\<close>

theorem location_contract:
  assumes "deployment X d" "reachable X d db"
  shows "answers X (UpdateDriverLocation X d v lon lat) db (location_answer lon lat v) (location_effect X d db v lon lat)"
  by (rule deployment.UpdateDriverLocation_answers [OF assms(1) deployment.reachable_inv [OF assms]])

theorem location_contract_witness:
  "answers mem (UpdateDriverLocation mem server_dispatcher ''v1'' (Fin 1) (Fin 2)) trip_store
     (location_answer (Fin 1) (Fin 2) ''v1'') (location_effect mem server_dispatcher trip_store ''v1'' (Fin 1) (Fin 2)) \<and>
   location_answer (Fin 1) (Fin 2) ''v1'' = Inr ()"
  by (rule conjI [OF location_contract [OF dep.deployment_axioms reachable_trip]]) code_simp

text \<open>
  C13: the latitudes the program accepts and the index does not. For a
  finite latitude that the program's validation accepts but that lies beyond
  the range of a Redis GEO index, a location update and a search both fail
  with an error of the server, not with \<^verbatim>\<open>ErrInvalidCoordinates\<close>.
\<close>

theorem polar_latitudes:
  assumes "deployment X d" "reachable X d db" "TrimSpace v \<noteq> []"
    and "-180 \<le> x" "x \<le> 180" "8505112878 / 100000000 < y" "y \<le> 90" "0 < r"
  shows "ValidateCoordinates (Fin x) (Fin y) = Inr () \<and>
    fst (run_state (UpdateDriverLocation X d v (Fin x) (Fin y)) (quiet db)) = Inl (Rdb InvalidGeo) \<and>
    fst (run_state (FindNearby X (d_geoService d) (Fin x) (Fin y) (Fin r)) (quiet db)) = Inl (Rdb InvalidGeo)"
proof -
  have c: "ValidateCoordinates (Fin x) (Fin y) = Inr ()" using assms(4-7) by (simp add: ValidateCoordinates_ok_iff)
  have g: "\<not> geo_range x y" using assms(6) by (simp add: geo_range_def)
  have "location_answer (Fin x) (Fin y) v = Inl (Rdb InvalidGeo)"
    using assms(3) c g by (simp add: location_answer_def)
  with deployment.UpdateDriverLocation_answers [OF assms(1) deployment.reachable_inv [OF assms(1,2)], of v "Fin x" "Fin y"]
  have u: "fst (run_state (UpdateDriverLocation X d v (Fin x) (Fin y)) (quiet db)) = Inl (Rdb InvalidGeo)"
    by (auto simp: answers_def)
  have "redis X" using assms(1) by (rule deployment.axioms)
  from redis.georadius_range [OF this g] c assms(8)
  have "fst (run_state (FindNearby X (d_geoService d) (Fin x) (Fin y) (Fin r)) (quiet db)) = Inl (Rdb InvalidGeo)"
    by (simp add: FindNearby_def run_attempt run_call_quiet ValidateRadius_ok_iff [THEN iffD2] split: sum.split)
  with c u show ?thesis by blast
qed

theorem polar_latitudes_witness:
  "fst (run_state (UpdateDriverLocation mem server_dispatcher ''v1'' (Fin 0) (Fin 86)) (quiet idle_store)) = Inl (Rdb InvalidGeo)"
  by (rule polar_latitudes [OF dep.deployment_axioms reachable_idle, of "''v1''" 0 86 1, THEN conjunct2, THEN conjunct1])
    (simp_all add: TrimSpace_def is_space_def)

text \<open>
  C14: the store is typed, and operations get no surprises. In every reachable store
  each family of keys holds values of its one type, every record parses, and
  so, under any schedule of other requests and lost messages, an operation
  never returns WRONGTYPE, never a parse error and never the error for an
  unexpected answer of a script: only sentinels, network errors, positions
  out of the index's range, and the refusal of a blank ID.
\<close>

theorem typed_store_no_surprise:
  assumes "deployment X d" "reachable X d (wdb w)" "env_stays (svc_step X d) w" "uuid \<noteq> []"
  shows "typed X d (wdb w) \<and> records_ok X d (wdb w) \<and>
    good_result (fst (run_state (FindAndAssign X d uuid req) w)) \<and>
    fine (\<lambda>_. True) (fst (run_state (CancelAssignment X d r) w)) \<and>
    fine (\<lambda>_. True) (fst (run_state (ArriveAssignment X d r) w)) \<and>
    fine (\<lambda>_. True) (fst (run_state (GetAssignment X d r) w)) \<and>
    fine (\<lambda>_. True) (fst (run_state (UpdateDriverLocation X d v lon lat) w)) \<and>
    fine (\<lambda>_. True) (fst (run_state (ReleaseDriver X d v r) w)) \<and>
    fine (\<lambda>_. True) (fst (run_state (Heartbeat X (d_driverService d) v) w)) \<and>
    fine (\<lambda>_. True) (fst (run_state (SetStatus X (d_driverService d) v s) w))"
proof -
  have w: "under_way X d w" using assms(2,3) by (simp add: under_way_def)
  show ?thesis
    unfolding GetAssignment_def
    using deployment.reachable_inv [OF assms(1,2)] soundD [OF deployment.FindAndAssign_sound [OF assms(1,4)] w]
      soundD [OF deployment.clean_CancelAssignment [OF assms(1)] w] soundD [OF deployment.clean_ArriveAssignment [OF assms(1)] w]
      soundD [OF deployment.clean_get [OF assms(1)] w] soundD [OF deployment.clean_UpdateDriverLocation [OF assms(1)] w]
      soundD [OF deployment.clean_ReleaseDriver [OF assms(1)] w] soundD [OF deployment.clean_Heartbeat [OF assms(1)] w]
      soundD [OF deployment.clean_SetStatus [OF assms(1)] w]
    by (simp add: store_inv_def)
qed

theorem typed_store_no_surprise_witness:
  "good_result (fst (run_state (FindAndAssign mem server_dispatcher ''u1'' (trip_request ''r1'' ''p1'')) lossy_world)) \<and>
   res_Error (fst (run_state (FindAndAssign mem server_dispatcher ''u1'' (trip_request ''r1'' ''p1'')) lossy_world))
     = ''redis: connection error''"
proof
  have "reachable mem server_dispatcher (wdb lossy_world)" by (simp add: lossy_world_def reachable_idle)
  moreover have "env_stays (svc_step mem server_dispatcher) lossy_world" by (auto simp: env_stays_def lossy_world_def)
  ultimately show "good_result (fst (run_state (FindAndAssign mem server_dispatcher ''u1'' (trip_request ''r1'' ''p1'')) lossy_world))"
    using typed_store_no_surprise [OF dep.deployment_axioms, of lossy_world "''u1''"] by simp
  show "res_Error (fst (run_state (FindAndAssign mem server_dispatcher ''u1'' (trip_request ''r1'' ''p1'')) lossy_world))
     = ''redis: connection error''" by code_simp
qed

text \<open>
  A heartbeat alone revives nobody: it renews the deadline of a driver's
  status and keeps its value; for an offline driver it fails with
  \<^verbatim>\<open>ErrDriverOffline\<close> and changes nothing.
\<close>

theorem heartbeat_contract:
  assumes "deployment X d" "reachable X d db" "TrimSpace v \<noteq> []"
  shows "answers X (Heartbeat X (d_driverService d) v) db
    (if str_at X db (stat_key d v) = None then Inl (Drv ErrDriverOffline) else Inr ())
    (case str_at X db (stat_key d v) of None \<Rightarrow> view X db
     | Some s \<Rightarrow> (view X db)(stat_key d v \<mapsto> (RStr s, until X db (ds_defaultTTL (d_driverService d)))))"
  by (rule deployment.Heartbeat_answers [OF assms(1) deployment.inv_typed [OF assms(1) deployment.reachable_inv [OF assms(1,2)]] assms(3)])

theorem heartbeat_contract_witness:
  "fst (run_state (Heartbeat mem (d_driverService server_dispatcher) ''v9'') (quiet idle_store)) = Inl (Drv ErrDriverOffline)"
proof -
  have "str_at mem idle_store (stat_key server_dispatcher ''v9'') = None" by code_simp
  with heartbeat_contract [OF dep.deployment_axioms reachable_idle, of "''v9''"] show ?thesis
    by (auto simp: answers_def TrimSpace_def is_space_def)
qed

text \<open>
  C15: the scan of available drivers. On a store nobody changes
  \<open>GetAvailableDrivers\<close> ends without an error and returns every driver whose
  status is available, and nobody else.
\<close>

theorem available_drivers:
  assumes "redis X" "glob_free (ds_keyPrefix ds @ '':status:'')"
  shows "\<exists>vs. GetAvailableDrivers X ds (quiet db) = Some (Inr vs, quiet db) \<and>
    set vs = {v. str_at X db (statusKey ds v) = Some StatusAvailable}"
  by (rule redis.GetAvailableDrivers_all [OF assms])

theorem available_drivers_witness:
  "\<exists>vs. GetAvailableDrivers mem (d_driverService server_dispatcher) (quiet idle_store) = Some (Inr vs, quiet idle_store) \<and>
    set vs = {v. str_at mem idle_store (statusKey (d_driverService server_dispatcher) v) = Some StatusAvailable}"
  by (rule available_drivers [OF mem.redis_axioms]) code_simp

text \<open>
  C16: the driver statistics never count too few. On a store nobody changes
  \<open>GetDriverStats\<close> ends without an error; the total is at least the number
  of drivers with a status, the available count at least the number of
  available drivers, and at most the total. They can be larger: a cursor
  scan may return a key twice.
\<close>

theorem driver_stats:
  assumes "redis X" "glob_free (ds_keyPrefix ds @ '':status:'')"
  shows "\<exists>total available. GetDriverStats X ds (quiet db) = Some ((total, available, None), quiet db) \<and>
    available \<le> total \<and> card {v. str_at X db (statusKey ds v) \<noteq> None} \<le> total \<and>
    card {v. str_at X db (statusKey ds v) = Some StatusAvailable} \<le> available"
  by (rule redis.GetDriverStats_counts [OF assms])

theorem driver_stats_witness:
  "\<exists>total available. GetDriverStats mem (d_driverService server_dispatcher) (quiet idle_store)
      = Some ((total, available, None), quiet idle_store) \<and> available \<le> total"
  using driver_stats [OF mem.redis_axioms, of "d_driverService server_dispatcher" idle_store]
  by (auto simp: server_dispatcher_def NewDispatcher_def NewDriverService_def glob_free_def Let_def)

section \<open>The lock and the distance\<close>

text \<open>
  C17: mutual exclusion. Whatever calls of the lock manager follow, in any
  number and by any requests, as long as the holder does not release it: the
  lock of a driver stays with its holder and no call of another request on
  it succeeds. (The expiry of the lock is the exception the protocol accepts.)
\<close>

theorem lock_exclusion:
  assumes "deployment X d" "reachable X d db" "lock_holder X d db v = Some r" "Release v r \<notin> set xs"
  shows "lock_holder X d (snd (lock_calls X (d_lockManager d) xs db)) v = Some r \<and>
    (\<forall>(x, b) \<in> set (zip xs (fst (lock_calls X (d_lockManager d) xs db))).
       op_driver x = v \<longrightarrow> op_request x \<noteq> r \<longrightarrow> \<not> b)"
  by (rule deployment.lock_held_until_released [OF assms(1)
        deployment.inv_typed [OF assms(1) deployment.reachable_inv [OF assms(1,2)]] assms(3,4)])

theorem lock_exclusion_witness:
  "lock_holder mem server_dispatcher (snd (lock_calls mem (d_lockManager server_dispatcher)
     [Acquire ''v1'' ''r2'', Release ''v1'' ''r2'', Extend ''v1'' ''r1''] trip_store)) ''v1'' = Some ''r1''"
proof -
  have "lock_holder mem server_dispatcher trip_store ''v1'' = Some ''r1''" by code_simp
  from lock_exclusion [OF dep.deployment_axioms reachable_trip this,
      of "[Acquire ''v1'' ''r2'', Release ''v1'' ''r2'', Extend ''v1'' ''r1'']"]
  show ?thesis by simp
qed

text \<open>
  C18: the arrival check measures the great circle. For latitudes in range
  \<open>distanceKm\<close> is the earth's radius times the angle between the two points
  by the spherical law of cosines; it is symmetric, zero at the pickup point
  itself, never negative and at most half the circumference.
\<close>

theorem distance_great_circle:
  assumes "latitude_ok lat1" "latitude_ok lat2"
  shows "distanceKm lon1 lat1 lon2 lat2 = earthRadiusKm * arccos (cos_angle lon1 lat1 lon2 lat2) \<and>
    distanceKm lon1 lat1 lon2 lat2 = distanceKm lon2 lat2 lon1 lat1 \<and> distanceKm lon1 lat1 lon1 lat1 = 0 \<and>
    0 \<le> distanceKm lon1 lat1 lon2 lat2 \<and> distanceKm lon1 lat1 lon2 lat2 \<le> pi * earthRadiusKm"
  using distanceKm_angle [OF assms] distanceKm_metric distanceKm_range [OF assms] by blast

theorem distance_great_circle_witness:
  "distanceKm 0 45 90 45 = earthRadiusKm * arccos (cos_angle 0 45 90 45)"
  using distance_great_circle [of 45 45 0 90] by (simp add: latitude_ok_def)

section \<open>Lost messages\<close>


end
